theory Spec2Isabelle
  imports Complex_Main "HOL-Library.AList"
begin

section \<open>Editor lifecycle and the background message listener\<close>

text \<open>
  Source: \<^verbatim>\<open>core/editor.ts\<close> (\<^verbatim>\<open>createWebEditorV2\<close>) and \<^verbatim>\<open>core/message-listener.ts\<close>
  (\<^verbatim>\<open>installMessageListener\<close>).

  \<^verbatim>\<open>EditorInternalState\<close> holds one nullable reference per subsystem. A reference is
  modelled by a flag (\<open>True\<close>: an instance is held, \<open>False\<close>: \<^verbatim>\<open>null\<close>); the two element
  references are options over an arbitrary element type. The calls to \<^verbatim>\<open>dispose()\<close> are
  recorded, in order, in \<open>disposeLog\<close>.
\<close>

datatype subsystem =
  ShadowHost | CanvasOverlay | SelectionEngine | EventController
  | PositionTracker | TransactionManager | Toolbar

record 'e editorState =
  active :: bool
  shadowHost :: bool
  canvasOverlay :: bool
  eventController :: bool
  positionTracker :: bool
  selectionEngine :: bool
  transactionManager :: bool
  toolbar :: bool
  hoveredElement :: "'e option"
  selectedElement :: "'e option"
  disposeLog :: "subsystem list"

definition createWebEditorV2 :: "'e editorState" where
  "createWebEditorV2 =
     \<lparr> active = False, shadowHost = False, canvasOverlay = False, eventController = False,
       positionTracker = False, selectionEngine = False, transactionManager = False,
       toolbar = False, hoveredElement = None, selectedElement = None, disposeLog = [] \<rparr>"

text \<open>
  The statements of the \<^verbatim>\<open>try\<close> block of \<^verbatim>\<open>start()\<close> that can throw, in source order.
  \<open>OverlayRootCheck\<close> and \<open>UiRootCheck\<close> are the two explicit \<^verbatim>\<open>throw new Error(...)\<close>;
  the others are calls into the collaborators. The environment of one call of
  \<^verbatim>\<open>start()\<close> is the first statement that throws, if any.
\<close>

datatype initStep =
  MountShadowHost | OverlayRootCheck | CreateCanvasOverlay | CreateSelectionEngine
  | CreateEventController | CreatePositionTracker | CreateTransactionManager
  | UiRootCheck | CreateToolbar | SetHistory

definition startSteps :: "(initStep \<times> ('e editorState \<Rightarrow> 'e editorState)) list" where
  "startSteps =
     [ (MountShadowHost, \<lambda>s. s\<lparr>shadowHost := True\<rparr>),
       (OverlayRootCheck, \<lambda>s. s),
       (CreateCanvasOverlay, \<lambda>s. s\<lparr>canvasOverlay := True\<rparr>),
       (CreateSelectionEngine, \<lambda>s. s\<lparr>selectionEngine := True\<rparr>),
       (CreateEventController, \<lambda>s. s\<lparr>eventController := True\<rparr>),
       (CreatePositionTracker, \<lambda>s. s\<lparr>positionTracker := True\<rparr>),
       (CreateTransactionManager, \<lambda>s. s\<lparr>transactionManager := True\<rparr>),
       (UiRootCheck, \<lambda>s. s),
       (CreateToolbar, \<lambda>s. s\<lparr>toolbar := True\<rparr>),
       (SetHistory, \<lambda>s. s) ]"

text \<open>Runs the statements up to the one that throws: \<open>Inl\<close> is the state at the throw.\<close>

fun runSteps ::
  "initStep option \<Rightarrow> (initStep \<times> ('s \<Rightarrow> 's)) list \<Rightarrow> 's \<Rightarrow> 's + 's" where
  "runSteps failing [] s = Inr s"
| "runSteps failing ((k, f) # rest) s =
     (if failing = Some k then Inl s else runSteps failing rest (f s))"

text \<open>\<^verbatim>\<open>x?.dispose(); x = null\<close> for one subsystem reference.\<close>

definition disposeRef ::
  "subsystem \<Rightarrow> ('e editorState \<Rightarrow> bool) \<Rightarrow> 'e editorState \<Rightarrow> 'e editorState" where
  "disposeRef k held s = (if held s then s\<lparr>disposeLog := disposeLog s @ [k]\<rparr> else s)"

text \<open>The cleanup both of the \<^verbatim>\<open>catch\<close> block of \<^verbatim>\<open>start()\<close> and of \<^verbatim>\<open>stop()\<close>:
  reverse order of initialisation, every reference set to \<^verbatim>\<open>null\<close>.\<close>

definition cleanupSubsystems :: "'e editorState \<Rightarrow> 'e editorState" where
  "cleanupSubsystems s0 =
     (let s1 = (disposeRef Toolbar toolbar s0)\<lparr>toolbar := False\<rparr>;
          s2 = (disposeRef TransactionManager transactionManager s1)\<lparr>transactionManager := False\<rparr>;
          s3 = (disposeRef PositionTracker positionTracker s2)\<lparr>positionTracker := False\<rparr>;
          s4 = (disposeRef EventController eventController s3)\<lparr>eventController := False\<rparr>;
          s5 = (disposeRef SelectionEngine selectionEngine s4)\<lparr>selectionEngine := False\<rparr>;
          s6 = (disposeRef CanvasOverlay canvasOverlay s5)\<lparr>canvasOverlay := False\<rparr>;
          s7 = (disposeRef ShadowHost shadowHost s6)\<lparr>shadowHost := False\<rparr>
      in s7\<lparr>hoveredElement := None, selectedElement := None\<rparr>)"

definition start :: "initStep option \<Rightarrow> 'e editorState \<Rightarrow> 'e editorState" where
  "start failing s =
     (if active s then s
      else (case runSteps failing startSteps s of
              Inr s' \<Rightarrow> s'\<lparr>active := True\<rparr>
            | Inl s' \<Rightarrow> (cleanupSubsystems s')\<lparr>active := False\<rparr>))"

definition stop :: "'e editorState \<Rightarrow> 'e editorState" where
  "stop s = (if \<not> active s then s else cleanupSubsystems (s\<lparr>active := False\<rparr>))"

definition toggle :: "initStep option \<Rightarrow> 'e editorState \<Rightarrow> bool \<times> 'e editorState" where
  "toggle failing s =
     (let s' = (if active s then stop s else start failing s) in (active s', s'))"

record webEditorState =
  stateActive :: bool
  stateVersion :: nat

definition WEB_EDITOR_V2_VERSION :: nat where
  "WEB_EDITOR_V2_VERSION = 2"

definition getState :: "'e editorState \<Rightarrow> webEditorState" where
  "getState s = \<lparr> stateActive = active s, stateVersion = WEB_EDITOR_V2_VERSION \<rparr>"

subsection \<open>Message protocol\<close>

definition ACTION_PING :: string where "ACTION_PING = ''web_editor_ping_v2''"
definition ACTION_TOGGLE :: string where "ACTION_TOGGLE = ''web_editor_toggle_v2''"
definition ACTION_START :: string where "ACTION_START = ''web_editor_start_v2''"
definition ACTION_STOP :: string where "ACTION_STOP = ''web_editor_stop_v2''"

text \<open>A request is its \<^verbatim>\<open>action\<close> field; \<open>None\<close> stands for a request that is not an
  object or has no string \<^verbatim>\<open>action\<close>.\<close>

type_synonym request = "string option"

datatype response =
  PingResponse bool nat
  | ToggleResponse bool
  | StartResponse bool
  | StopResponse bool

fun responseActive :: "response \<Rightarrow> bool" where
  "responseActive (PingResponse a v) = a"
| "responseActive (ToggleResponse a) = a"
| "responseActive (StartResponse a) = a"
| "responseActive (StopResponse a) = a"

definition isV2Request :: "request \<Rightarrow> bool" where
  "isV2Request r =
     (case r of None \<Rightarrow> False
      | Some a \<Rightarrow> a = ACTION_PING \<or> a = ACTION_TOGGLE \<or> a = ACTION_START \<or> a = ACTION_STOP)"

text \<open>The listener of \<^verbatim>\<open>installMessageListener\<close>: the response passed to
  \<^verbatim>\<open>sendResponse\<close> (\<open>None\<close>: the request is not handled) and the editor afterwards.
  The first argument is the environment of a call of \<^verbatim>\<open>start()\<close>, should one happen.\<close>

definition listener ::
  "initStep option \<Rightarrow> request \<Rightarrow> 'e editorState \<Rightarrow> response option \<times> 'e editorState" where
  "listener failing r s =
     (if \<not> isV2Request r then (None, s)
      else if r = Some ACTION_PING then
        (Some (PingResponse (stateActive (getState s)) 2), s)
      else if r = Some ACTION_TOGGLE then
        (let (a, s') = toggle failing s in (Some (ToggleResponse a), s'))
      else if r = Some ACTION_START then
        (Some (StartResponse True), start failing s)
      else if r = Some ACTION_STOP then
        (Some (StopResponse False), stop s)
      else (None, s))"

lemma cleanupSubsystems_active [simp]: "active (cleanupSubsystems s) = active s"
  by (simp add: cleanupSubsystems_def disposeRef_def Let_def)

lemma runSteps_throws:
  "(k, f) \<in> set steps \<Longrightarrow> \<exists>s'. runSteps (Some k) steps s = Inl s'"
  by (induction steps arbitrary: s) auto

lemma start_failing_inactive:
  fixes s :: "'e editorState"
  assumes "\<not> active s" and "failing = Some k"
  shows "\<not> active (start failing s)"
proof -
  have "\<exists>f. (k, f) \<in> set (startSteps :: (initStep \<times> ('e editorState \<Rightarrow> 'e editorState)) list)"
    by (cases k) (auto simp add: startSteps_def)
  then obtain f :: "'e editorState \<Rightarrow> 'e editorState" where f: "(k, f) \<in> set startSteps" ..
  obtain s' where "runSteps (Some k) startSteps s = Inl s'"
    using runSteps_throws [OF f, of s] ..
  with assms show ?thesis by (simp add: start_def)
qed

text \<open>
  Claim C10. The listener answers every START request with \<open>active = true\<close> and every STOP
  request with \<open>active = false\<close>, whatever the editor does. When the editor is inactive and
  a statement of \<^verbatim>\<open>start()\<close> throws, the START response still says \<open>active = true\<close>, the
  editor is left inactive, and a following PING reports \<open>active = false\<close>.
\<close>

theorem listener_start_stop_unconditional:
  fixes s :: "'e editorState"
  shows
  "fst (listener failing (Some ACTION_START) s) = Some (StartResponse True)
   \<and> fst (listener failing (Some ACTION_STOP) s) = Some (StopResponse False)
   \<and> (\<not> active s \<and> failing = Some k \<longrightarrow>
        (let (resp, s') = listener failing (Some ACTION_START) s
         in resp = Some (StartResponse True)
            \<and> \<not> active s'
            \<and> fst (listener failing' (Some ACTION_PING) s') = Some (PingResponse False 2)))"
proof -
  have a: "fst (listener failing (Some ACTION_START) s) = Some (StartResponse True)"
    by (simp add: listener_def isV2Request_def ACTION_START_def ACTION_PING_def
        ACTION_TOGGLE_def ACTION_STOP_def)
  have b: "fst (listener failing (Some ACTION_STOP) s) = Some (StopResponse False)"
    by (simp add: listener_def isV2Request_def ACTION_START_def ACTION_PING_def
        ACTION_TOGGLE_def ACTION_STOP_def)
  have s: "snd (listener failing (Some ACTION_START) s) = start failing s"
    by (simp add: listener_def isV2Request_def ACTION_START_def ACTION_PING_def
        ACTION_TOGGLE_def ACTION_STOP_def)
  have p: "\<And>t :: 'e editorState. fst (listener failing' (Some ACTION_PING) t)
             = Some (PingResponse (active t) 2)"
    by (simp add: listener_def isV2Request_def getState_def)
  have c: "\<not> active s \<and> failing = Some k \<longrightarrow>
        (let (resp, s') = listener failing (Some ACTION_START) s
         in resp = Some (StartResponse True)
            \<and> \<not> active s'
            \<and> fst (listener failing' (Some ACTION_PING) s') = Some (PingResponse False 2))"
  proof
    assume h: "\<not> active s \<and> failing = Some k"
    then have "\<not> active (start failing s)"
      using start_failing_inactive by blast
    with a s p show "(let (resp, s') = listener failing (Some ACTION_START) s
         in resp = Some (StartResponse True)
            \<and> \<not> active s'
            \<and> fst (listener failing' (Some ACTION_PING) s') = Some (PingResponse False 2))"
      by (simp add: case_prod_unfold)
  qed
  from a b c show ?thesis by blast
qed

theorem listener_start_stop_unconditional_witness:
  "\<not> active (createWebEditorV2 :: nat editorState)
   \<and> fst (listener (Some CreateCanvasOverlay) (Some ACTION_START) (createWebEditorV2 :: nat editorState))
       = Some (StartResponse True)
   \<and> \<not> active (snd (listener (Some CreateCanvasOverlay) (Some ACTION_START)
                     (createWebEditorV2 :: nat editorState)))
   \<and> fst (listener None (Some ACTION_PING)
            (snd (listener (Some CreateCanvasOverlay) (Some ACTION_START)
                    (createWebEditorV2 :: nat editorState))))
       = Some (PingResponse False 2)"
  using listener_start_stop_unconditional
    [of "Some CreateCanvasOverlay" "createWebEditorV2 :: nat editorState" CreateCanvasOverlay None]
  by (simp add: createWebEditorV2_def case_prod_unfold Let_def)

section \<open>Numbers\<close>

text \<open>
  A JavaScript number is an IEEE 754 double. A finite double is modelled by the rational
  number it denotes (the sign of zero is not kept); the other values are the two
  infinities and NaN. An arithmetic operation yields the double nearest to its exact
  result, the one with the even significand when two are equally near.
\<close>

datatype number = Finite rat | PosInfinity | NegInfinity | NaN

text \<open>\<open>2\<^sup>e\<close> for an integer \<open>e\<close>.\<close>

definition pow2 :: "int \<Rightarrow> rat" where
  "pow2 e = (if 0 \<le> e then 2 ^ nat e else 1 / 2 ^ nat (- e))"

text \<open>\<open>floorLog2 x\<close> is the binary exponent of a positive \<open>x\<close>: the \<open>e\<close> with
  \<open>2\<^sup>e \<le> x < 2\<^sup>e\<^sup>+\<^sup>1\<close>, found by halving a number from 1 on and doubling one below 1.\<close>

function halvings :: "rat \<Rightarrow> nat" where
  "halvings x = (if x < 2 then 0 else Suc (halvings (x / 2)))"
  by pat_completeness auto
termination
proof (relation "measure (\<lambda>x. nat \<lfloor>x\<rfloor>)")
  show "wf (measure (\<lambda>x::rat. nat \<lfloor>x\<rfloor>))" by simp
next
  fix x :: rat
  assume "\<not> x < 2"
  then have "x / 2 < of_int \<lfloor>x\<rfloor>" and "0 < \<lfloor>x\<rfloor>" by linarith+
  then have "\<lfloor>x / 2\<rfloor> < \<lfloor>x\<rfloor>" by (simp add: floor_less_iff)
  with \<open>0 < \<lfloor>x\<rfloor>\<close> show "(x / 2, x) \<in> measure (\<lambda>x. nat \<lfloor>x\<rfloor>)" by simp
qed

function doublings :: "rat \<Rightarrow> nat" where
  "doublings x = (if x \<le> 0 \<or> 1 \<le> x then 0 else Suc (doublings (2 * x)))"
  by pat_completeness auto
termination
proof (relation "measure (\<lambda>x. nat \<lfloor>1 / x\<rfloor>)")
  show "wf (measure (\<lambda>x::rat. nat \<lfloor>1 / x\<rfloor>))" by simp
next
  fix x :: rat
  assume "\<not> (x \<le> 0 \<or> 1 \<le> x)"
  then have x: "0 < x" "x < 1" by simp_all
  define y where "y = 1 / x"
  have "1 < y" using x by (simp add: y_def)
  then have p: "0 < \<lfloor>y\<rfloor>" by linarith
  have "y / 2 < of_int \<lfloor>y\<rfloor>" using p by linarith
  then have "\<lfloor>y / 2\<rfloor> < \<lfloor>y\<rfloor>" by (simp add: floor_less_iff)
  with p have "nat \<lfloor>y / 2\<rfloor> < nat \<lfloor>y\<rfloor>" by linarith
  moreover have "y / 2 = 1 / (2 * x)" by (simp add: y_def)
  ultimately have "nat \<lfloor>1 / (2 * x)\<rfloor> < nat \<lfloor>1 / x\<rfloor>" by (simp only: y_def)
  then show "(2 * x, x) \<in> measure (\<lambda>x. nat \<lfloor>1 / x\<rfloor>)" by (simp only: in_measure)
qed

declare halvings.simps [simp del] doublings.simps [simp del]

definition floorLog2 :: "rat \<Rightarrow> int" where
  "floorLog2 x = (if 1 \<le> x then int (halvings x) else - int (doublings x))"

text \<open>The nearest integer, the even one of two equally near.\<close>

definition roundHalfEven :: "rat \<Rightarrow> int" where
  "roundHalfEven q =
     (let f = \<lfloor>q\<rfloor>; r = q - of_int f
      in if r < 1 / 2 then f else if 1 / 2 < r then f + 1 else if even f then f else f + 1)"

text \<open>
  The double nearest to a positive rational: a multiple of the unit in the last place,
  which is \<open>2\<^sup>e\<^sup>-\<^sup>5\<^sup>2\<close> for the binary exponent \<open>e\<close>, and \<open>2\<^sup>-\<^sup>1\<^sup>0\<^sup>7\<^sup>4\<close> below the normal range.
  \<open>roundToDouble\<close> is the result of an operation whose exact value is \<open>x\<close>: the nearest
  double, or an infinity when that is \<open>2\<^sup>1\<^sup>0\<^sup>2\<^sup>4\<close> or more.
\<close>

definition roundMagnitude :: "rat \<Rightarrow> rat" where
  "roundMagnitude x =
     (let u = pow2 (max (floorLog2 x) (- 1022) - 52) in of_int (roundHalfEven (x / u)) * u)"

definition roundToDouble :: "rat \<Rightarrow> number" where
  "roundToDouble x =
     (if x = 0 then Finite 0
      else (let m = roundMagnitude \<bar>x\<bar>
            in if pow2 1024 \<le> m then (if 0 < x then PosInfinity else NegInfinity)
               else Finite (if 0 < x then m else - m)))"

text \<open>The operators \<^verbatim>\<open>a - b\<close> and \<^verbatim>\<open>a < b\<close>, \<^verbatim>\<open>Math.abs\<close> and \<^verbatim>\<open>Math.max\<close> of two numbers.\<close>

definition numberMinus :: "number \<Rightarrow> number \<Rightarrow> number" where
  "numberMinus a b =
     (case (a, b) of
        (NaN, _) \<Rightarrow> NaN
      | (_, NaN) \<Rightarrow> NaN
      | (Finite x, Finite y) \<Rightarrow> roundToDouble (x - y)
      | (Finite x, PosInfinity) \<Rightarrow> NegInfinity
      | (Finite x, NegInfinity) \<Rightarrow> PosInfinity
      | (PosInfinity, PosInfinity) \<Rightarrow> NaN
      | (PosInfinity, _) \<Rightarrow> PosInfinity
      | (NegInfinity, NegInfinity) \<Rightarrow> NaN
      | (NegInfinity, _) \<Rightarrow> NegInfinity)"

fun mathAbs :: "number \<Rightarrow> number" where
  "mathAbs (Finite x) = Finite \<bar>x\<bar>"
| "mathAbs PosInfinity = PosInfinity"
| "mathAbs NegInfinity = PosInfinity"
| "mathAbs NaN = NaN"

fun numberLess :: "number \<Rightarrow> number \<Rightarrow> bool" where
  "numberLess NaN b = False"
| "numberLess a NaN = False"
| "numberLess (Finite x) (Finite y) = (x < y)"
| "numberLess (Finite x) PosInfinity = True"
| "numberLess (Finite x) NegInfinity = False"
| "numberLess PosInfinity b = False"
| "numberLess NegInfinity NegInfinity = False"
| "numberLess NegInfinity b = True"

fun mathMax :: "number \<Rightarrow> number \<Rightarrow> number" where
  "mathMax NaN b = NaN"
| "mathMax a NaN = NaN"
| "mathMax PosInfinity b = PosInfinity"
| "mathMax a PosInfinity = PosInfinity"
| "mathMax NegInfinity b = b"
| "mathMax a NegInfinity = a"
| "mathMax (Finite x) (Finite y) = Finite (max x y)"

subsection \<open>Powers of two\<close>

lemma pow2_pos: "0 < pow2 e"
  by (simp add: pow2_def)

lemma pow2_add: "pow2 (a + b) = pow2 a * pow2 b"
proof -
  have "pow2 e = 2 powi e" for e
    by (simp add: pow2_def power_int_def inverse_eq_divide power_one_over)
  then show ?thesis by (simp add: power_int_add)
qed

lemma pow2_0 [simp]: "pow2 0 = 1" by (simp add: pow2_def)
lemma pow2_1 [simp]: "pow2 1 = 2" by (simp add: pow2_def)

lemma pow2_Suc: "pow2 (e + 1) = 2 * pow2 e"
  using pow2_add [of e 1] by simp

lemma pow2_mono: "a \<le> b \<Longrightarrow> pow2 a \<le> pow2 b"
proof -
  assume "a \<le> b"
  then obtain n where b: "b = a + int n" by (metis zle_iff_zadd)
  have "1 \<le> pow2 (int n)" by (simp add: pow2_def)
  then have "pow2 a * 1 \<le> pow2 a * pow2 (int n)"
    using pow2_pos [of a] by (intro mult_left_mono) simp_all
  then show ?thesis by (simp add: b pow2_add)
qed

lemma pow2_strict_mono: "a < b \<Longrightarrow> pow2 a < pow2 b"
proof -
  assume "a < b"
  then have "a + 1 \<le> b" by simp
  from pow2_mono [OF this] have "2 * pow2 a \<le> pow2 b" by (simp add: pow2_Suc)
  moreover have "0 < pow2 a" by (rule pow2_pos)
  ultimately show ?thesis by linarith
qed

lemma pow2_nat: "0 \<le> e \<Longrightarrow> pow2 e = of_int (2 ^ nat e)"
  by (simp add: pow2_def)

subsection \<open>The binary exponent\<close>

lemma halvings_bounds: "1 \<le> x \<Longrightarrow> pow2 (int (halvings x)) \<le> x \<and> x < pow2 (int (halvings x) + 1)"
proof (induction x rule: halvings.induct)
  case (1 x)
  show ?case
  proof (cases "x < 2")
    case True
    with 1 show ?thesis by (simp add: halvings.simps [of x])
  next
    case False
    then have "1 \<le> x / 2" by simp
    from "1.IH" [OF False this] have "pow2 (int (halvings (x / 2))) \<le> x / 2"
      "x / 2 < pow2 (int (halvings (x / 2)) + 1)" by simp_all
    moreover have "halvings x = Suc (halvings (x / 2))"
      using False by (simp add: halvings.simps [of x])
    moreover have "pow2 (int (Suc n)) = 2 * pow2 (int n)" for n
      using pow2_Suc [of "int n"] by (simp add: add.commute)
    moreover have "pow2 (int (Suc n) + 1) = 2 * pow2 (int n + 1)" for n
      using pow2_Suc [of "int n + 1"] by (simp add: add.commute add.left_commute)
    ultimately show ?thesis by simp
  qed
qed

lemma doublings_bounds:
  "0 < x \<Longrightarrow> x < 1 \<Longrightarrow> pow2 (- int (doublings x)) \<le> x \<and> x < pow2 (- int (doublings x) + 1)"
proof (induction x rule: doublings.induct)
  case (1 x)
  have c: "\<not> (x \<le> 0 \<or> 1 \<le> x)" using 1 by simp
  then have d: "doublings x = Suc (doublings (2 * x))" by (simp add: doublings.simps [of x])
  show ?case
  proof (cases "1 \<le> 2 * x")
    case True
    then have "doublings (2 * x) = 0" by (simp add: doublings.simps [of "2 * x"])
    with d have "doublings x = 1" by simp
    with True 1 show ?thesis by (simp add: pow2_def)
  next
    case False
    then have "2 * x < 1" "0 < 2 * x" using 1 by simp_all
    from "1.IH" [OF c this(2) this(1)]
    have ih: "pow2 (- int (doublings (2 * x))) \<le> 2 * x"
      "2 * x < pow2 (- int (doublings (2 * x)) + 1)" by simp_all
    define n where "n = int (doublings (2 * x))"
    have "pow2 (- n) = 2 * pow2 (- n - 1)" using pow2_Suc [of "- n - 1"] by simp
    moreover have "pow2 (- n + 1) = 2 * pow2 (- n)" by (rule pow2_Suc)
    ultimately have "pow2 (- n - 1) \<le> x \<and> x < pow2 (- n)"
      using ih unfolding n_def [symmetric] by linarith
    moreover have "- int (doublings x) = - n - 1" "- int (doublings x) + 1 = - n"
      by (simp_all add: d n_def)
    ultimately show ?thesis by (simp only:)
  qed
qed

lemma floorLog2_bounds:
  "0 < x \<Longrightarrow> pow2 (floorLog2 x) \<le> x \<and> x < pow2 (floorLog2 x + 1)"
  using halvings_bounds [of x] doublings_bounds [of x]
  by (cases "1 \<le> x") (simp_all add: floorLog2_def)

lemma floorLog2_unique:
  assumes "pow2 e \<le> x" "x < pow2 (e + 1)"
  shows "floorLog2 x = e"
proof -
  have x: "0 < x" using assms(1) pow2_pos [of e] by linarith
  note b = floorLog2_bounds [OF x]
  have "\<not> floorLog2 x < e"
  proof
    assume "floorLog2 x < e"
    then have "floorLog2 x + 1 \<le> e" by simp
    from pow2_mono [OF this] b assms show False by linarith
  qed
  moreover have "\<not> e < floorLog2 x"
  proof
    assume "e < floorLog2 x"
    then have "e + 1 \<le> floorLog2 x" by simp
    from pow2_mono [OF this] b assms show False by linarith
  qed
  ultimately show ?thesis by simp
qed


subsection \<open>Rounding\<close>

lemma roundHalfEven_ge: "of_int n \<le> q \<Longrightarrow> n \<le> roundHalfEven q"
proof -
  assume "of_int n \<le> q"
  then have "n \<le> \<lfloor>q\<rfloor>" by (simp add: le_floor_iff)
  then show ?thesis by (simp add: roundHalfEven_def Let_def)
qed

lemma roundHalfEven_le: "q \<le> of_int n \<Longrightarrow> roundHalfEven q \<le> n"
proof -
  assume a: "q \<le> of_int n"
  show ?thesis
  proof (cases "q = of_int n")
    case True
    then show ?thesis by (simp add: roundHalfEven_def Let_def)
  next
    case False
    with a have "q < of_int n" by simp
    then have "\<lfloor>q\<rfloor> < n" by (simp add: floor_less_iff)
    then show ?thesis by (simp add: roundHalfEven_def Let_def)
  qed
qed

lemma roundHalfEven_of_int [simp]: "roundHalfEven (of_int n) = n"
  by (simp add: roundHalfEven_def Let_def)

lemma roundHalfEven_threshold:
  assumes "even n"
  shows "(n \<le> roundHalfEven q) = (of_int n - 1 / 2 \<le> q)"
proof (cases "of_int n - 1 / 2 \<le> q")
  case True
  show ?thesis
  proof (cases "of_int n \<le> q")
    case True
    then show ?thesis using roundHalfEven_ge [of n q] by simp
  next
    case False
    with True have "of_int (n - 1) \<le> q" "q < of_int (n - 1) + 1" by simp_all
    then have f: "\<lfloor>q\<rfloor> = n - 1" by (simp add: floor_unique)
    have o: "odd (n - 1)" using assms by simp
    from True have "1 / 2 \<le> q - of_int (n - 1)" by simp
    with True f o show ?thesis by (simp add: roundHalfEven_def Let_def)
  qed
next
  case False
  then have q: "q < of_int n - 1 / 2" by simp
  then have "q < of_int n" by simp
  then have l: "\<lfloor>q\<rfloor> \<le> n - 1" by (simp add: floor_less_iff)
  show ?thesis
  proof (cases "\<lfloor>q\<rfloor> = n - 1")
    case True
    with q have "q - of_int \<lfloor>q\<rfloor> < 1 / 2" by simp
    with True False show ?thesis by (simp add: roundHalfEven_def Let_def)
  next
    case False
    with l have "\<lfloor>q\<rfloor> + 1 < n" by simp
    with \<open>\<not> of_int n - 1 / 2 \<le> q\<close> show ?thesis by (simp add: roundHalfEven_def Let_def)
  qed
qed

lemma pow2_diff: "pow2 (a - b) = pow2 a / pow2 b"
proof -
  have "pow2 a = pow2 (a - b) * pow2 b" using pow2_add [of "a - b" b] by simp
  then show ?thesis using pow2_pos [of b] by simp
qed

lemma pow2_52: "pow2 52 = of_int (2 ^ 52)" by (simp add: pow2_def)
lemma pow2_53: "pow2 53 = of_int (2 ^ 53)" by (simp add: pow2_def)

lemma roundMagnitude_nonneg: "0 < x \<Longrightarrow> 0 \<le> roundMagnitude x"
proof -
  assume x: "0 < x"
  define u where "u = pow2 (max (floorLog2 x) (- 1022) - 52)"
  have u: "0 < u" unfolding u_def by (rule pow2_pos)
  then have "of_int 0 \<le> x / u" using x by simp
  then have "0 \<le> roundHalfEven (x / u)" by (rule roundHalfEven_ge)
  then show ?thesis using u by (simp add: roundMagnitude_def u_def [symmetric] Let_def)
qed

text \<open>The doubles next to a power of two: a positive number rounds to at least \<open>2\<^sup>t\<close>
  exactly when it is at least half an ulp below \<open>2\<^sup>t\<close>.\<close>

lemma roundMagnitude_threshold:
  assumes x: "0 < x" and t: "- 1020 \<le> t"
  shows "(pow2 t \<le> roundMagnitude x) = (pow2 t - pow2 (t - 54) \<le> x)"
proof -
  define e where "e = floorLog2 x"
  define u where "u = pow2 (max e (- 1022) - 52)"
  have u: "0 < u" unfolding u_def by (rule pow2_pos)
  have rm: "roundMagnitude x = of_int (roundHalfEven (x / u)) * u"
    by (simp add: roundMagnitude_def u_def e_def Let_def)
  have b: "pow2 e \<le> x" "x < pow2 (e + 1)"
    using floorLog2_bounds [OF x] by (simp_all add: e_def)
  have h: "pow2 t = 2 * pow2 (t - 1)" using pow2_Suc [of "t - 1"] by simp
  have s: "pow2 (t - 54) < pow2 (t - 1)" by (rule pow2_strict_mono) simp
  consider "pow2 t \<le> x" | "pow2 (t - 1) \<le> x" "x < pow2 t" | "x < pow2 (t - 1)" by linarith
  then show ?thesis
  proof cases
    case 1
    have "t \<le> e"
    proof (rule ccontr)
      assume "\<not> t \<le> e"
      then have "e + 1 \<le> t" by simp
      from pow2_mono [OF this] b 1 show False by linarith
    qed
    then have m: "max e (- 1022) = e" using t by simp
    have "x / u \<ge> pow2 e / u" using b(1) u by (simp add: divide_right_mono)
    moreover have "pow2 e / u = of_int (2 ^ 52)"
      using pow2_diff [of e "e - 52"] by (simp add: u_def m pow2_52)
    ultimately have "2 ^ 52 \<le> roundHalfEven (x / u)"
      by (intro roundHalfEven_ge) simp
    then have "of_int (2 ^ 52) \<le> (of_int (roundHalfEven (x / u)) :: rat)"
      by (simp only: of_int_le_iff)
    then have "of_int (2 ^ 52) * u \<le> of_int (roundHalfEven (x / u)) * u"
      using u by (intro mult_right_mono) simp_all
    moreover have "of_int (2 ^ 52) * u = pow2 e"
      using pow2_add [of 52 "e - 52"] by (simp add: u_def m pow2_52)
    ultimately have "pow2 e \<le> roundMagnitude x" by (simp add: rm)
    with pow2_mono [OF \<open>t \<le> e\<close>] have "pow2 t \<le> roundMagnitude x" by linarith
    moreover have "pow2 t - pow2 (t - 54) \<le> x" using 1 pow2_pos [of "t - 54"] by linarith
    ultimately show ?thesis by simp
  next
    case 2
    have "floorLog2 x = t - 1" using 2 by (intro floorLog2_unique) simp_all
    then have m: "max e (- 1022) = t - 1" using t by (simp add: e_def)
    have ut: "u = pow2 (t - 53)" by (simp add: u_def m)
    have pu: "pow2 t = of_int (2 ^ 53) * u"
      using pow2_add [of 53 "t - 53"] by (simp add: ut pow2_53)
    have hu: "pow2 (t - 54) = u / 2"
      using pow2_Suc [of "t - 54"] by (simp add: ut)
    have "(pow2 t \<le> roundMagnitude x) = (of_int (2 ^ 53) * u \<le> of_int (roundHalfEven (x / u)) * u)"
      by (simp only: rm pu)
    also have "\<dots> = ((of_int (2 ^ 53) :: rat) \<le> of_int (roundHalfEven (x / u)))"
      using u by (simp only: mult_le_cancel_right_pos)
    also have "\<dots> = (2 ^ 53 \<le> roundHalfEven (x / u))" by (simp only: of_int_le_iff)
    also have "\<dots> = (of_int (2 ^ 53) - 1 / 2 \<le> x / u)"
      by (rule roundHalfEven_threshold) simp
    also have "\<dots> = ((of_int (2 ^ 53) - 1 / 2) * u \<le> x)"
      using u by (simp only: pos_le_divide_eq)
    also have "(of_int (2 ^ 53) - 1 / 2) * u = pow2 t - pow2 (t - 54)"
      by (simp only: pu hu) (simp add: algebra_simps)
    finally show ?thesis .
  next
    case 3
    have "e \<le> t - 2"
    proof (rule ccontr)
      assume "\<not> e \<le> t - 2"
      then have "t - 1 \<le> e" by simp
      from pow2_mono [OF this] b 3 show False by linarith
    qed
    define e' where "e' = max e (- 1022)"
    have e': "e' \<le> t - 2" "e \<le> e'" using \<open>e \<le> t - 2\<close> t by (simp_all add: e'_def)
    have ue: "u = pow2 (e' - 52)" by (simp add: u_def e'_def)
    have "x < pow2 (e' + 1)" using b(2) pow2_mono [of "e + 1" "e' + 1"] e'(2) by simp
    then have "x / u < pow2 (e' + 1) / u" using u by (simp add: divide_strict_right_mono)
    moreover have "pow2 (e' + 1) / u = of_int (2 ^ 53)"
      using pow2_diff [of "e' + 1" "e' - 52"] by (simp add: ue pow2_53)
    ultimately have "roundHalfEven (x / u) \<le> 2 ^ 53"
      by (intro roundHalfEven_le) simp
    then have "(of_int (roundHalfEven (x / u)) :: rat) \<le> of_int (2 ^ 53)"
      by (simp only: of_int_le_iff)
    then have "of_int (roundHalfEven (x / u)) * u \<le> of_int (2 ^ 53) * u"
      using u by (intro mult_right_mono) simp_all
    moreover have "of_int (2 ^ 53) * u = pow2 (e' + 1)"
      using pow2_add [of 53 "e' - 52"] by (simp add: ue pow2_53 add.commute)
    ultimately have "roundMagnitude x \<le> pow2 (e' + 1)" by (simp add: rm)
    moreover have "pow2 (e' + 1) \<le> pow2 (t - 1)" using e'(1) by (intro pow2_mono) simp
    ultimately have "\<not> pow2 t \<le> roundMagnitude x" using h pow2_pos [of "t - 1"] by linarith
    moreover have "\<not> pow2 t - pow2 (t - 54) \<le> x" using 3 h s by linarith
    ultimately show ?thesis by simp
  qed
qed

lemma mathAbs_roundToDouble_less:
  "numberLess (mathAbs (roundToDouble d)) (Finite (pow2 t)) = (\<bar>d\<bar> < pow2 t - pow2 (t - 54))"
  if "- 1020 \<le> t" "t \<le> 1024"
proof (cases "d = 0")
  case True
  have "pow2 (t - 54) < pow2 t" by (rule pow2_strict_mono) simp
  then have "0 < pow2 t - pow2 (t - 54)" "0 < pow2 t" using pow2_pos [of "t - 54"] by linarith+
  with True show ?thesis by (simp add: roundToDouble_def)
next
  case False
  then have p: "0 < \<bar>d\<bar>" by simp
  define m where "m = roundMagnitude \<bar>d\<bar>"
  have m0: "0 \<le> m" unfolding m_def using p by (rule roundMagnitude_nonneg)
  have th: "(pow2 t \<le> m) = (pow2 t - pow2 (t - 54) \<le> \<bar>d\<bar>)"
    unfolding m_def using p that(1) by (rule roundMagnitude_threshold)
  have r: "roundToDouble d =
             (if pow2 1024 \<le> m then (if 0 < d then PosInfinity else NegInfinity)
              else Finite (if 0 < d then m else - m))"
    using False by (simp add: roundToDouble_def m_def Let_def)
  show ?thesis
  proof (cases "pow2 1024 \<le> m")
    case True
    with pow2_mono [OF that(2)] have "pow2 t \<le> m" by linarith
    with th have "\<not> \<bar>d\<bar> < pow2 t - pow2 (t - 54)" by simp
    with True show ?thesis by (simp add: r)
  next
    case nf: False
    have "\<bar>if 0 < d then m else - m\<bar> = m" using m0 by simp
    with nf th show ?thesis by (simp add: r not_le [symmetric] del: not_le)
  qed
qed

text \<open>Integers up to \<open>2\<^sup>5\<^sup>3\<close> are doubles, and rounding does not cross a double.\<close>

lemma ulp_divides_int:
  assumes x: "0 < x" and le: "x \<le> of_int m" and m: "m \<le> 2 ^ 53"
  obtains k where "of_int m = of_int k * pow2 (max (floorLog2 x) (- 1022) - 52)"
proof -
  define e where "e = max (floorLog2 x) (- 1022)"
  note b = floorLog2_bounds [OF x]
  show ?thesis
  proof (cases "e \<le> 52")
    case True
    then have "pow2 (52 - e) = of_int (2 ^ nat (52 - e))" by (intro pow2_nat) simp
    moreover have "pow2 (52 - e) * pow2 (e - 52) = 1"
      using pow2_add [of "52 - e" "e - 52"] by simp
    ultimately have "of_int m = of_int (m * 2 ^ nat (52 - e)) * pow2 (e - 52)"
      by (simp add: mult.assoc)
    then show ?thesis unfolding e_def by (rule that)
  next
    case False
    then have f: "53 \<le> floorLog2 x" by (simp add: e_def)
    then have e: "e = floorLog2 x" by (simp add: e_def)
    have "pow2 53 \<le> pow2 (floorLog2 x)" using f by (rule pow2_mono)
    moreover have "(of_int m :: rat) \<le> of_int (2 ^ 53)" using m by (simp only: of_int_le_iff)
    ultimately have xm: "x = pow2 53" "of_int m = pow2 53" using b le by (simp_all add: pow2_53)
    have "\<not> 54 \<le> floorLog2 x"
    proof
      assume "54 \<le> floorLog2 x"
      then have "pow2 54 \<le> pow2 (floorLog2 x)" by (rule pow2_mono)
      moreover have "pow2 53 < pow2 54" by (rule pow2_strict_mono) simp
      ultimately show False using b xm by linarith
    qed
    with f have "e = 53" by (simp add: e)
    then have "pow2 (e - 52) = 2" by simp
    then have "of_int m = of_int (2 ^ 52) * pow2 (e - 52)" by (simp add: xm pow2_53)
    then show ?thesis unfolding e_def by (rule that)
  qed
qed


lemma roundMagnitude_of_int:
  assumes "0 < m" and m: "m \<le> 2 ^ 53"
  shows "roundMagnitude (of_int m) = of_int m"
proof -
  define u where "u = pow2 (max (floorLog2 (of_int m)) (- 1022) - 52)"
  have u: "0 < u" unfolding u_def by (rule pow2_pos)
  have x: "(0 :: rat) < of_int m" using assms(1) by simp
  from ulp_divides_int [OF x order_refl m] obtain k where k: "of_int m = of_int k * u"
    unfolding u_def by blast
  have "of_int k * u / u = (of_int k :: rat)" using u by simp
  then have q: "of_int m / u = of_int k" by (simp only: k)
  have "roundMagnitude (of_int m) = of_int (roundHalfEven (of_int m / u)) * u"
    by (simp add: roundMagnitude_def u_def Let_def)
  also have "\<dots> = of_int k * u" by (simp only: q roundHalfEven_of_int)
  also have "\<dots> = of_int m" by (simp only: k)
  finally show ?thesis .
qed

lemma pow2_53_less_1024: "of_int (2 ^ 53) < pow2 1024"
proof -
  have "pow2 53 < pow2 1024" by (rule pow2_strict_mono) simp
  then show ?thesis by (simp only: pow2_53)
qed

lemma roundToDouble_of_int:
  assumes "0 \<le> m" and m: "m \<le> 2 ^ 53"
  shows "roundToDouble (of_int m) = Finite (of_int m)"
proof (cases "m = 0")
  case True
  then show ?thesis by (simp add: roundToDouble_def)
next
  case False
  with assms(1) have p: "0 < m" by simp
  have "(of_int m :: rat) \<le> of_int (2 ^ 53)" using m by (simp only: of_int_le_iff)
  then have "\<not> pow2 1024 \<le> (of_int m :: rat)" using pow2_53_less_1024 by linarith
  then show ?thesis
    using p by (simp add: roundToDouble_def roundMagnitude_of_int [OF p m] Let_def)
qed



section \<open>Position tracker\<close>

text \<open>
  Source: the position tracker (\<^verbatim>\<open>createPositionTracker\<close>). The components of a
  \<^verbatim>\<open>ViewportRect\<close> are finite numbers, \<^verbatim>\<open>toViewportRect\<close> having returned \<^verbatim>\<open>null\<close> for
  the others.
\<close>

record domRect =
  rectLeft :: number
  rectTop :: number
  rectWidth :: number
  rectHeight :: number

record viewportRect =
  left :: rat
  topEdge :: rat
  width :: rat
  height :: rat

record trackedRects =
  hover :: "viewportRect option"
  selection :: "viewportRect option"

definition RECT_EPSILON :: rat where
  "RECT_EPSILON = 1 / 2"

fun toViewportRect :: "domRect \<Rightarrow> viewportRect option" where
  "toViewportRect r =
     (case (rectLeft r, rectTop r, rectWidth r, rectHeight r) of
        (Finite l, Finite t, Finite w, Finite h) \<Rightarrow>
          Some \<lparr> left = l, topEdge = t, width = max 0 w, height = max 0 h \<rparr>
      | _ \<Rightarrow> None)"

definition approximatelyEqual :: "rat \<Rightarrow> rat \<Rightarrow> bool" where
  "approximatelyEqual a b =
     numberLess (mathAbs (numberMinus (Finite a) (Finite b))) (Finite RECT_EPSILON)"

text \<open>\<^verbatim>\<open>a === b\<close> compares references. \<^verbatim>\<open>computeRects\<close> builds its rectangles anew at
  every call, so the two sides are the same reference only when both are \<^verbatim>\<open>null\<close>.\<close>

fun rectApproximatelyEqual :: "viewportRect option \<Rightarrow> viewportRect option \<Rightarrow> bool" where
  "rectApproximatelyEqual None None = True"
| "rectApproximatelyEqual None (Some b) = False"
| "rectApproximatelyEqual (Some a) None = False"
| "rectApproximatelyEqual (Some a) (Some b) =
     (approximatelyEqual (left a) (left b) \<and> approximatelyEqual (topEdge a) (topEdge b)
      \<and> approximatelyEqual (width a) (width b) \<and> approximatelyEqual (height a) (height b))"

definition trackedRectsEqual :: "trackedRects \<Rightarrow> trackedRects \<Rightarrow> bool" where
  "trackedRectsEqual a b =
     (rectApproximatelyEqual (hover a) (hover b)
      \<and> rectApproximatelyEqual (selection a) (selection b))"

text \<open>What the document answers during one synchronisation: whether an element is
  connected, and its bounding rectangle (\<open>None\<close>: \<^verbatim>\<open>getBoundingClientRect\<close> throws).\<close>

record 'e layout =
  isConnected :: "'e \<Rightarrow> bool"
  getBoundingClientRect :: "'e \<Rightarrow> domRect option"

text \<open>The closure state of the tracker. \<open>rafId\<close> is \<open>Some ()\<close> while an animation frame
  is requested; \<open>emitted\<close> records the calls of \<^verbatim>\<open>onPositionUpdate\<close>, oldest first.\<close>

record 'e tracker =
  hoverElement :: "'e option"
  selectionElement :: "'e option"
  lastRects :: trackedRects
  rafId :: "unit option"
  isDisposed :: bool
  emitted :: "trackedRects list"

definition createPositionTracker :: "'e tracker" where
  "createPositionTracker =
     \<lparr> hoverElement = None, selectionElement = None,
       lastRects = \<lparr> hover = None, selection = None \<rparr>,
       rafId = None, isDisposed = False, emitted = [] \<rparr>"

definition cancelRaf :: "'e tracker \<Rightarrow> 'e tracker" where
  "cancelRaf s = (if rafId s \<noteq> None then s\<lparr>rafId := None\<rparr> else s)"

definition scheduleUpdate :: "'e tracker \<Rightarrow> 'e tracker" where
  "scheduleUpdate s =
     (if isDisposed s then s
      else if rafId s \<noteq> None then s
      else s\<lparr>rafId := Some ()\<rparr>)"

definition resolveConnected :: "'e layout \<Rightarrow> 'e option \<Rightarrow> 'e option" where
  "resolveConnected env element =
     (case element of None \<Rightarrow> None
      | Some e \<Rightarrow> if isConnected env e then Some e else None)"

definition readElementRect :: "'e layout \<Rightarrow> 'e option \<Rightarrow> viewportRect option" where
  "readElementRect env element =
     (case element of None \<Rightarrow> None
      | Some e \<Rightarrow> (case getBoundingClientRect env e of
                    None \<Rightarrow> None
                  | Some r \<Rightarrow> toViewportRect r))"

definition computeRects :: "'e layout \<Rightarrow> 'e tracker \<Rightarrow> trackedRects \<times> 'e tracker" where
  "computeRects env s0 =
     (let resolvedHover = resolveConnected env (hoverElement s0);
          resolvedSelection = resolveConnected env (selectionElement s0);
          s1 = (if hoverElement s0 \<noteq> None \<and> resolvedHover = None
                then s0\<lparr>hoverElement := None\<rparr> else s0);
          s2 = (if selectionElement s1 \<noteq> None \<and> resolvedSelection = None
                then s1\<lparr>selectionElement := None\<rparr> else s1)
      in if resolvedHover \<noteq> None \<and> resolvedSelection \<noteq> None
            \<and> resolvedHover = resolvedSelection
         then (let rect = readElementRect env resolvedHover
               in (\<lparr> hover = rect, selection = rect \<rparr>, s2))
         else (\<lparr> hover = readElementRect env resolvedHover,
                 selection = readElementRect env resolvedSelection \<rparr>, s2))"

definition updateIfChanged :: "'e layout \<Rightarrow> 'e tracker \<Rightarrow> 'e tracker" where
  "updateIfChanged env s =
     (if isDisposed s then s
      else (let (nextRects, s') = computeRects env s
            in if trackedRectsEqual nextRects (lastRects s') then s'
               else s'\<lparr>lastRects := nextRects, emitted := emitted s' @ [nextRects]\<rparr>))"

text \<open>The callback given to \<^verbatim>\<open>requestAnimationFrame\<close> by \<^verbatim>\<open>scheduleUpdate\<close>; it runs
  when a frame was requested and not cancelled.\<close>

definition onAnimationFrame :: "'e layout \<Rightarrow> 'e tracker \<Rightarrow> 'e tracker" where
  "onAnimationFrame env s =
     (if rafId s = None then s else updateIfChanged env (s\<lparr>rafId := None\<rparr>))"

definition handleViewportChange :: "'e tracker \<Rightarrow> 'e tracker" where
  "handleViewportChange s =
     (if isDisposed s then s
      else if hoverElement s = None \<and> selectionElement s = None
              \<and> hover (lastRects s) = None \<and> selection (lastRects s) = None then s
      else scheduleUpdate s)"

definition setHoverElement :: "'e option \<Rightarrow> 'e tracker \<Rightarrow> 'e tracker" where
  "setHoverElement element s =
     (if isDisposed s then s
      else if hoverElement s = element then s
      else scheduleUpdate (s\<lparr>hoverElement := element\<rparr>))"

definition setSelectionElement :: "'e option \<Rightarrow> 'e tracker \<Rightarrow> 'e tracker" where
  "setSelectionElement element s =
     (if isDisposed s then s
      else if selectionElement s = element then s
      else scheduleUpdate (s\<lparr>selectionElement := element\<rparr>))"

definition forceUpdate :: "'e layout \<Rightarrow> 'e tracker \<Rightarrow> 'e tracker" where
  "forceUpdate env s =
     (if isDisposed s then s else updateIfChanged env (cancelRaf s))"

text \<open>\<^verbatim>\<open>disposer.dispose()\<close>: the registered \<^verbatim>\<open>cancelRaf\<close> runs, the listeners are removed
  (\<open>handleViewportChange\<close> is no longer called), and the disposer is marked disposed.\<close>

definition disposeTracker :: "'e tracker \<Rightarrow> 'e tracker" where
  "disposeTracker s = (if isDisposed s then s else (cancelRaf s)\<lparr>isDisposed := True\<rparr>)"

text \<open>"A component differs from the previous value": by more than the tolerance, as
  the specification words it, and by at least \<open>1/2 - 2\<^sup>-\<^sup>5\<^sup>5\<close>, half a unit in the last
  place below the tolerance, from where on the difference computed is the tolerance or
  more.\<close>

definition componentBeyond :: "viewportRect \<Rightarrow> viewportRect \<Rightarrow> bool" where
  "componentBeyond a b =
     (\<bar>left a - left b\<bar> > RECT_EPSILON \<or> \<bar>topEdge a - topEdge b\<bar> > RECT_EPSILON
      \<or> \<bar>width a - width b\<bar> > RECT_EPSILON \<or> \<bar>height a - height b\<bar> > RECT_EPSILON)"

definition roundedTolerance :: rat where
  "roundedTolerance = RECT_EPSILON - 1 / 2 ^ 55"

definition componentAtLeast :: "viewportRect \<Rightarrow> viewportRect \<Rightarrow> bool" where
  "componentAtLeast a b =
     (\<bar>left a - left b\<bar> \<ge> roundedTolerance \<or> \<bar>topEdge a - topEdge b\<bar> \<ge> roundedTolerance
      \<or> \<bar>width a - width b\<bar> \<ge> roundedTolerance \<or> \<bar>height a - height b\<bar> \<ge> roundedTolerance)"

text \<open>A slot changed in the sense of the code: it switched between \<^verbatim>\<open>null\<close> and a
  rectangle, or a component moved by at least \<open>roundedTolerance\<close>.\<close>

fun slotChanged :: "viewportRect option \<Rightarrow> viewportRect option \<Rightarrow> bool" where
  "slotChanged None None = False"
| "slotChanged None (Some b) = True"
| "slotChanged (Some a) None = True"
| "slotChanged (Some a) (Some b) = componentAtLeast a b"

text \<open>Example layouts: every element connected with the bounding rectangle
  \<open>(l, 0, 10, 10)\<close>, and every element detached.\<close>

definition layoutAt :: "rat \<Rightarrow> nat layout" where
  "layoutAt l =
     \<lparr> isConnected = (\<lambda>e. True),
       getBoundingClientRect = (\<lambda>e. Some \<lparr> rectLeft = Finite l, rectTop = Finite 0,
                                           rectWidth = Finite 10, rectHeight = Finite 10 \<rparr>) \<rparr>"

definition detachedLayout :: "nat layout" where
  "detachedLayout = \<lparr> isConnected = (\<lambda>e. False), getBoundingClientRect = (\<lambda>e. None) \<rparr>"

text \<open>A tracker whose hover slot holds element 0, synchronised once at \<open>(0, 0, 10, 10)\<close>.\<close>

definition trackedState :: "nat tracker" where
  "trackedState = forceUpdate (layoutAt 0) (setHoverElement (Some 0) createPositionTracker)"

subsection \<open>Properties of the position tracker\<close>

text \<open>The comparison of \<^verbatim>\<open>approximatelyEqual\<close> in terms of the exact difference.\<close>

lemma approximatelyEqual_iff:
  "approximatelyEqual a b = (\<bar>a - b\<bar> < roundedTolerance)"
proof -
  have "numberLess (mathAbs (roundToDouble (a - b))) (Finite (pow2 (- 1)))
          = (\<bar>a - b\<bar> < pow2 (- 1) - pow2 (- 1 - 54))"
    by (rule mathAbs_roundToDouble_less) simp_all
  moreover have "pow2 (- 1) = 1 / 2" "pow2 (- 1 - 54) = 1 / 2 ^ 55" by (simp_all add: pow2_def)
  ultimately have "numberLess (mathAbs (roundToDouble (a - b))) (Finite (1 / 2))
          = (\<bar>a - b\<bar> < 1 / 2 - 1 / 2 ^ 55)" by (simp only:)
  then show ?thesis
    by (simp add: approximatelyEqual_def numberMinus_def RECT_EPSILON_def roundedTolerance_def)
qed

lemma rectApproximatelyEqual_iff: "rectApproximatelyEqual a b = (\<not> slotChanged a b)"
  by (cases a; cases b) (auto simp: approximatelyEqual_iff componentAtLeast_def)

lemma computeRects_detached_hover:
  fixes s :: "'e tracker"
  assumes "hoverElement s = Some e" "\<not> isConnected env e"
  shows "hover (fst (computeRects env s)) = None \<and> hoverElement (snd (computeRects env s)) = None"
  using assms by (simp add: computeRects_def resolveConnected_def readElementRect_def Let_def)

lemma computeRects_detached_selection:
  fixes s :: "'e tracker"
  assumes "selectionElement s = Some e" "\<not> isConnected env e"
  shows "selection (fst (computeRects env s)) = None \<and> selectionElement (snd (computeRects env s)) = None"
  using assms by (simp add: computeRects_def resolveConnected_def readElementRect_def Let_def)

lemma computeRects_frame:
  fixes s :: "'e tracker"
  shows "lastRects (snd (computeRects env s)) = lastRects s
     \<and> emitted (snd (computeRects env s)) = emitted s
     \<and> isDisposed (snd (computeRects env s)) = isDisposed s
     \<and> rafId (snd (computeRects env s)) = rafId s"
  by (simp add: computeRects_def Let_def)

lemma updateIfChanged_unfold:
  fixes s :: "'e tracker"
  assumes "\<not> isDisposed s"
  shows "updateIfChanged env s =
     (if trackedRectsEqual (fst (computeRects env s)) (lastRects s) then snd (computeRects env s)
      else (snd (computeRects env s))\<lparr>lastRects := fst (computeRects env s),
              emitted := emitted s @ [fst (computeRects env s)]\<rparr>)"
  using assms computeRects_frame [of env s]
  by (simp add: updateIfChanged_def case_prod_unfold Let_def)

lemma updateIfChanged_detached_hover:
  fixes s :: "'e tracker"
  assumes "\<not> isDisposed s" "hoverElement s = Some e" "\<not> isConnected env e"
  shows "hoverElement (updateIfChanged env s) = None
     \<and> hover (lastRects (updateIfChanged env s)) = None
     \<and> (emitted (updateIfChanged env s) = emitted s
        \<or> (\<exists>n. emitted (updateIfChanged env s) = emitted s @ [n] \<and> hover n = None))
     \<and> (hover (lastRects s) \<noteq> None \<longrightarrow> emitted (updateIfChanged env s) \<noteq> emitted s)"
proof -
  note c = computeRects_detached_hover [OF assms(2,3)]
  show ?thesis
  proof (cases "trackedRectsEqual (fst (computeRects env s)) (lastRects s)")
    case True
    then have "rectApproximatelyEqual None (hover (lastRects s))"
      using c by (simp add: trackedRectsEqual_def)
    then have "hover (lastRects s) = None" by (cases "hover (lastRects s)") simp_all
    with True c computeRects_frame [of env s] show ?thesis
      by (simp add: updateIfChanged_unfold [OF assms(1)])
  next
    case False
    with c show ?thesis
      by (simp add: updateIfChanged_unfold [OF assms(1)])
  qed
qed

lemma updateIfChanged_detached_selection:
  fixes s :: "'e tracker"
  assumes "\<not> isDisposed s" "selectionElement s = Some e" "\<not> isConnected env e"
  shows "selectionElement (updateIfChanged env s) = None
     \<and> selection (lastRects (updateIfChanged env s)) = None
     \<and> (emitted (updateIfChanged env s) = emitted s
        \<or> (\<exists>n. emitted (updateIfChanged env s) = emitted s @ [n] \<and> selection n = None))
     \<and> (selection (lastRects s) \<noteq> None \<longrightarrow> emitted (updateIfChanged env s) \<noteq> emitted s)"
proof -
  note c = computeRects_detached_selection [OF assms(2,3)]
  show ?thesis
  proof (cases "trackedRectsEqual (fst (computeRects env s)) (lastRects s)")
    case True
    then have "rectApproximatelyEqual None (selection (lastRects s))"
      using c by (simp add: trackedRectsEqual_def)
    then have "selection (lastRects s) = None" by (cases "selection (lastRects s)") simp_all
    with True c computeRects_frame [of env s] show ?thesis
      by (simp add: updateIfChanged_unfold [OF assms(1)])
  next
    case False
    with c show ?thesis
      by (simp add: updateIfChanged_unfold [OF assms(1)])
  qed
qed

lemma updateIfChanged_emission:
  fixes s :: "'e tracker"
  assumes "\<not> isDisposed s"
  shows "emitted (updateIfChanged env s) = emitted s
     \<or> (\<exists>n. emitted (updateIfChanged env s) = emitted s @ [n]
            \<and> lastRects (updateIfChanged env s) = n
            \<and> (slotChanged (hover n) (hover (lastRects s))
               \<or> slotChanged (selection n) (selection (lastRects s))))"
  using computeRects_frame [of env s]
  by (simp add: updateIfChanged_unfold [OF assms] trackedRectsEqual_def rectApproximatelyEqual_iff)


lemma sync_as_updateIfChanged:
  fixes s :: "'e tracker"
  assumes "\<not> isDisposed s"
    and "s' = forceUpdate env s \<or> (rafId s = Some () \<and> s' = onAnimationFrame env s)"
  shows "s' = updateIfChanged env (s\<lparr>rafId := None\<rparr>)"
proof -
  have "cancelRaf s = s\<lparr>rafId := None\<rparr>"
    by (cases "rafId s") (simp_all add: cancelRaf_def)
  with assms show ?thesis
    by (auto simp: forceUpdate_def onAnimationFrame_def)
qed

text \<open>
  Claim C9, as the code has it. A synchronisation is a forced one (\<^verbatim>\<open>forceUpdate\<close>) or the
  pending animation-frame callback. If the hover (selection) element is detached, the
  synchronisation clears the stored reference, the slot's rectangle becomes \<^verbatim>\<open>null\<close>, an
  update emitted by it carries \<^verbatim>\<open>null\<close> for the slot, and one is emitted when the last
  emitted rectangle of the slot was not \<^verbatim>\<open>null\<close>. A synchronisation emits at most one
  update, and only when a slot switched between \<^verbatim>\<open>null\<close> and a rectangle or one of its four
  components differs from the last emitted value by at least \<open>1/2 - 2\<^sup>-\<^sup>5\<^sup>5\<close>, which is
  when the difference computed in doubles is at least the tolerance.
\<close>

theorem tracker_sync_detached_and_emission:
  fixes s :: "'e tracker"
  assumes "\<not> isDisposed s"
    and "s' = forceUpdate env s \<or> (rafId s = Some () \<and> s' = onAnimationFrame env s)"
  shows "(hoverElement s = Some e \<and> \<not> isConnected env e \<longrightarrow>
            hoverElement s' = None \<and> hover (lastRects s') = None
            \<and> (emitted s' = emitted s \<or> (\<exists>n. emitted s' = emitted s @ [n] \<and> hover n = None))
            \<and> (hover (lastRects s) \<noteq> None \<longrightarrow> emitted s' \<noteq> emitted s))
       \<and> (selectionElement s = Some e \<and> \<not> isConnected env e \<longrightarrow>
            selectionElement s' = None \<and> selection (lastRects s') = None
            \<and> (emitted s' = emitted s \<or> (\<exists>n. emitted s' = emitted s @ [n] \<and> selection n = None))
            \<and> (selection (lastRects s) \<noteq> None \<longrightarrow> emitted s' \<noteq> emitted s))
       \<and> (emitted s' = emitted s
           \<or> (\<exists>n. emitted s' = emitted s @ [n] \<and> lastRects s' = n
                  \<and> (slotChanged (hover n) (hover (lastRects s))
                     \<or> slotChanged (selection n) (selection (lastRects s)))))"
proof -
  let ?t = "s\<lparr>rafId := None\<rparr>"
  have eq: "s' = updateIfChanged env ?t"
    using assms by (rule sync_as_updateIfChanged)
  have nd: "\<not> isDisposed ?t" using assms(1) by simp
  have h: "hoverElement s = Some e \<and> \<not> isConnected env e \<longrightarrow>
            hoverElement s' = None \<and> hover (lastRects s') = None
            \<and> (emitted s' = emitted s \<or> (\<exists>n. emitted s' = emitted s @ [n] \<and> hover n = None))
            \<and> (hover (lastRects s) \<noteq> None \<longrightarrow> emitted s' \<noteq> emitted s)"
    using updateIfChanged_detached_hover [OF nd, of e env] eq by simp
  have sl: "selectionElement s = Some e \<and> \<not> isConnected env e \<longrightarrow>
            selectionElement s' = None \<and> selection (lastRects s') = None
            \<and> (emitted s' = emitted s \<or> (\<exists>n. emitted s' = emitted s @ [n] \<and> selection n = None))
            \<and> (selection (lastRects s) \<noteq> None \<longrightarrow> emitted s' \<noteq> emitted s)"
    using updateIfChanged_detached_selection [OF nd, of e env] eq by simp
  have em: "emitted s' = emitted s
           \<or> (\<exists>n. emitted s' = emitted s @ [n] \<and> lastRects s' = n
                  \<and> (slotChanged (hover n) (hover (lastRects s))
                     \<or> slotChanged (selection n) (selection (lastRects s))))"
    using updateIfChanged_emission [OF nd, of env] eq by simp
  from h sl em show ?thesis by blast
qed

lemma trackedState_fields:
  "trackedState =
     \<lparr> hoverElement = Some 0, selectionElement = None,
       lastRects = \<lparr> hover = Some \<lparr> left = 0, topEdge = 0, width = 10, height = 10 \<rparr>,
                     selection = None \<rparr>,
       rafId = None, isDisposed = False,
       emitted = [\<lparr> hover = Some \<lparr> left = 0, topEdge = 0, width = 10, height = 10 \<rparr>,
                    selection = None \<rparr>] \<rparr>"
  by (simp add: trackedState_def forceUpdate_def setHoverElement_def createPositionTracker_def
      scheduleUpdate_def cancelRaf_def updateIfChanged_def computeRects_def resolveConnected_def
      readElementRect_def layoutAt_def trackedRectsEqual_def Let_def)

theorem tracker_sync_detached_and_emission_witness:
  "hoverElement trackedState = Some 0 \<and> \<not> isConnected detachedLayout (0::nat)
   \<and> hoverElement (forceUpdate detachedLayout trackedState) = None
   \<and> hover (lastRects (forceUpdate detachedLayout trackedState)) = None
   \<and> emitted (forceUpdate detachedLayout trackedState) \<noteq> emitted trackedState"
  using tracker_sync_detached_and_emission
    [of trackedState "forceUpdate detachedLayout trackedState" detachedLayout 0]
  by (simp add: detachedLayout_def trackedState_fields)

text \<open>
  Claim C9 as stated fails at the boundary: a hover rectangle that moves by exactly the
  tolerance, from \<open>left = 0\<close> to \<open>left = 1/2\<close>, is emitted, although no component of a slot
  differs from the previously emitted value by more than the tolerance. So is one that
  moves from \<open>left = 2\<^sup>-\<^sup>6\<^sup>0\<close> to \<open>left = 1/2\<close>, by less than the tolerance: the difference
  computed is \<open>1/2\<close>.
\<close>

theorem tracker_emits_at_tolerance_counterexample:
  "emitted (forceUpdate (layoutAt (1 / 2)) trackedState)
     = [\<lparr> hover = Some \<lparr> left = 0, topEdge = 0, width = 10, height = 10 \<rparr>, selection = None \<rparr>,
        \<lparr> hover = Some \<lparr> left = 1 / 2, topEdge = 0, width = 10, height = 10 \<rparr>, selection = None \<rparr>]
   \<and> \<not> componentBeyond \<lparr> left = 1 / 2, topEdge = 0, width = 10, height = 10 \<rparr>
                         \<lparr> left = 0, topEdge = 0, width = 10, height = 10 \<rparr>
   \<and> emitted (forceUpdate (layoutAt (1 / 2))
                (forceUpdate (layoutAt (1 / 2 ^ 60))
                   (setHoverElement (Some 0) createPositionTracker)))
     = [\<lparr> hover = Some \<lparr> left = 1 / 2 ^ 60, topEdge = 0, width = 10, height = 10 \<rparr>,
          selection = None \<rparr>,
        \<lparr> hover = Some \<lparr> left = 1 / 2, topEdge = 0, width = 10, height = 10 \<rparr>, selection = None \<rparr>]
   \<and> \<bar>1 / 2 - 1 / 2 ^ 60\<bar> < RECT_EPSILON
   \<and> numberMinus (Finite (1 / 2)) (Finite (1 / 2 ^ 60)) = Finite (1 / 2)"
proof -
  have "emitted (forceUpdate (layoutAt (1 / 2)) trackedState)
     = [\<lparr> hover = Some \<lparr> left = 0, topEdge = 0, width = 10, height = 10 \<rparr>, selection = None \<rparr>,
        \<lparr> hover = Some \<lparr> left = 1 / 2, topEdge = 0, width = 10, height = 10 \<rparr>, selection = None \<rparr>]"
    by (simp add: trackedState_fields forceUpdate_def cancelRaf_def updateIfChanged_def
        computeRects_def resolveConnected_def readElementRect_def layoutAt_def
        trackedRectsEqual_def approximatelyEqual_iff roundedTolerance_def RECT_EPSILON_def Let_def)
  moreover have "\<not> componentBeyond \<lparr> left = 1 / 2, topEdge = 0, width = 10, height = 10 \<rparr>
                         \<lparr> left = 0, topEdge = 0, width = 10, height = 10 \<rparr>"
    by (simp add: componentBeyond_def RECT_EPSILON_def)
  moreover have "emitted (forceUpdate (layoutAt (1 / 2))
                (forceUpdate (layoutAt (1 / 2 ^ 60))
                   (setHoverElement (Some 0) createPositionTracker)))
     = [\<lparr> hover = Some \<lparr> left = 1 / 2 ^ 60, topEdge = 0, width = 10, height = 10 \<rparr>,
          selection = None \<rparr>,
        \<lparr> hover = Some \<lparr> left = 1 / 2, topEdge = 0, width = 10, height = 10 \<rparr>, selection = None \<rparr>]"
    by (simp add: forceUpdate_def setHoverElement_def createPositionTracker_def
        scheduleUpdate_def cancelRaf_def updateIfChanged_def computeRects_def
        resolveConnected_def readElementRect_def layoutAt_def trackedRectsEqual_def
        approximatelyEqual_iff roundedTolerance_def RECT_EPSILON_def Let_def)
  moreover have "\<bar>1 / 2 - 1 / 2 ^ 60\<bar> < RECT_EPSILON"
    by (simp add: RECT_EPSILON_def)
  moreover have "numberMinus (Finite (1 / 2)) (Finite (1 / 2 ^ 60)) = Finite (1 / 2)"
    by code_simp
  ultimately show ?thesis by blast
qed

section \<open>Event controller\<close>

text \<open>
  Source: \<^verbatim>\<open>core/event-controller.ts\<close> (\<^verbatim>\<open>createEventController\<close>). The type \<open>'e\<close> is the
  type of DOM nodes. An event is given by what the handlers read of it.
\<close>

datatype EventControllerMode = HoverMode | SelectingMode

record eventModifiers =
  alt :: bool
  shift :: bool
  ctrl :: bool
  meta :: bool

text \<open>\<open>composedPath\<close> is \<open>None\<close> when \<^verbatim>\<open>event.composedPath\<close> is not a function or throws.\<close>

record 'e domEvent =
  composedPath :: "'e list option"
  target :: "'e option"
  clientX :: number
  clientY :: number
  button :: int
  key :: string
  modifiers :: eventModifiers

text \<open>The options of the controller and the document's hit test. \<open>elementFromPoint\<close> is
  asked with finite coordinates only.\<close>

record 'e controllerEnv =
  isOverlayElement :: "'e \<Rightarrow> bool"
  elementFromPoint :: "rat \<Rightarrow> rat \<Rightarrow> 'e option"
  findTargetForSelect :: "(number \<Rightarrow> number \<Rightarrow> eventModifiers \<Rightarrow> 'e option) option"

text \<open>
  The closure state, and with it the animation frame callbacks of the window that the
  controller has requested and that have neither run nor been cancelled: \<open>rafQueue\<close>
  holds, oldest first, the handle of each request and the argument \<open>force\<close> of its callback
  \<^verbatim>\<open>() => commitHoverUpdate(force)\<close>; \<open>nextRafHandle\<close> is the handle the next request
  gets. The last four fields record what the controller did, oldest first: the calls of
  \<^verbatim>\<open>onHover\<close>, \<^verbatim>\<open>onSelect\<close> and \<^verbatim>\<open>onDeselect\<close>, and the calls of
  \<^verbatim>\<open>document.elementFromPoint\<close>.
\<close>

record 'e controller =
  mode :: EventControllerMode
  lastHoveredElement :: "'e option"
  hasPointerPosition :: bool
  lastClientX :: number
  lastClientY :: number
  hoverRafId :: "nat option"
  rafQueue :: "(nat \<times> bool) list"
  nextRafHandle :: nat
  controllerDisposed :: bool
  hoverCalls :: "'e option list"
  selectCalls :: "('e \<times> eventModifiers) list"
  deselectCalls :: nat
  hitTests :: "(rat \<times> rat) list"






definition getTargetElementAtFast ::
  "'e controllerEnv \<Rightarrow> number \<Rightarrow> number \<Rightarrow> 'e controller \<Rightarrow> 'e option \<times> 'e controller" where
  "getTargetElementAtFast env x y s =
     (case (x, y) of
        (Finite fx, Finite fy) \<Rightarrow>
          (let s' = s\<lparr>hitTests := hitTests s @ [(fx, fy)]\<rparr> in
           case elementFromPoint env fx fy of
             None \<Rightarrow> (None, s')
           | Some element \<Rightarrow> if isOverlayElement env element then (None, s') else (Some element, s'))
      | _ \<Rightarrow> (None, s))"














text \<open>The callback \<open>hoverRafId\<close> refers to is the only one pending.\<close>

definition rafConsistent :: "'e controller \<Rightarrow> bool" where
  "rafConsistent s =
     (map fst (rafQueue s) = (case hoverRafId s of None \<Rightarrow> [] | Some handle \<Rightarrow> [handle]))"




subsection \<open>Properties of the event controller\<close>


lemma getTargetElementAtFast_state:
  fixes s :: "'e controller"
  shows "snd (getTargetElementAtFast env x y s)
         = s\<lparr>hitTests := hitTests s @ (case (x, y) of (Finite fx, Finite fy) \<Rightarrow> [(fx, fy)] | _ \<Rightarrow> [])\<rparr>"
  by (auto simp: getTargetElementAtFast_def Let_def split: number.splits option.splits)

lemma getTargetElementAtFast_hitTests:
  fixes s :: "'e controller"
  shows "hitTests (snd (getTargetElementAtFast env x y s)) = hitTests s
         \<or> (\<exists>p. hitTests (snd (getTargetElementAtFast env x y s)) = hitTests s @ [p])"
  by (cases x; cases y) (simp_all add: getTargetElementAtFast_state)


subsection \<open>The pending callback\<close>




lemma rafConsistent_cong:
  fixes s s' :: "'e controller"
  shows "hoverRafId s' = hoverRafId s \<Longrightarrow> rafQueue s' = rafQueue s
         \<Longrightarrow> rafConsistent s' = rafConsistent s"
  by (simp add: rafConsistent_def)










subsection \<open>Pointer movements of one paint cycle\<close>


















section \<open>Strings\<close>

text \<open>
  JavaScript strings are modelled as \<^typ>\<open>string\<close>, one \<^typ>\<open>char\<close> per code unit, so the model
  covers code units below 256. \<open>codeUnit\<close> is \<^verbatim>\<open>charCodeAt\<close>. The white space of
  \<^verbatim>\<open>String.prototype.trim\<close> and of the regular expression class \<^verbatim>\<open>\s\<close> is, in that range,
  tab, line feed, vertical tab, form feed, carriage return, space and no-break space. The
  letters that \<^verbatim>\<open>String.prototype.toLowerCase\<close> changes are, in that range, \<open>A\<close> to \<open>Z\<close> and
  the capital letters from \<open>0xC0\<close> to \<open>0xDE\<close> (all but the multiplication sign \<open>0xD7\<close>).
\<close>

definition codeUnit :: "char \<Rightarrow> nat" where
  "codeUnit c = of_char c"

definition backslash :: char where "backslash = CHR 0x5C"
definition dquote :: char where "dquote = CHR 0x22"
definition squote :: char where "squote = CHR 0x27"

definition isWhitespace :: "char \<Rightarrow> bool" where
  "isWhitespace c = (codeUnit c \<in> {0x09, 0x0A, 0x0B, 0x0C, 0x0D, 0x20, 0xA0})"

definition trim :: "string \<Rightarrow> string" where
  "trim s = rev (dropWhile isWhitespace (rev (dropWhile isWhitespace s)))"

definition isUpper :: "char \<Rightarrow> bool" where
  "isUpper c = (0x41 \<le> codeUnit c \<and> codeUnit c \<le> 0x5A)"

definition isLower :: "char \<Rightarrow> bool" where
  "isLower c = (0x61 \<le> codeUnit c \<and> codeUnit c \<le> 0x7A)"

definition isDigit :: "char \<Rightarrow> bool" where
  "isDigit c = (0x30 \<le> codeUnit c \<and> codeUnit c \<le> 0x39)"

definition toLowerChar :: "char \<Rightarrow> char" where
  "toLowerChar c =
     (if isUpper c \<or> (0xC0 \<le> codeUnit c \<and> codeUnit c \<le> 0xDE \<and> codeUnit c \<noteq> 0xD7)
      then char_of (codeUnit c + 32) else c)"

definition toLowerCase :: "string \<Rightarrow> string" where
  "toLowerCase s = map toLowerChar s"

text \<open>The lower-casing of CSS and HTML, which changes \<open>A\<close> to \<open>Z\<close> only.\<close>

definition asciiLowerCase :: "string \<Rightarrow> string" where
  "asciiLowerCase s = map (\<lambda>c. if isUpper c then char_of (codeUnit c + 32) else c) s"

definition startsWith :: "string \<Rightarrow> string \<Rightarrow> bool" where
  "startsWith s p = (take (length p) s = p)"

text \<open>\<^verbatim>\<open>Array.prototype.join\<close>.\<close>

fun join :: "string \<Rightarrow> string list \<Rightarrow> string" where
  "join sep [] = []"
| "join sep [x] = x"
| "join sep (x # y # ys) = x @ sep @ join sep (y # ys)"

text \<open>\<^verbatim>\<open>String.prototype.split\<close> at a one-character separator.\<close>

fun split :: "char \<Rightarrow> string \<Rightarrow> string list" where
  "split sep [] = [[]]"
| "split sep (c # cs) =
     (if c = sep then [] # split sep cs
      else (case split sep cs of
              [] \<Rightarrow> [[c]]
            | p # ps \<Rightarrow> (c # p) # ps))"

text \<open>\<^verbatim>\<open>Number.prototype.toString(radix)\<close> for a natural number and a radix from 2 to 36.\<close>

definition digitChar :: "nat \<Rightarrow> char" where
  "digitChar d = (if d < 10 then char_of (0x30 + d) else char_of (0x61 + (d - 10)))"

fun toStringRadix :: "nat \<Rightarrow> nat \<Rightarrow> string" where
  "toStringRadix radix n =
     (if radix < 2 \<or> n < radix then [digitChar n]
      else toStringRadix radix (n div radix) @ [digitChar (n mod radix)])"

declare toStringRadix.simps [simp del]

section \<open>The document\<close>

text \<open>
  The platform the locator runs on. A document is the list of its child nodes; an element
  carries its tag name, its id, its class list, its other attributes, its inline style
  (\<open>None\<close> when the element has no \<^verbatim>\<open>style\<close> object), its child nodes and, when it is a
  shadow host, the mode and the child nodes of its shadow root. The documents modelled
  have no nested browsing context with an accessible document: \<^verbatim>\<open>contentDocument\<close> is
  \<^verbatim>\<open>null\<close> for every frame.

  A node is referred to by the steps that lead to it from the document, innermost first:
  \<open>Child i\<close> goes to the \<open>i\<close>-th child node, \<open>ShadowStep\<close> from a host into its shadow
  root. So \<open>[]\<close> is the document, \<open>ShadowStep # h\<close> the shadow root of the host \<open>h\<close> and
  \<open>tl r\<close> the parent node of an element \<open>r\<close>. References are compared as the source
  compares object references; this identifies a node with its position in the tree.
\<close>

datatype step = Child nat | ShadowStep

type_synonym nodeRef = "step list"

datatype shadowRootMode = OpenMode | ClosedMode

record elementData =
  tagName :: string
  elemId :: string
  classList :: "string list"
  attributes :: "(string \<times> string) list"
  inlineStyle :: "(string \<times> string) list option"

datatype node =
  TextNode string
  | ElementNode elementData "node list" "(shadowRootMode \<times> node list) option"

type_synonym document = "node list"

text \<open>The child nodes of the document, of an element or of a shadow root.\<close>

fun childNodesAt :: "document \<Rightarrow> nodeRef \<Rightarrow> node list option" where
  "childNodesAt doc [] = Some doc"
| "childNodesAt doc (Child i # p) =
     (case childNodesAt doc p of
        None \<Rightarrow> None
      | Some ns \<Rightarrow>
          if i < length ns
          then (case ns ! i of ElementNode d cs sh \<Rightarrow> Some cs | TextNode t \<Rightarrow> None)
          else None)"
| "childNodesAt doc [ShadowStep] = None"
| "childNodesAt doc (ShadowStep # ShadowStep # p) = None"
| "childNodesAt doc (ShadowStep # Child i # p) =
     (case childNodesAt doc p of
        None \<Rightarrow> None
      | Some ns \<Rightarrow>
          if i < length ns
          then (case ns ! i of
                  ElementNode d cs (Some (m, scs)) \<Rightarrow> Some scs
                | _ \<Rightarrow> None)
          else None)"

definition nodeAt :: "document \<Rightarrow> nodeRef \<Rightarrow> node option" where
  "nodeAt doc r =
     (case r of
        Child i # p \<Rightarrow>
          (case childNodesAt doc p of
             None \<Rightarrow> None
           | Some ns \<Rightarrow> if i < length ns then Some (ns ! i) else None)
      | _ \<Rightarrow> None)"

definition elementAt :: "document \<Rightarrow> nodeRef \<Rightarrow> elementData option" where
  "elementAt doc r =
     (case nodeAt doc r of Some (ElementNode d cs sh) \<Rightarrow> Some d | _ \<Rightarrow> None)"

text \<open>\<^verbatim>\<open>host.shadowRoot\<close>: the shadow root of an element, \<^verbatim>\<open>null\<close> when it has none or
  the root is closed.\<close>

definition shadowRootOf :: "document \<Rightarrow> nodeRef \<Rightarrow> nodeRef option" where
  "shadowRootOf doc host =
     (case nodeAt doc host of
        Some (ElementNode d cs (Some (OpenMode, scs))) \<Rightarrow> Some (ShadowStep # host)
      | _ \<Rightarrow> None)"

fun isElementNode :: "node \<Rightarrow> bool" where
  "isElementNode (ElementNode d cs sh) = True"
| "isElementNode (TextNode t) = False"

text \<open>\<^verbatim>\<open>children\<close>: the element children of a document, element or shadow root.\<close>

definition childrenOf :: "document \<Rightarrow> nodeRef \<Rightarrow> nodeRef list" where
  "childrenOf doc p =
     (case childNodesAt doc p of
        None \<Rightarrow> []
      | Some ns \<Rightarrow> map (\<lambda>i. Child i # p) (filter (\<lambda>i. isElementNode (ns ! i)) [0..<length ns]))"

text \<open>\<^verbatim>\<open>parentNode\<close> and \<^verbatim>\<open>parentElement\<close> of an element.\<close>

definition parentNode :: "nodeRef \<Rightarrow> nodeRef" where
  "parentNode r = tl r"

definition parentElement :: "nodeRef \<Rightarrow> nodeRef option" where
  "parentElement r =
     (case tl r of Child i # p \<Rightarrow> Some (Child i # p) | _ \<Rightarrow> None)"

definition isShadowRoot :: "nodeRef \<Rightarrow> bool" where
  "isShadowRoot r = (case r of ShadowStep # h \<Rightarrow> True | _ \<Rightarrow> False)"

definition isDocument :: "nodeRef \<Rightarrow> bool" where
  "isDocument r = (r = [])"

text \<open>\<^verbatim>\<open>getRootNode()\<close>: the shadow root the node lies in, or the document.\<close>

definition getRootNode :: "nodeRef \<Rightarrow> nodeRef" where
  "getRootNode r = dropWhile (\<lambda>s. s \<noteq> ShadowStep) r"

text \<open>The elements among the nodes \<open>ns\<close> (the child nodes of \<open>p\<close> from index \<open>i\<close> on) and
  below them, in document order. Shadow trees are not entered.\<close>

function elementsBelow :: "nodeRef \<Rightarrow> nat \<Rightarrow> node list \<Rightarrow> nodeRef list" where
  "elementsBelow p i [] = []"
| "elementsBelow p i (TextNode t # ns) = elementsBelow p (Suc i) ns"
| "elementsBelow p i (ElementNode d cs sh # ns) =
     (Child i # p) # elementsBelow (Child i # p) 0 cs @ elementsBelow p (Suc i) ns"
  by pat_completeness auto
termination
  by (relation "measure (\<lambda>(p, i, ns). size_list size ns)") auto

definition elementsIn :: "document \<Rightarrow> nodeRef \<Rightarrow> nodeRef list" where
  "elementsIn doc queryRoot =
     (case childNodesAt doc queryRoot of None \<Rightarrow> [] | Some ns \<Rightarrow> elementsBelow queryRoot 0 ns)"

text \<open>\<^verbatim>\<open>textContent\<close>.\<close>

fun textContentOf :: "node \<Rightarrow> string" where
  "textContentOf (TextNode t) = t"
| "textContentOf (ElementNode d cs sh) = concat (map textContentOf cs)"

definition textContent :: "document \<Rightarrow> nodeRef \<Rightarrow> string" where
  "textContent doc r = (case nodeAt doc r of None \<Rightarrow> [] | Some n \<Rightarrow> textContentOf n)"

text \<open>Replaces the data of the element at the end of a path (outermost step first).\<close>

fun updateIn :: "step list \<Rightarrow> (elementData \<Rightarrow> elementData) \<Rightarrow> node list \<Rightarrow> node list" where
  "updateIn [] f ns = ns"
| "updateIn (ShadowStep # rest) f ns = ns"
| "updateIn [Child i] f ns =
     (if i < length ns
      then ns[i := (case ns ! i of ElementNode d cs sh \<Rightarrow> ElementNode (f d) cs sh
                    | TextNode t \<Rightarrow> TextNode t)]
      else ns)"
| "updateIn (Child i # ShadowStep # rest) f ns =
     (if i < length ns
      then ns[i := (case ns ! i of
                      ElementNode d cs (Some (m, scs)) \<Rightarrow>
                        ElementNode d cs (Some (m, updateIn rest f scs))
                    | n \<Rightarrow> n)]
      else ns)"
| "updateIn (Child i # Child j # rest) f ns =
     (if i < length ns
      then ns[i := (case ns ! i of
                      ElementNode d cs sh \<Rightarrow> ElementNode d (updateIn (Child j # rest) f cs) sh
                    | TextNode t \<Rightarrow> TextNode t)]
      else ns)"

definition updateElement :: "nodeRef \<Rightarrow> (elementData \<Rightarrow> elementData) \<Rightarrow> document \<Rightarrow> document" where
  "updateElement r f doc = updateIn (rev r) f doc"

section \<open>Selectors\<close>

text \<open>
  \<^verbatim>\<open>querySelectorAll\<close> and \<^verbatim>\<open>querySelector\<close> belong to the platform. They are modelled
  for the selectors the locator writes: compound selectors made of a type selector or
  \<open>*\<close>, \<open>#id\<close>, \<open>.class\<close>, \<open>[name="value"]\<close> and \<open>:nth-of-type(n)\<close>, joined by the child
  combinator \<open>>\<close> or the descendant combinator. Identifiers and strings are read with
  their escapes, as CSS reads them. Every other selector is rejected like a malformed
  one. Type selectors and attribute names match without regard to the case of \<open>A\<close> to
  \<open>Z\<close>, ids, classes and attribute values exactly (the document is not in quirks mode).
  \<open>U+FFFD\<close>, which lies outside the code units modelled, is written as the three bytes of
  its UTF-8 form.
\<close>

datatype simpleSelector =
  TypeSelector string
  | UniversalSelector
  | IdSelector string
  | ClassSelector string
  | AttributeEquals string string
  | NthOfType nat

type_synonym compoundSelector = "simpleSelector list"

datatype combinator = ChildCombinator | DescendantCombinator

definition replacementCharacter :: string where
  "replacementCharacter = [CHR 0xEF, CHR 0xBF, CHR 0xBD]"

definition isCssWhitespace :: "char \<Rightarrow> bool" where
  "isCssWhitespace c = (codeUnit c \<in> {0x09, 0x0A, 0x0C, 0x0D, 0x20})"

definition isCssNewline :: "char \<Rightarrow> bool" where
  "isCssNewline c = (codeUnit c \<in> {0x0A, 0x0C, 0x0D})"

definition skipWhitespace :: "string \<Rightarrow> string" where
  "skipWhitespace s = dropWhile isCssWhitespace s"

definition isHexDigit :: "char \<Rightarrow> bool" where
  "isHexDigit c =
     (isDigit c \<or> (0x41 \<le> codeUnit c \<and> codeUnit c \<le> 0x46)
      \<or> (0x61 \<le> codeUnit c \<and> codeUnit c \<le> 0x66))"

definition hexDigitValue :: "char \<Rightarrow> nat" where
  "hexDigitValue c =
     (if isDigit c then codeUnit c - 0x30
      else if isUpper c then codeUnit c - 0x41 + 10
      else codeUnit c - 0x61 + 10)"

definition isNameStart :: "char \<Rightarrow> bool" where
  "isNameStart c = (isUpper c \<or> isLower c \<or> c = CHR ''_'' \<or> codeUnit c \<ge> 0x80)"

definition isNameChar :: "char \<Rightarrow> bool" where
  "isNameChar c = (isNameStart c \<or> isDigit c \<or> c = CHR ''-'')"

fun takeHexDigits :: "nat \<Rightarrow> string \<Rightarrow> string \<times> string" where
  "takeHexDigits 0 s = ([], s)"
| "takeHexDigits (Suc n) [] = ([], [])"
| "takeHexDigits (Suc n) (c # cs) =
     (if isHexDigit c
      then (let (h, r) = takeHexDigits n cs in (c # h, r))
      else ([], c # cs))"

definition hexValue :: "string \<Rightarrow> nat" where
  "hexValue h = foldl (\<lambda>a c. 16 * a + hexDigitValue c) 0 h"

text \<open>Consume an escaped code point, after the backslash.\<close>

definition consumeEscape :: "string \<Rightarrow> string \<times> string" where
  "consumeEscape s =
     (case s of
        [] \<Rightarrow> (replacementCharacter, [])
      | c # cs \<Rightarrow>
          if isHexDigit c
          then (let (h, r) = takeHexDigits 6 s;
                    r' = (case r of [] \<Rightarrow> [] | w # r2 \<Rightarrow> if isCssWhitespace w then r2 else r)
                in (if hexValue h = 0 then replacementCharacter else [char_of (hexValue h)], r'))
          else ([c], cs))"

definition validEscape :: "string \<Rightarrow> bool" where
  "validEscape s = (case s of c # d # r \<Rightarrow> c = backslash \<and> \<not> isCssNewline d
                    | [c] \<Rightarrow> c = backslash | [] \<Rightarrow> False)"

lemma takeHexDigits_length: "length (snd (takeHexDigits n s)) \<le> length s"
  by (induction n s rule: takeHexDigits.induct) (auto simp: case_prod_unfold Let_def)

lemma consumeEscape_length: "length (snd (consumeEscape s)) \<le> length s"
proof (cases s)
  case Nil
  then show ?thesis by (simp add: consumeEscape_def)
next
  case (Cons c cs)
  have "length (snd (takeHexDigits 6 s)) \<le> length s" by (rule takeHexDigits_length)
  moreover have "\<And>r. length (case r of [] \<Rightarrow> [] | w # r2 \<Rightarrow> if isCssWhitespace w then r2 else r) \<le> length r"
    by (simp split: list.splits)
  ultimately show ?thesis using Cons
    by (auto simp: consumeEscape_def Let_def case_prod_unfold intro: order_trans)
qed

function consumeName :: "string \<Rightarrow> string \<times> string" where
  "consumeName [] = ([], [])"
| "consumeName (c # cs) =
     (if isNameChar c then (let (n, r) = consumeName cs in (c # n, r))
      else if validEscape (c # cs)
      then (let (v, r0) = consumeEscape cs; (n, r) = consumeName r0 in (v @ n, r))
      else ([], c # cs))"
  by pat_completeness auto
termination
proof (relation "measure length")
  show "wf (measure length)" by simp
next
  fix c cs assume "isNameChar c"
  show "(cs, c # cs) \<in> measure length" by simp
next
  fix c cs x xa y
  assume "x = consumeEscape cs" "(xa, y) = x"
  then have "y = snd (consumeEscape cs)" by (metis snd_conv)
  then show "(y, c # cs) \<in> measure length"
    using consumeEscape_length [of cs] by simp
qed


definition wouldStartIdent :: "string \<Rightarrow> bool" where
  "wouldStartIdent s =
     (case s of
        [] \<Rightarrow> False
      | c # r \<Rightarrow>
          if c = CHR ''-'' then
            (case r of [] \<Rightarrow> False
             | d # r2 \<Rightarrow> isNameStart d \<or> d = CHR ''-'' \<or> validEscape r)
          else if isNameStart c then True
          else validEscape s)"

definition parseIdent :: "string \<Rightarrow> (string \<times> string) option" where
  "parseIdent s = (if wouldStartIdent s then Some (consumeName s) else None)"

function consumeString :: "char \<Rightarrow> string \<Rightarrow> (string \<times> string) option" where
  "consumeString q [] = Some ([], [])"
| "consumeString q (c # cs) =
     (if c = q then Some ([], cs)
      else if isCssNewline c then None
      else if c = backslash then
        (case cs of
           [] \<Rightarrow> Some ([], [])
         | d # ds \<Rightarrow>
             if isCssNewline d then consumeString q ds
             else (let (v, r0) = consumeEscape cs
                   in case consumeString q r0 of
                        None \<Rightarrow> None
                      | Some (w, r) \<Rightarrow> Some (v @ w, r)))
      else (case consumeString q cs of
              None \<Rightarrow> None
            | Some (w, r) \<Rightarrow> Some (c # w, r)))"
  by pat_completeness auto
termination
proof (relation "measure (\<lambda>(q, s). length s)")
  show "wf (measure (\<lambda>(q, s). length s))" by simp
next
  fix q c cs d ds
  assume "cs = d # ds"
  then show "((q, ds), q, c # cs) \<in> measure (\<lambda>(q, s). length s)" by simp
next
  fix q c cs d ds x xa y
  assume "x = consumeEscape cs" "(xa, y) = x"
  then have "y = snd (consumeEscape cs)" by (metis snd_conv)
  then show "((q, y), q, c # cs) \<in> measure (\<lambda>(q, s). length s)"
    using consumeEscape_length [of cs] by simp
next
  fix q c cs
  show "((q, cs), q, c # cs) \<in> measure (\<lambda>(q, s). length s)" by simp
qed

definition closeWith :: "char \<Rightarrow> 'a \<Rightarrow> string \<Rightarrow> ('a \<times> string) option" where
  "closeWith closing x s =
     (case skipWhitespace s of
        [] \<Rightarrow> Some (x, [])
      | c # r \<Rightarrow> if c = closing then Some (x, r) else None)"

text \<open>After \<open>[\<close>: an attribute selector \<open>[name=value]\<close>, the value a string or an
  identifier.\<close>

definition parseAttribute :: "string \<Rightarrow> (simpleSelector \<times> string) option" where
  "parseAttribute s =
     (case parseIdent (skipWhitespace s) of
        None \<Rightarrow> None
      | Some (name, s2) \<Rightarrow>
          (case skipWhitespace s2 of
             [] \<Rightarrow> None
           | e # s4 \<Rightarrow>
               if e \<noteq> CHR ''='' then None
               else (case skipWhitespace s4 of
                       [] \<Rightarrow> None
                     | q # s6 \<Rightarrow>
                         if q = dquote \<or> q = squote then
                           (case consumeString q s6 of
                              None \<Rightarrow> None
                            | Some (v, s7) \<Rightarrow>
                                closeWith (CHR '']'') (AttributeEquals (asciiLowerCase name) v) s7)
                         else
                           (case parseIdent (q # s6) of
                              None \<Rightarrow> None
                            | Some (v, s7) \<Rightarrow>
                                closeWith (CHR '']'') (AttributeEquals (asciiLowerCase name) v) s7))))"

definition parseDecimal :: "string \<Rightarrow> nat" where
  "parseDecimal ds = foldl (\<lambda>a c. 10 * a + (codeUnit c - 0x30)) 0 ds"

text \<open>After \<open>:\<close>: the pseudo-class \<open>nth-of-type(n)\<close> with a plain positive number.\<close>

definition parsePseudo :: "string \<Rightarrow> (simpleSelector \<times> string) option" where
  "parsePseudo s =
     (case parseIdent s of
        None \<Rightarrow> None
      | Some (name, s2) \<Rightarrow>
          if asciiLowerCase name \<noteq> ''nth-of-type'' then None
          else (case s2 of
                  [] \<Rightarrow> None
                | c # s3 \<Rightarrow>
                    if c \<noteq> CHR ''('' then None
                    else (let s4 = skipWhitespace s3;
                              ds = takeWhile isDigit s4
                          in if ds = [] then None
                             else closeWith (CHR '')'') (NthOfType (parseDecimal ds))
                                    (dropWhile isDigit s4))))"

lemma skipWhitespace_length: "length (skipWhitespace s) \<le> length s"
  by (simp add: skipWhitespace_def length_dropWhile_le)

lemma consumeName_length: "length (snd (consumeName s)) \<le> length s"
proof (induction s rule: consumeName.induct)
  case 1
  then show ?case by simp
next
  case (2 c cs)
  show ?case
  proof (cases "isNameChar c")
    case True
    with 2 show ?thesis by (simp add: case_prod_unfold Let_def)
  next
    case False
    show ?thesis
    proof (cases "validEscape (c # cs)")
      case True
      have "length (snd (consumeName (snd (consumeEscape cs)))) \<le> length (snd (consumeEscape cs))"
        using 2(2) [OF False True, of "consumeEscape cs" "fst (consumeEscape cs)" "snd (consumeEscape cs)"]
        by simp
      with consumeEscape_length [of cs] False True show ?thesis
        by (simp add: case_prod_unfold Let_def)
    next
      case False
      with \<open>\<not> isNameChar c\<close> show ?thesis by simp
    qed
  qed
qed

lemma parseIdent_length: "parseIdent s = Some (v, r) \<Longrightarrow> length r \<le> length s"
  using consumeName_length [of s] by (auto simp: parseIdent_def split: if_splits)

lemma consumeString_length: "consumeString q s = Some (v, r) \<Longrightarrow> length r \<le> length s"
proof (induction q s arbitrary: v r rule: consumeString.induct)
  case (1 q)
  then show ?case by simp
next
  case (2 q c cs)
  show ?case
  proof (cases "c = q")
    case True
    with 2(4) show ?thesis by simp
  next
    case nq: False
    show ?thesis
    proof (cases "isCssNewline c")
      case True
      with nq 2(4) show ?thesis by simp
    next
      case nn: False
      show ?thesis
      proof (cases "c = backslash")
        case bs: True
        show ?thesis
        proof (cases cs)
          case Nil
          with nq nn bs 2(4) show ?thesis by simp
        next
          case (Cons d ds)
          show ?thesis
          proof (cases "isCssNewline d")
            case True
            with nq nn bs Cons 2(4) have "consumeString q ds = Some (v, r)" by simp
            from 2(1) [OF nq nn bs Cons True this] Cons show ?thesis by simp
          next
            case False
            obtain w where w: "consumeString q (snd (consumeEscape cs)) = Some (w, r)"
              using nq nn bs Cons False 2(4)
              by (auto simp: case_prod_unfold Let_def split: option.splits)
            have "length r \<le> length (snd (consumeEscape cs))"
              using 2(2) [OF nq nn bs Cons False, of "consumeEscape cs" "fst (consumeEscape cs)"
                   "snd (consumeEscape cs)" w r] w by simp
            with consumeEscape_length [of cs] show ?thesis by simp
          qed
        qed
      next
        case False
        obtain w where w: "consumeString q cs = Some (w, r)"
          using nq nn False 2(4) by (auto split: option.splits)
        from 2(3) [OF nq nn False w] show ?thesis by simp
      qed
    qed
  qed
qed

lemma closeWith_length: "closeWith c x s = Some (y, r) \<Longrightarrow> length r \<le> length s"
  using skipWhitespace_length [of s]
  by (auto simp: closeWith_def split: list.splits if_splits)

lemma parseAttribute_length: "parseAttribute s = Some (x, r) \<Longrightarrow> length r \<le> length s"
proof -
  assume a: "parseAttribute s = Some (x, r)"
  then obtain name s2 where i: "parseIdent (skipWhitespace s) = Some (name, s2)"
    by (auto simp: parseAttribute_def split: option.splits)
  with a obtain e s4 where s4: "skipWhitespace s2 = e # s4" "e = CHR ''=''"
    by (auto simp: parseAttribute_def split: option.splits list.splits if_splits)
  with a i obtain q s6 where s6: "skipWhitespace s4 = q # s6"
    by (auto simp: parseAttribute_def split: option.splits list.splits if_splits)
  have l1: "length s2 \<le> length s"
    using parseIdent_length [OF i] skipWhitespace_length [of s] by simp
  have l2: "length s4 \<le> length s2"
    using s4 skipWhitespace_length [of s2] by simp
  have l3: "length (q # s6) \<le> length s4"
    using s6 skipWhitespace_length [of s4] by simp
  from a i s4 s6 obtain v s7 where
    "(consumeString q s6 = Some (v, s7) \<or> parseIdent (q # s6) = Some (v, s7))"
    "closeWith (CHR '']'') (AttributeEquals (asciiLowerCase name) v) s7 = Some (x, r)"
    by (auto simp: parseAttribute_def split: option.splits if_splits)
  then have "length s7 \<le> length (q # s6)" "length r \<le> length s7"
    using consumeString_length parseIdent_length closeWith_length by fastforce+
  with l1 l2 l3 show ?thesis by simp
qed

lemma parsePseudo_length: "parsePseudo s = Some (x, r) \<Longrightarrow> length r \<le> length s"
proof -
  assume a: "parsePseudo s = Some (x, r)"
  then obtain name s2 where i: "parseIdent s = Some (name, s2)"
    by (auto simp: parsePseudo_def split: option.splits)
  with a obtain c s3 where s3: "s2 = c # s3"
    by (auto simp: parsePseudo_def split: list.splits if_splits)
  with a i have "closeWith (CHR '')'') (NthOfType (parseDecimal (takeWhile isDigit (skipWhitespace s3))))
                   (dropWhile isDigit (skipWhitespace s3)) = Some (x, r)"
    by (auto simp: parsePseudo_def Let_def split: list.splits if_splits)
  then have "length r \<le> length (dropWhile isDigit (skipWhitespace s3))"
    by (rule closeWith_length)
  also have "\<dots> \<le> length (skipWhitespace s3)" by (rule length_dropWhile_le)
  also have "\<dots> \<le> length s3" by (rule skipWhitespace_length)
  finally show ?thesis using parseIdent_length [OF i] s3 by simp
qed


text \<open>One id, class, attribute or pseudo-class selector. \<open>None\<close>: none starts here;
  \<open>Some None\<close>: one starts here and is malformed.\<close>

definition parseSubclass :: "string \<Rightarrow> (simpleSelector \<times> string) option option" where
  "parseSubclass s =
     (case s of
        [] \<Rightarrow> None
      | c # r \<Rightarrow>
          if c = CHR ''#'' then
            Some (case parseIdent r of None \<Rightarrow> None | Some (v, r1) \<Rightarrow> Some (IdSelector v, r1))
          else if c = CHR ''.'' then
            Some (case parseIdent r of None \<Rightarrow> None | Some (v, r1) \<Rightarrow> Some (ClassSelector v, r1))
          else if c = CHR ''['' then Some (parseAttribute r)
          else if c = CHR '':'' then Some (parsePseudo r)
          else None)"

lemma parseSubclass_length:
  "parseSubclass s = Some (Some (x, r)) \<Longrightarrow> length r < length s"
  by (cases s)
     (auto simp: parseSubclass_def less_Suc_eq_le split: if_splits option.splits
           dest: parseIdent_length parseAttribute_length parsePseudo_length)

function parseSubclasses :: "string \<Rightarrow> (simpleSelector list \<times> string) option" where
  "parseSubclasses s =
     (case parseSubclass s of
        None \<Rightarrow> Some ([], s)
      | Some None \<Rightarrow> None
      | Some (Some (x, r1)) \<Rightarrow>
          (case parseSubclasses r1 of
             None \<Rightarrow> None
           | Some (xs, r2) \<Rightarrow> Some (x # xs, r2)))"
  by pat_completeness auto
termination
  by (relation "measure length") (auto dest: parseSubclass_length)

declare parseSubclasses.simps [simp del]

lemma parseSubclasses_length: "parseSubclasses s = Some (xs, r) \<Longrightarrow> length r \<le> length s"
proof (induction s arbitrary: xs r rule: parseSubclasses.induct)
  case (1 s)
  show ?case
  proof (cases "parseSubclass s")
    case None
    with 1(2) show ?thesis by (simp add: parseSubclasses.simps [of s])
  next
    case (Some o1)
    show ?thesis
    proof (cases o1)
      case None
      with Some 1(2) show ?thesis by (simp add: parseSubclasses.simps [of s])
    next
      case inner: (Some xr)
      obtain x r1 where xr: "xr = (x, r1)" by (cases xr)
      with Some inner 1(2) obtain ys where b: "parseSubclasses r1 = Some (ys, r)"
        by (auto simp: parseSubclasses.simps [of s] split: option.splits)
      have "parseSubclass s = Some (Some (x, r1))" using Some inner xr by simp
      from 1(1) [OF Some inner xr [symmetric] b] parseSubclass_length [OF this]
      show ?thesis by simp
    qed
  qed
qed

text \<open>A compound selector: an optional type selector or \<open>*\<close>, then the rest; not empty.\<close>

definition parseCompound :: "string \<Rightarrow> (compoundSelector \<times> string) option" where
  "parseCompound s =
     (let (ty, r0) =
            (case s of
               [] \<Rightarrow> ([], [])
             | c # r \<Rightarrow>
                 if c = CHR ''*'' then ([UniversalSelector], r)
                 else (case parseIdent s of
                         Some (v, r1) \<Rightarrow> ([TypeSelector v], r1)
                       | None \<Rightarrow> ([], s)))
      in case parseSubclasses r0 of
           None \<Rightarrow> None
         | Some (xs, r) \<Rightarrow> if ty @ xs = [] then None else Some (ty @ xs, r))"

lemma parseCompound_length: "parseCompound s = Some (x, r) \<Longrightarrow> length r \<le> length s"
proof -
  assume a: "parseCompound s = Some (x, r)"
  define p where "p = (case s of
               [] \<Rightarrow> ([], [])
             | c # r \<Rightarrow>
                 if c = CHR ''*'' then ([UniversalSelector], r)
                 else (case parseIdent s of
                         Some (v, r1) \<Rightarrow> ([TypeSelector v], r1)
                       | None \<Rightarrow> ([], s)))"
  have l: "length (snd p) \<le> length s"
    unfolding p_def by (auto split: list.splits option.splits dest: parseIdent_length)
  from a obtain xs where "parseSubclasses (snd p) = Some (xs, r)"
    unfolding parseCompound_def p_def [symmetric]
    by (auto simp: Let_def case_prod_unfold split: option.splits if_splits)
  from parseSubclasses_length [OF this] l show ?thesis by simp
qed

text \<open>What follows a compound selector: the end, or a combinator and the next compound
  selector. A combinator is \<open>>\<close> with optional white space around it, or white space.\<close>

function parseCombinators :: "string \<Rightarrow> (combinator \<times> compoundSelector) list option" where
  "parseCombinators s =
     (case skipWhitespace s of
        [] \<Rightarrow> Some []
      | c # r1 \<Rightarrow>
          if c = CHR ''>'' then
            (case parseCompound (skipWhitespace r1) of
               None \<Rightarrow> None
             | Some (cp, r2) \<Rightarrow>
                 (case parseCombinators r2 of
                    None \<Rightarrow> None
                  | Some rest \<Rightarrow> Some ((ChildCombinator, cp) # rest)))
          else if skipWhitespace s = s then None
          else
            (case parseCompound (c # r1) of
               None \<Rightarrow> None
             | Some (cp, r2) \<Rightarrow>
                 (case parseCombinators r2 of
                    None \<Rightarrow> None
                  | Some rest \<Rightarrow> Some ((DescendantCombinator, cp) # rest))))"
  by pat_completeness auto
termination
proof (relation "measure length")
  show "wf (measure length)" by simp
next
  fix s c r1 cp r2 x
  assume a: "skipWhitespace s = c # r1" and b: "parseCompound (skipWhitespace r1) = Some x"
    and c: "(cp, r2) = x"
  have "length r2 \<le> length (skipWhitespace r1)"
    using parseCompound_length [of "skipWhitespace r1" cp r2] b c by simp
  also have "\<dots> \<le> length r1" by (rule skipWhitespace_length)
  also have "\<dots> < length (skipWhitespace s)" using a by simp
  also have "\<dots> \<le> length s" by (rule skipWhitespace_length)
  finally show "(r2, s) \<in> measure length" by simp
next
  fix s c r1 cp r2 x
  assume a: "skipWhitespace s = c # r1" and n: "skipWhitespace s \<noteq> s"
    and b: "parseCompound (c # r1) = Some x" and c: "(cp, r2) = x"
  have "length r2 \<le> length (c # r1)"
    using parseCompound_length [of "c # r1" cp r2] b c by simp
  also have "\<dots> < length s"
  proof -
    have "s \<noteq> [] \<and> isCssWhitespace (hd s)"
      using n by (cases s) (auto simp: skipWhitespace_def split: if_splits)
    then have "length (skipWhitespace s) < length s"
      by (cases s) (auto simp: skipWhitespace_def less_Suc_eq_le length_dropWhile_le)
    then show ?thesis using a by simp
  qed
  finally show "(r2, s) \<in> measure length" by simp
qed


declare parseCombinators.simps [simp del]

text \<open>A complex selector: the compound selectors from left to right, each but the first
  with the combinator before it.\<close>

definition parseSelector ::
  "string \<Rightarrow> (compoundSelector \<times> (combinator \<times> compoundSelector) list) option" where
  "parseSelector s =
     (case parseCompound (skipWhitespace s) of
        None \<Rightarrow> None
      | Some (c0, r) \<Rightarrow>
          (case parseCombinators r of
             None \<Rightarrow> None
           | Some rest \<Rightarrow> Some (c0, rest)))"

text \<open>The same selector read from the right: the subject's compound selector, then each
  combinator with the compound selector to its left.\<close>

fun rightToLeft ::
  "compoundSelector \<Rightarrow> (combinator \<times> compoundSelector) list
     \<Rightarrow> (combinator \<times> compoundSelector) list
     \<Rightarrow> compoundSelector \<times> (combinator \<times> compoundSelector) list" where
  "rightToLeft c0 [] acc = (c0, acc)"
| "rightToLeft c0 ((k, c1) # rest) acc = rightToLeft c1 rest ((k, c0) # acc)"

text \<open>The index (from 1) of an element among the element children of its parent node
  that have its tag name.\<close>

definition tagNameAt :: "document \<Rightarrow> nodeRef \<Rightarrow> string" where
  "tagNameAt doc r = (case elementAt doc r of None \<Rightarrow> [] | Some d \<Rightarrow> tagName d)"

fun indexOf :: "'a list \<Rightarrow> 'a \<Rightarrow> int" where
  "indexOf [] x = -1"
| "indexOf (y # ys) x = (if y = x then 0 else (let i = indexOf ys x in if i < 0 then -1 else i + 1))"

definition sameTagSiblings :: "document \<Rightarrow> nodeRef \<Rightarrow> nodeRef list" where
  "sameTagSiblings doc r =
     filter (\<lambda>s. tagNameAt doc s = tagNameAt doc r) (childrenOf doc (parentNode r))"

fun matchesSimple :: "document \<Rightarrow> nodeRef \<Rightarrow> elementData \<Rightarrow> simpleSelector \<Rightarrow> bool" where
  "matchesSimple doc r d (TypeSelector t) = (asciiLowerCase (tagName d) = asciiLowerCase t)"
| "matchesSimple doc r d UniversalSelector = True"
| "matchesSimple doc r d (IdSelector i) = (elemId d = i)"
| "matchesSimple doc r d (ClassSelector c) = (c \<in> set (classList d))"
| "matchesSimple doc r d (AttributeEquals a v) = (map_of (attributes d) a = Some v)"
| "matchesSimple doc r d (NthOfType n) = (indexOf (sameTagSiblings doc r) r + 1 = int n)"

definition matchesCompound :: "document \<Rightarrow> compoundSelector \<Rightarrow> nodeRef \<Rightarrow> bool" where
  "matchesCompound doc c r =
     (case elementAt doc r of
        None \<Rightarrow> False
      | Some d \<Rightarrow> list_all (matchesSimple doc r d) c)"

text \<open>The element ancestors of an element inside its tree, nearest first.\<close>

fun ancestorsOf :: "nodeRef \<Rightarrow> nodeRef list" where
  "ancestorsOf [] = []"
| "ancestorsOf (ShadowStep # p) = []"
| "ancestorsOf (Child i # p) =
     (case p of Child j # q \<Rightarrow> p # ancestorsOf p | _ \<Rightarrow> [])"

fun matchesLeft :: "document \<Rightarrow> (combinator \<times> compoundSelector) list \<Rightarrow> nodeRef \<Rightarrow> bool" where
  "matchesLeft doc [] r = True"
| "matchesLeft doc ((ChildCombinator, c) # rest) r =
     (case parentElement r of
        None \<Rightarrow> False
      | Some p \<Rightarrow> matchesCompound doc c p \<and> matchesLeft doc rest p)"
| "matchesLeft doc ((DescendantCombinator, c) # rest) r =
     list_ex (\<lambda>a. matchesCompound doc c a \<and> matchesLeft doc rest a) (ancestorsOf r)"

definition matchesSelector ::
  "document \<Rightarrow> compoundSelector \<times> (combinator \<times> compoundSelector) list \<Rightarrow> nodeRef \<Rightarrow> bool" where
  "matchesSelector doc sel r =
     (case rightToLeft (fst sel) (snd sel) [] of
        (subject, others) \<Rightarrow> matchesCompound doc subject r \<and> matchesLeft doc others r)"

text \<open>\<^verbatim>\<open>querySelectorAll\<close> on a document or shadow root: \<open>None\<close> when the selector is
  rejected (a \<^verbatim>\<open>SyntaxError\<close> is thrown), otherwise the matching elements of the tree in
  document order.\<close>

definition querySelectorAll :: "document \<Rightarrow> nodeRef \<Rightarrow> string \<Rightarrow> nodeRef list option" where
  "querySelectorAll doc queryRoot selector =
     (case parseSelector selector of
        None \<Rightarrow> None
      | Some sel \<Rightarrow> Some (filter (matchesSelector doc sel) (elementsIn doc queryRoot)))"


section \<open>Locator\<close>

text \<open>
  Source: \<^verbatim>\<open>core/locator.ts\<close>. The functions take the document as an argument and are
  applied to references of elements of that document. \<^verbatim>\<open>debugSource\<close>, which no function
  of the locator reads or writes, is left out of \<open>elementLocator\<close>. The functions that
  build selectors take one more argument, \<open>hasCssEscape\<close>: whether \<^verbatim>\<open>CSS.escape\<close> is defined
  where the code runs, as it is in the pages the extension edits.
\<close>

record elementLocator =
  selectors :: "string list"
  fingerprint :: string
  path :: "nat list"
  frameChain :: "string list option"
  shadowHostChain :: "string list option"

definition DEFAULT_MAX_CANDIDATES :: nat where "DEFAULT_MAX_CANDIDATES = 5"
definition FINGERPRINT_TEXT_MAX_LENGTH :: nat where "FINGERPRINT_TEXT_MAX_LENGTH = 32"
definition FINGERPRINT_MAX_CLASSES :: nat where "FINGERPRINT_MAX_CLASSES = 8"
definition MAX_CLASS_COMBO_DEPTH :: nat where "MAX_CLASS_COMBO_DEPTH = 3"

definition UNIQUE_DATA_ATTRS :: "string list" where
  "UNIQUE_DATA_ATTRS =
     [''data-testid'', ''data-test-id'', ''data-test'', ''data-qa'', ''data-cy'',
      ''name'', ''title'', ''alt'']"

text \<open>
  The loop of the polyfill of \<^verbatim>\<open>cssEscape\<close> over the code units, at index \<open>i\<close>.
  \<^verbatim>\<open>CSS.escape\<close> of the platform (CSSOM, "serialize an identifier") is the same loop but
  for one clause: it keeps a code unit from \<open>0x80\<close> on as it is, which the polyfill
  escapes. \<open>keepNonAscii\<close> is \<open>False\<close> for the polyfill. NUL becomes \<open>U+FFFD\<close>.
\<close>

fun cssEscapeFrom :: "bool \<Rightarrow> nat \<Rightarrow> nat \<Rightarrow> nat \<Rightarrow> string \<Rightarrow> string" where
  "cssEscapeFrom keepNonAscii i len firstCodeUnit [] = []"
| "cssEscapeFrom keepNonAscii i len firstCodeUnit (c # cs) =
     (let u = codeUnit c in
      (if u = 0 then replacementCharacter
       else if (1 \<le> u \<and> u \<le> 0x1f) \<or> u = 0x7f
               \<or> (i = 0 \<and> 0x30 \<le> u \<and> u \<le> 0x39)
               \<or> (i = 1 \<and> 0x30 \<le> u \<and> u \<le> 0x39 \<and> firstCodeUnit = 0x2d)
       then backslash # toStringRadix 16 u @ '' ''
       else if i = 0 \<and> len = 1 \<and> u = 0x2d then [backslash, c]
       else if (0x30 \<le> u \<and> u \<le> 0x39) \<or> (0x41 \<le> u \<and> u \<le> 0x5a)
               \<or> (0x61 \<le> u \<and> u \<le> 0x7a) \<or> u = 0x2d \<or> u = 0x5f
               \<or> (keepNonAscii \<and> 0x80 \<le> u)
       then [c]
       else [backslash, c])
      @ cssEscapeFrom keepNonAscii (Suc i) len firstCodeUnit cs)"

text \<open>\<^verbatim>\<open>CSS.escape\<close>.\<close>

definition platformCssEscape :: "string \<Rightarrow> string" where
  "platformCssEscape v =
     (case v of [] \<Rightarrow> [] | c # cs \<Rightarrow> cssEscapeFrom True 0 (length v) (codeUnit c) v)"

definition cssEscape :: "bool \<Rightarrow> string \<Rightarrow> string" where
  "cssEscape hasCssEscape v =
     (if hasCssEscape then platformCssEscape v
      else (case v of [] \<Rightarrow> [] | c # cs \<Rightarrow> cssEscapeFrom False 0 (length v) (codeUnit c) v))"



definition getQueryRoot :: "nodeRef \<Rightarrow> nodeRef" where
  "getQueryRoot element =
     (let r = getRootNode element in if isShadowRoot r then r else [])"

definition safeQuerySelector :: "document \<Rightarrow> nodeRef \<Rightarrow> string \<Rightarrow> nodeRef option" where
  "safeQuerySelector doc queryRoot selector =
     (case querySelectorAll doc queryRoot selector of
        None \<Rightarrow> None
      | Some [] \<Rightarrow> None
      | Some (x # xs) \<Rightarrow> Some x)"

definition isUnique :: "document \<Rightarrow> nodeRef \<Rightarrow> string \<Rightarrow> bool" where
  "isUnique doc queryRoot selector =
     (case querySelectorAll doc queryRoot selector of
        None \<Rightarrow> False
      | Some xs \<Rightarrow> length xs = 1)"

definition tryIdSelector :: "bool \<Rightarrow> document \<Rightarrow> nodeRef \<Rightarrow> nodeRef \<Rightarrow> string option" where
  "tryIdSelector hasCssEscape doc element queryRoot =
     (case elementAt doc element of
        None \<Rightarrow> None
      | Some d \<Rightarrow>
          (let ident = trim (elemId d) in
           if ident = [] then None
           else (let selector = ''#'' @ cssEscape hasCssEscape ident
                 in if isUnique doc queryRoot selector then Some selector else None)))"

fun tryDataAttrs ::
  "bool \<Rightarrow> document \<Rightarrow> nodeRef \<Rightarrow> elementData \<Rightarrow> string \<Rightarrow> string list \<Rightarrow> string option" where
  "tryDataAttrs hasCssEscape doc queryRoot d tag [] = None"
| "tryDataAttrs hasCssEscape doc queryRoot d tag (attr # rest) =
     (case map_of (attributes d) attr of
        None \<Rightarrow> tryDataAttrs hasCssEscape doc queryRoot d tag rest
      | Some raw \<Rightarrow>
          (let v = trim raw in
           if v = [] then tryDataAttrs hasCssEscape doc queryRoot d tag rest
           else (let attrOnly = ''['' @ attr @ ''='' @ [dquote] @ cssEscape hasCssEscape v @ [dquote] @ '']''
                 in if isUnique doc queryRoot attrOnly then Some attrOnly
                    else (let withTag = tag @ attrOnly
                          in if isUnique doc queryRoot withTag then Some withTag
                             else tryDataAttrs hasCssEscape doc queryRoot d tag rest))))"

definition tryDataAttrSelector :: "bool \<Rightarrow> document \<Rightarrow> nodeRef \<Rightarrow> nodeRef \<Rightarrow> string option" where
  "tryDataAttrSelector hasCssEscape doc element queryRoot =
     (case elementAt doc element of
        None \<Rightarrow> None
      | Some d \<Rightarrow> tryDataAttrs hasCssEscape doc queryRoot d (toLowerCase (tagName d)) UNIQUE_DATA_ATTRS)"

text \<open>The test \<^verbatim>\<open>/^[a-zA-Z_][a-zA-Z0-9_-]*$/\<close>.\<close>

definition isSimpleClassName :: "string \<Rightarrow> bool" where
  "isSimpleClassName c =
     (case c of
        [] \<Rightarrow> False
      | x # xs \<Rightarrow>
          (isUpper x \<or> isLower x \<or> x = CHR ''_'')
          \<and> list_all (\<lambda>y. isUpper y \<or> isLower y \<or> isDigit y \<or> y = CHR ''_'' \<or> y = CHR ''-'') xs)"

definition tryClassSelector :: "bool \<Rightarrow> document \<Rightarrow> nodeRef \<Rightarrow> nodeRef \<Rightarrow> string option" where
  "tryClassSelector hasCssEscape doc element queryRoot =
     (case elementAt doc element of
        None \<Rightarrow> None
      | Some d \<Rightarrow>
          (let tag = toLowerCase (tagName d);
               classes = filter (\<lambda>c. c \<noteq> [] \<and> isSimpleClassName c) (classList d)
           in if classes = [] then None
              else (case find (isUnique doc queryRoot) (map (\<lambda>cls. ''.'' @ cssEscape hasCssEscape cls) classes) of
                      Some sel \<Rightarrow> Some sel
                    | None \<Rightarrow>
                       (case find (isUnique doc queryRoot)
                               (map (\<lambda>cls. tag @ ''.'' @ cssEscape hasCssEscape cls) classes) of
                          Some sel \<Rightarrow> Some sel
                        | None \<Rightarrow>
                            (let limit = min (length classes) MAX_CLASS_COMBO_DEPTH
                             in find (isUnique doc queryRoot)
                                  (concat (map (\<lambda>i. map (\<lambda>j. ''.'' @ cssEscape hasCssEscape (classes ! i)
                                                              @ ''.'' @ cssEscape hasCssEscape (classes ! j))
                                                     [i + 1..<limit])
                                            [0..<limit])))))))"

text \<open>Template-literal conversion of an integer.\<close>

definition numberToString :: "int \<Rightarrow> string" where
  "numberToString i =
     (if i < 0 then ''-'' @ toStringRadix 10 (nat (- i)) else toStringRadix 10 (nat i))"

lemma parentElement_shorter: "parentElement r = Some p \<Longrightarrow> length p < length r"
  by (cases r) (auto simp: parentElement_def split: list.splits step.splits)

text \<open>The loop of \<^verbatim>\<open>buildPathSelector\<close>; \<open>segments\<close> is the array built so far. The loop
  ends when \<open>current\<close> is \<^verbatim>\<open>null\<close> or not an element, and at \<open>body\<close> in a document. The
  parent element \<open>pe\<close> of \<open>st # p\<close>, when there is one, is \<open>p\<close>.\<close>

fun pathSegments :: "document \<Rightarrow> bool \<Rightarrow> nodeRef \<Rightarrow> string list \<Rightarrow> string list" where
  "pathSegments doc isDoc [] segments = segments"
| "pathSegments doc isDoc (st # p) segments =
     (let current = st # p in
      case elementAt doc current of
        None \<Rightarrow> segments
      | Some d \<Rightarrow>
          (let tag = toLowerCase (tagName d) in
           if isDoc \<and> tag = ''body'' then segments
           else (let parent = parentElement current;
                     pn = parentNode current;
                     siblings = (case parent of
                                   Some pe \<Rightarrow> childrenOf doc pe
                                 | None \<Rightarrow> if isShadowRoot pn \<or> isDocument pn
                                           then childrenOf doc pn else []);
                     sameTag = filter (\<lambda>s. tagNameAt doc s = tagName d) siblings;
                     selector = (if length sameTag > 1
                                 then tag @ '':nth-of-type(''
                                      @ numberToString (indexOf sameTag current + 1) @ '')''
                                 else tag)
                 in case parent of
                      None \<Rightarrow> selector # segments
                    | Some pe \<Rightarrow> pathSegments doc isDoc p (selector # segments))))"

declare pathSegments.simps [simp del]

definition buildPathSelector :: "document \<Rightarrow> nodeRef \<Rightarrow> nodeRef \<Rightarrow> string" where
  "buildPathSelector doc element queryRoot =
     (let isDoc = isDocument queryRoot;
          p = join '' > '' (pathSegments doc isDoc element [])
      in if isDoc then ''body > '' @ p else if p = [] then ''*'' else p)"

text \<open>\<^verbatim>\<open>push\<close> of \<^verbatim>\<open>generateSelectorCandidates\<close>.\<close>

definition pushCandidate :: "string option \<Rightarrow> string list \<Rightarrow> string list" where
  "pushCandidate selector candidates =
     (case selector of
        None \<Rightarrow> candidates
      | Some sel \<Rightarrow>
          if sel = [] then candidates
          else (let s = trim sel
                in if s = [] \<or> s \<in> set candidates then candidates else candidates @ [s]))"

definition generateSelectorCandidates ::
  "bool \<Rightarrow> document \<Rightarrow> nodeRef \<Rightarrow> nodeRef option \<Rightarrow> nat option \<Rightarrow> string list" where
  "generateSelectorCandidates hasCssEscape doc element rootOption maxOption =
     (let queryRoot = (case rootOption of Some r \<Rightarrow> r | None \<Rightarrow> getQueryRoot element);
          maxCandidates = max 1 (case maxOption of Some m \<Rightarrow> m | None \<Rightarrow> DEFAULT_MAX_CANDIDATES);
          c1 = pushCandidate (tryIdSelector hasCssEscape doc element queryRoot) [];
          c2 = pushCandidate (tryDataAttrSelector hasCssEscape doc element queryRoot) c1;
          c3 = pushCandidate (tryClassSelector hasCssEscape doc element queryRoot) c2;
          c4 = pushCandidate (Some (buildPathSelector doc element queryRoot)) c3
      in take maxCandidates c4)"

definition generateCssSelector :: "bool \<Rightarrow> document \<Rightarrow> nodeRef \<Rightarrow> nodeRef option \<Rightarrow> string" where
  "generateCssSelector hasCssEscape doc element rootOption =
     (case generateSelectorCandidates hasCssEscape doc element rootOption None of
        [] \<Rightarrow> []
      | s # rest \<Rightarrow> s)"

text \<open>The loop of \<^verbatim>\<open>getShadowHostChain\<close>.\<close>

function hostChainFrom :: "bool \<Rightarrow> document \<Rightarrow> nodeRef \<Rightarrow> string list \<Rightarrow> string list" where
  "hostChainFrom hasCssEscape doc current chain =
     (let r = getRootNode current in
      if \<not> isShadowRoot r then chain
      else (let host = tl r in
            if elementAt doc host = None then chain
            else (let hostRoot = getQueryRoot host;
                      hostSelector = generateCssSelector hasCssEscape doc host (Some hostRoot)
                  in if hostSelector = [] then chain
                     else hostChainFrom hasCssEscape doc host (hostSelector # chain))))"
  by pat_completeness auto
termination
proof (relation "measure (\<lambda>(hasCssEscape, doc, current, chain). length current)")
  show "wf (measure (\<lambda>(hasCssEscape :: bool, doc :: document, current :: nodeRef,
                        chain :: string list). length current))" by simp
next
  fix hasCssEscape :: bool and doc :: document and current :: nodeRef
    and chain :: "string list" and x xa xb xc
  assume "x = getRootNode current" "\<not> \<not> isShadowRoot x" "xa = tl x"
  then obtain h where "x = ShadowStep # h" "xa = h" "x = getRootNode current"
    by (auto simp: isShadowRoot_def split: list.splits step.splits)
  then have "length xa < length current"
    using length_dropWhile_le [of "\<lambda>s. s \<noteq> ShadowStep" current]
    by (simp add: getRootNode_def)
  then show "((hasCssEscape, doc, xa, xc # chain), hasCssEscape, doc, current, chain)
        \<in> measure (\<lambda>(hasCssEscape, doc, current, chain). length current)" by simp
qed

declare hostChainFrom.simps [simp del]

definition getShadowHostChain :: "bool \<Rightarrow> document \<Rightarrow> nodeRef \<Rightarrow> string list option" where
  "getShadowHostChain hasCssEscape doc element =
     (let chain = hostChainFrom hasCssEscape doc element [] in if chain = [] then None else Some chain)"


text \<open>\<^verbatim>\<open>text.replace(/\s+/g, ' ')\<close>: every run of white space becomes one space.\<close>

function collapseWhitespace :: "string \<Rightarrow> string" where
  "collapseWhitespace [] = []"
| "collapseWhitespace (c # cs) =
     (if isWhitespace c then CHR '' '' # collapseWhitespace (dropWhile isWhitespace cs)
      else c # collapseWhitespace cs)"
  by pat_completeness auto
termination
  by (relation "measure length") (auto simp: less_Suc_eq_le length_dropWhile_le)

definition normalizeText :: "string \<Rightarrow> nat \<Rightarrow> string" where
  "normalizeText t maxLength = take maxLength (trim (collapseWhitespace t))"

definition computeFingerprint :: "document \<Rightarrow> nodeRef \<Rightarrow> string" where
  "computeFingerprint doc element =
     (case elementAt doc element of
        None \<Rightarrow> ''unknown''
      | Some d \<Rightarrow>
          (let p1 = [toLowerCase (tagName d)];
               ident = trim (elemId d);
               p2 = (if ident \<noteq> [] then p1 @ [''id='' @ ident] else p1);
               classes = take FINGERPRINT_MAX_CLASSES (classList d);
               p3 = (if length classes > 0 then p2 @ [''class='' @ join ''.'' classes] else p2);
               t = normalizeText (textContent doc element) FINGERPRINT_TEXT_MAX_LENGTH;
               p4 = (if t \<noteq> [] then p3 @ [''text='' @ t] else p3)
           in join ''|'' p4))"

text \<open>The loop of \<^verbatim>\<open>computeDomPath\<close>. The parent element of \<open>st # p\<close>, when there is
  one, is \<open>p\<close>.\<close>

fun domPathFrom :: "document \<Rightarrow> nodeRef \<Rightarrow> nat list \<Rightarrow> nat list" where
  "domPathFrom doc [] acc = acc"
| "domPathFrom doc (st # p) acc =
     (let current = st # p in
      case parentElement current of
        Some pe \<Rightarrow>
          (let i = indexOf (childrenOf doc pe) current
           in domPathFrom doc p (if i \<ge> 0 then nat i # acc else acc))
      | None \<Rightarrow>
          (let pn = parentNode current in
           if isShadowRoot pn \<or> isDocument pn
           then (let i = indexOf (childrenOf doc pn) current
                 in if i \<ge> 0 then nat i # acc else acc)
           else acc))"

definition computeDomPath :: "document \<Rightarrow> nodeRef \<Rightarrow> nat list" where
  "computeDomPath doc element = domPathFrom doc element []"

definition createElementLocator :: "bool \<Rightarrow> document \<Rightarrow> nodeRef \<Rightarrow> elementLocator" where
  "createElementLocator hasCssEscape doc element =
     (let queryRoot = getQueryRoot element in
      \<lparr> selectors = generateSelectorCandidates hasCssEscape doc element (Some queryRoot)
                      (Some DEFAULT_MAX_CANDIDATES),
        fingerprint = computeFingerprint doc element,
        path = computeDomPath doc element,
        frameChain = None,
        shadowHostChain = getShadowHostChain hasCssEscape doc element \<rparr>)"

definition isSelectorUnique :: "document \<Rightarrow> nodeRef \<Rightarrow> string \<Rightarrow> bool" where
  "isSelectorUnique doc queryRoot selector =
     (case querySelectorAll doc queryRoot selector of
        None \<Rightarrow> False
      | Some xs \<Rightarrow> length xs = 1)"

definition verifyFingerprint :: "document \<Rightarrow> nodeRef \<Rightarrow> string \<Rightarrow> bool" where
  "verifyFingerprint doc element fp =
     (let currentFingerprint = computeFingerprint doc element;
          storedParts = split (CHR ''|'') fp;
          currentParts = split (CHR ''|'') currentFingerprint
      in if hd storedParts \<noteq> hd currentParts then False
         else (let storedId = find (\<lambda>p. startsWith p ''id='') storedParts;
                   currentId = find (\<lambda>p. startsWith p ''id='') currentParts
               in if storedId \<noteq> None \<and> storedId \<noteq> currentId then False else True))"

text \<open>The traversal of the shadow host chain in \<^verbatim>\<open>locateElement\<close>: the query root
  reached, or \<open>None\<close> where the source returns \<^verbatim>\<open>null\<close>.\<close>

fun resolveHostChain :: "document \<Rightarrow> nodeRef \<Rightarrow> string list \<Rightarrow> nodeRef option" where
  "resolveHostChain doc queryRoot [] = Some queryRoot"
| "resolveHostChain doc queryRoot (hostSelector # rest) =
     (if \<not> isSelectorUnique doc queryRoot hostSelector then None
      else (case safeQuerySelector doc queryRoot hostSelector of
              None \<Rightarrow> None
            | Some host \<Rightarrow>
                (case shadowRootOf doc host of
                   None \<Rightarrow> None
                 | Some shadowRoot \<Rightarrow> resolveHostChain doc shadowRoot rest)))"

text \<open>The loop over the selector candidates in \<^verbatim>\<open>locateElement\<close>.\<close>

fun tryCandidates :: "document \<Rightarrow> nodeRef \<Rightarrow> string \<Rightarrow> string list \<Rightarrow> nodeRef option" where
  "tryCandidates doc queryRoot fp [] = None"
| "tryCandidates doc queryRoot fp (selector # rest) =
     (if \<not> isSelectorUnique doc queryRoot selector then tryCandidates doc queryRoot fp rest
      else (case safeQuerySelector doc queryRoot selector of
              None \<Rightarrow> tryCandidates doc queryRoot fp rest
            | Some element \<Rightarrow>
                if fp \<noteq> [] \<and> \<not> verifyFingerprint doc element fp
                then tryCandidates doc queryRoot fp rest
                else Some element))"

text \<open>\<^verbatim>\<open>locateElement(locator)\<close> with the default \<^verbatim>\<open>rootDocument\<close>. Each hop of a frame
  chain returns \<^verbatim>\<open>null\<close> when the selected node is not a frame or its
  \<^verbatim>\<open>contentDocument\<close> is \<^verbatim>\<open>null\<close>; in the documents modelled one of the two holds, so a
  locator with a non-empty frame chain resolves to \<^verbatim>\<open>null\<close>.\<close>

definition locateElement :: "document \<Rightarrow> elementLocator \<Rightarrow> nodeRef option" where
  "locateElement doc locator =
     (case frameChain locator of
        Some (frameSelector # frames) \<Rightarrow> None
      | _ \<Rightarrow>
          (case resolveHostChain doc []
                  (case shadowHostChain locator of None \<Rightarrow> [] | Some chain \<Rightarrow> chain) of
             None \<Rightarrow> None
           | Some queryRoot \<Rightarrow>
               tryCandidates doc queryRoot (fingerprint locator) (selectors locator)))"

definition locatorKey :: "elementLocator \<Rightarrow> string" where
  "locatorKey locator =
     (let sel = join ''|'' (selectors locator);
          shadow = (case shadowHostChain locator of Some c \<Rightarrow> join ''>'' c | None \<Rightarrow> []);
          frame = (case frameChain locator of Some c \<Rightarrow> join ''>'' c | None \<Rightarrow> [])
      in ''frame:'' @ frame @ ''|shadow:'' @ shadow @ ''|sel:'' @ sel)"


text \<open>
  The resolution of a shadow host chain in the words of the specification: every hop's
  host selector matches exactly one element of the current query root, and that host
  exposes a shadow root, which is the query root of the next hop.
\<close>

inductive hostChainResolves :: "document \<Rightarrow> nodeRef \<Rightarrow> string list \<Rightarrow> nodeRef \<Rightarrow> bool" where
  resolvesNil: "hostChainResolves doc r [] r"
| resolvesHop:
    "querySelectorAll doc r hostSelector = Some [host]
     \<Longrightarrow> nodeAt doc host = Some (ElementNode d cs (Some (OpenMode, scs)))
     \<Longrightarrow> hostChainResolves doc (ShadowStep # host) rest r'
     \<Longrightarrow> hostChainResolves doc r (hostSelector # rest) r'"

inductive_cases hostChainResolves_NilE: "hostChainResolves doc r [] r'"
inductive_cases hostChainResolves_ConsE: "hostChainResolves doc r (s # rest) r'"

text \<open>Example documents. \<open>elem\<close> builds an element without attributes and with an empty
  inline style, \<open>hostElem\<close> a shadow host. \<open>shadowDoc\<close> is
  \<^verbatim>\<open><html><body><x-w>#shadow-root(open)<span id="in"></x-w><x-c>#shadow-root(closed)<button id="go"></x-c></body></html>\<close>.\<close>

definition elem :: "string \<Rightarrow> string \<Rightarrow> string list \<Rightarrow> node list \<Rightarrow> node" where
  "elem tag ident classes cs =
     ElementNode \<lparr> tagName = tag, elemId = ident, classList = classes, attributes = [],
                   inlineStyle = Some [] \<rparr> cs None"

definition hostElem :: "string \<Rightarrow> shadowRootMode \<Rightarrow> node list \<Rightarrow> node" where
  "hostElem tag m scs =
     ElementNode \<lparr> tagName = tag, elemId = [], classList = [], attributes = [],
                   inlineStyle = Some [] \<rparr> [] (Some (m, scs))"

definition shadowDoc :: document where
  "shadowDoc =
     [elem ''HTML'' [] []
        [elem ''BODY'' [] []
           [hostElem ''X-W'' OpenMode [elem ''SPAN'' ''in'' [] []],
            hostElem ''X-C'' ClosedMode [elem ''BUTTON'' ''go'' [] []]]]]"

definition innerSpan :: nodeRef where
  "innerSpan = [Child 0, ShadowStep, Child 0, Child 0, Child 0]"


subsection \<open>Resolution through the shadow host chain\<close>

lemma unique_query:
  "isSelectorUnique doc r s \<Longrightarrow> safeQuerySelector doc r s = Some h
   \<Longrightarrow> querySelectorAll doc r s = Some [h]"
  by (auto simp: isSelectorUnique_def safeQuerySelector_def length_Suc_conv
      split: option.splits list.splits)

lemma shadowRootOf_Some:
  "shadowRootOf doc h = Some sr \<longleftrightarrow>
     sr = ShadowStep # h \<and> (\<exists>d cs scs. nodeAt doc h = Some (ElementNode d cs (Some (OpenMode, scs))))"
  by (auto simp: shadowRootOf_def split: option.splits node.splits shadowRootMode.splits)

lemma resolveHostChain_sound:
  "resolveHostChain doc r chain = Some r' \<Longrightarrow> hostChainResolves doc r chain r'"
proof (induction chain arbitrary: r)
  case Nil
  then show ?case by (simp add: resolvesNil)
next
  case (Cons s rest)
  from Cons.prems have u: "isSelectorUnique doc r s"
    by (simp split: if_splits)
  with Cons.prems obtain h where h: "safeQuerySelector doc r s = Some h"
    by (auto split: option.splits)
  with u Cons.prems obtain sr where sr: "shadowRootOf doc h = Some sr"
    and rest: "resolveHostChain doc sr rest = Some r'"
    by (auto split: option.splits)
  from sr obtain d cs scs where n: "nodeAt doc h = Some (ElementNode d cs (Some (OpenMode, scs)))"
    and srh: "sr = ShadowStep # h"
    by (auto simp: shadowRootOf_Some)
  from Cons.IH [OF rest] srh have "hostChainResolves doc (ShadowStep # h) rest r'" by simp
  with unique_query [OF u h] n show ?case by (rule resolvesHop)
qed


lemma tryCandidates_Some:
  "tryCandidates doc r fp sels = Some e
   \<Longrightarrow> \<exists>sel \<in> set sels. querySelectorAll doc r sel = Some [e]"
proof (induction sels)
  case Nil
  then show ?case by simp
next
  case (Cons s rest)
  show ?case
  proof (cases "isSelectorUnique doc r s \<and> safeQuerySelector doc r s = Some e")
    case True
    then have "querySelectorAll doc r s = Some [e]" by (simp add: unique_query)
    then show ?thesis by simp
  next
    case False
    with Cons.prems have "tryCandidates doc r fp rest = Some e"
      by (auto split: if_splits option.splits)
    with Cons.IH show ?thesis by simp
  qed
qed

lemma elementsBelow_shape:
  "e \<in> set (elementsBelow p i ns) \<Longrightarrow> \<exists>cs. e = cs @ p \<and> cs \<noteq> [] \<and> ShadowStep \<notin> set cs"
proof (induction p i ns arbitrary: e rule: elementsBelow.induct)
  case (1 p i)
  then show ?case by simp
next
  case (2 p i t ns)
  then show ?case by simp
next
  case (3 p i d cs sh ns)
  from "3.prems" consider "e = Child i # p" | "e \<in> set (elementsBelow (Child i # p) 0 cs)"
    | "e \<in> set (elementsBelow p (Suc i) ns)" by auto
  then show ?case
  proof cases
    case 1
    then have "e = [Child i] @ p \<and> [Child i] \<noteq> [] \<and> ShadowStep \<notin> set [Child i]" by simp
    then show ?thesis by blast
  next
    case 2
    from "3.IH"(1) [OF 2] obtain ds where "e = ds @ Child i # p" "ShadowStep \<notin> set ds" by blast
    then have "e = (ds @ [Child i]) @ p \<and> ds @ [Child i] \<noteq> [] \<and> ShadowStep \<notin> set (ds @ [Child i])"
      by simp
    then show ?thesis by blast
  next
    case 3
    from "3.IH"(2) [OF 3] show ?thesis .
  qed
qed

lemma query_result_root:
  assumes "querySelectorAll doc r sel = Some xs" "e \<in> set xs" "r = [] \<or> isShadowRoot r"
  shows "getRootNode e = r"
proof -
  from assms(1,2) have "e \<in> set (elementsIn doc r)"
    by (auto simp: querySelectorAll_def split: option.splits)
  then obtain ns where "e \<in> set (elementsBelow r 0 ns)"
    by (auto simp: elementsIn_def split: option.splits)
  from elementsBelow_shape [OF this] obtain cs where e: "e = cs @ r" "ShadowStep \<notin> set cs" by blast
  have "ShadowStep \<notin> set cs \<Longrightarrow>
        dropWhile (\<lambda>s. s \<noteq> ShadowStep) (cs @ r) = dropWhile (\<lambda>s. s \<noteq> ShadowStep) r"
    by (induction cs) auto
  with e have "dropWhile (\<lambda>s. s \<noteq> ShadowStep) (cs @ r) = dropWhile (\<lambda>s. s \<noteq> ShadowStep) r"
    by simp
  moreover have "dropWhile (\<lambda>s. s \<noteq> ShadowStep) r = r"
    using assms(3) by (auto simp: isShadowRoot_def split: list.splits step.splits)
  ultimately show ?thesis using e by (simp add: getRootNode_def)
qed

lemma hostChainResolves_shadow:
  "hostChainResolves doc r chain r' \<Longrightarrow> chain \<noteq> [] \<Longrightarrow> isShadowRoot r'"
proof (induction rule: hostChainResolves.induct)
  case (resolvesNil doc r)
  then show ?case by simp
next
  case (resolvesHop doc r hostSelector host d cs scs rest r')
  show ?case
  proof (cases "rest = []")
    case True
    with resolvesHop.hyps(3) have "r' = ShadowStep # host"
      by (auto elim: hostChainResolves_NilE)
    then show ?thesis by (simp add: isShadowRoot_def)
  next
    case False
    with resolvesHop.IH show ?thesis by simp
  qed
qed

lemma innerSpan_locator:
  "createElementLocator True shadowDoc innerSpan =
     \<lparr> selectors = [''#in'', ''span''], fingerprint = ''span|id=in'', path = [0],
       frameChain = None, shadowHostChain = Some [''body > x-w''] \<rparr>"
  by code_simp

lemma innerSpan_located:
  "locateElement shadowDoc
     \<lparr> selectors = [''#in'', ''span''], fingerprint = ''span|id=in'', path = [0],
       frameChain = None, shadowHostChain = Some [''body > x-w''] \<rparr> = Some innerSpan"
  by code_simp


lemma closedButton_not_located:
  "locateElement shadowDoc
     \<lparr> selectors = [''#go'', ''button''], fingerprint = ''button|id=go'', path = [0],
       frameChain = None, shadowHostChain = Some [''body > x-c''] \<rparr> = None"
  by code_simp


text \<open>
  Claim C6. For a locator with a non-empty shadow host chain, \<^verbatim>\<open>locateElement\<close> returns an
  element only if the whole chain resolves, hop by hop, each host selector matching
  exactly one element of the current query root and the host exposing its shadow root;
  the element returned lies in the shadow root reached by the last hop and is the only
  match of one of the locator's selectors there. If the chain does not resolve,
  \<^verbatim>\<open>locateElement\<close> returns \<^verbatim>\<open>null\<close>.
\<close>

theorem locateElement_requires_host_chain:
  assumes "shadowHostChain locator = Some chain" and "chain \<noteq> []"
  shows "(locateElement doc locator = Some e \<longrightarrow>
            (\<exists>r. hostChainResolves doc [] chain r \<and> isShadowRoot r \<and> getRootNode e = r
                 \<and> (\<exists>sel \<in> set (selectors locator). querySelectorAll doc r sel = Some [e])))
       \<and> ((\<nexists>r. hostChainResolves doc [] chain r) \<longrightarrow> locateElement doc locator = None)"
proof -
  have a: "locateElement doc locator = Some e \<longrightarrow>
            (\<exists>r. hostChainResolves doc [] chain r \<and> isShadowRoot r \<and> getRootNode e = r
                 \<and> (\<exists>sel \<in> set (selectors locator). querySelectorAll doc r sel = Some [e]))"
  proof
    assume l: "locateElement doc locator = Some e"
    then obtain r where r: "resolveHostChain doc [] chain = Some r"
      and t: "tryCandidates doc r (fingerprint locator) (selectors locator) = Some e"
      using assms(1)
      by (auto simp: locateElement_def split: option.splits list.splits)
    have h: "hostChainResolves doc [] chain r" using r by (rule resolveHostChain_sound)
    have sr: "isShadowRoot r" using hostChainResolves_shadow [OF h assms(2)] .
    then have root: "r = [] \<or> isShadowRoot r" by simp
    from tryCandidates_Some [OF t] obtain sel where sel: "sel \<in> set (selectors locator)"
      "querySelectorAll doc r sel = Some [e]" by blast
    from query_result_root [OF sel(2) _ root] have "getRootNode e = r" by simp
    with h sr sel show "\<exists>r. hostChainResolves doc [] chain r \<and> isShadowRoot r \<and> getRootNode e = r
                 \<and> (\<exists>sel \<in> set (selectors locator). querySelectorAll doc r sel = Some [e])"
      by blast
  qed
  have b: "(\<nexists>r. hostChainResolves doc [] chain r) \<longrightarrow> locateElement doc locator = None"
  proof
    assume n: "\<nexists>r. hostChainResolves doc [] chain r"
    have "resolveHostChain doc [] chain = None"
    proof (cases "resolveHostChain doc [] chain")
      case None
      then show ?thesis .
    next
      case (Some r)
      from resolveHostChain_sound [OF this] n show ?thesis by blast
    qed
    then show "locateElement doc locator = None"
      using assms(1) by (simp add: locateElement_def split: option.splits list.splits)
  qed
  from a b show ?thesis by blast
qed



theorem locateElement_requires_host_chain_witness:
  "shadowHostChain (createElementLocator True shadowDoc innerSpan) = Some [''body > x-w'']
   \<and> locateElement shadowDoc (createElementLocator True shadowDoc innerSpan) = Some innerSpan
   \<and> (\<exists>r. hostChainResolves shadowDoc [] [''body > x-w''] r \<and> isShadowRoot r
           \<and> getRootNode innerSpan = r)"
  using locateElement_requires_host_chain
    [of "createElementLocator True shadowDoc innerSpan" "[''body > x-w'']" shadowDoc innerSpan]
  by (auto simp add: innerSpan_locator innerSpan_located)


text \<open>\<open>pageDoc\<close> is
  \<^verbatim>\<open><html><head></head><body><div id=" go "></div><div id="go"></div><button id="ok">Go</button></body></html>\<close>.\<close>

definition pageDoc :: document where
  "pageDoc =
     [elem ''HTML'' [] []
        [elem ''HEAD'' [] [] [],
         elem ''BODY'' [] []
           [elem ''DIV'' '' go '' [] [],
            elem ''DIV'' ''go'' [] [],
            elem ''BUTTON'' ''ok'' [] [TextNode ''Go'']]]]"

definition htmlElement :: nodeRef where "htmlElement = [Child 0]"
definition bodyElement :: nodeRef where "bodyElement = [Child 1, Child 0]"
definition okButton :: nodeRef where "okButton = [Child 2, Child 1, Child 0]"



subsection \<open>Escaped identifiers\<close>

paragraph \<open>Hexadecimal digits\<close>


lemma codeUnit_char_of: "n < 256 \<Longrightarrow> codeUnit (char_of n) = n"
  by (simp add: codeUnit_def)

lemma char_of_codeUnit [simp]: "char_of (codeUnit c) = c"
  by (simp add: codeUnit_def)

lemma codeUnit_eq_iff: "n < 256 \<Longrightarrow> (codeUnit c = n) = (c = char_of n)"
  using codeUnit_char_of by auto









paragraph \<open>The units of an escaped identifier\<close>












paragraph \<open>The start of an escaped identifier\<close>









paragraph \<open>The id selector\<close>










subsection \<open>Id selectors and the structural path\<close>























lemma bodyElement_path: "buildPathSelector pageDoc bodyElement [] = ''body > ''"
  by code_simp

lemma bodyElement_selectors:
  "selectors (createElementLocator True pageDoc bodyElement) = [''body >'']"
  "selectors (createElementLocator False pageDoc bodyElement) = [''body >'']"
  by code_simp+

lemma bodyElement_query:
  "querySelectorAll pageDoc [] ''body > '' = None"
  "querySelectorAll pageDoc [] ''body >'' = None"
  by code_simp+

lemma bodyElement_unresolved:
  "locateElement pageDoc (createElementLocator True pageDoc bodyElement) = None"
  "locateElement pageDoc (createElementLocator False pageDoc bodyElement) = None"
  by code_simp+

lemma htmlElement_path:
  "buildPathSelector pageDoc htmlElement [] = ''body > html''"
  "querySelectorAll pageDoc [] ''body > html'' = Some []"
  by code_simp+

text \<open>
  Claim C7 at the body element and at the root element of \<open>pageDoc\<close>. For \<open>body\<close> the loop
  of \<^verbatim>\<open>buildPathSelector\<close> stops before the first segment, the result is \<open>"body > "\<close>,
  stored as \<open>"body >"\<close>, which \<^verbatim>\<open>querySelectorAll\<close> rejects, and the locator does not
  resolve, whether \<^verbatim>\<open>CSS.escape\<close> is defined or not. For \<open>html\<close> the result is
  \<open>"body > html"\<close>, which matches no element.
\<close>

theorem buildPathSelector_body_unresolvable:
  "buildPathSelector pageDoc bodyElement [] = ''body > ''
   \<and> querySelectorAll pageDoc [] ''body > '' = None
   \<and> selectors (createElementLocator hasCssEscape pageDoc bodyElement) = [''body >'']
   \<and> querySelectorAll pageDoc [] ''body >'' = None
   \<and> locateElement pageDoc (createElementLocator hasCssEscape pageDoc bodyElement) = None
   \<and> buildPathSelector pageDoc htmlElement [] = ''body > html''
   \<and> querySelectorAll pageDoc [] ''body > html'' = Some []"
  by (cases hasCssEscape)
     (simp_all add: bodyElement_path bodyElement_selectors bodyElement_query
        bodyElement_unresolved htmlElement_path)


section \<open>Transaction manager\<close>

text \<open>
  Source: the transaction manager (\<^verbatim>\<open>createTransactionManager\<close>). A \<^verbatim>\<open>styles\<close> object is an
  association list, one pair per key, in the order of \<^verbatim>\<open>Object.entries\<close>. \<^verbatim>\<open>moveData\<close> and
  \<^verbatim>\<open>structureData\<close>, which the manager neither reads nor writes, are left out of
  \<open>transaction\<close>. Time stamps are integers, as \<^verbatim>\<open>Date.now()\<close> returns them, and so is the
  option \<^verbatim>\<open>mergeWindowMs\<close>, a number of milliseconds; the option \<^verbatim>\<open>maxHistory\<close> is any
  number. Each reading of \<^verbatim>\<open>now()\<close> is an argument of the operation that takes it.

  The \<open>world\<close> is what the operations share: the live document, the two stacks, the
  disposal flag, the module's counter \<^verbatim>\<open>transactionSeq\<close>, and what the manager reports: the
  events passed to \<^verbatim>\<open>onChange\<close> and the messages of the errors passed to \<^verbatim>\<open>onApplyError\<close>,
  oldest first. An inline style object stores the value it is given: \<^verbatim>\<open>setProperty\<close>
  replaces or appends the declaration, \<^verbatim>\<open>removeProperty\<close> deletes it.
\<close>

datatype transactionType = StyleTx | TextTx | MoveTx | StructureTx

record transactionSnapshot =
  locator :: elementLocator
  html :: "string option"
  styles :: "(string \<times> string) list option"
  snapshotText :: "string option"

record transaction =
  txId :: string
  txType :: transactionType
  targetLocator :: elementLocator
  before :: transactionSnapshot
  after :: transactionSnapshot
  timestamp :: int
  merged :: bool

datatype transactionChangeAction =
  PushAction | MergeAction | UndoAction | RedoAction | ClearAction | RollbackAction

record transactionChangeEvent =
  action :: transactionChangeAction
  eventTransaction :: "transaction option"
  undoCount :: nat
  redoCount :: nat

record transactionManagerOptions =
  maxHistoryOption :: "number option"
  mergeWindowMsOption :: "int option"

definition DEFAULT_MAX_HISTORY :: number where "DEFAULT_MAX_HISTORY = Finite 100"
definition DEFAULT_MERGE_WINDOW_MS :: int where "DEFAULT_MERGE_WINDOW_MS = 800"

definition maxHistory :: "transactionManagerOptions \<Rightarrow> number" where
  "maxHistory options =
     mathMax (Finite 1)
       (case maxHistoryOption options of Some n \<Rightarrow> n | None \<Rightarrow> DEFAULT_MAX_HISTORY)"

definition mergeWindowMs :: "transactionManagerOptions \<Rightarrow> int" where
  "mergeWindowMs options =
     max 0 (case mergeWindowMsOption options of Some n \<Rightarrow> n | None \<Rightarrow> DEFAULT_MERGE_WINDOW_MS)"

record world =
  dom :: document
  undoStack :: "transaction list"
  redoStack :: "transaction list"
  managerDisposed :: bool
  transactionSeq :: nat
  changeEvents :: "transactionChangeEvent list"
  applyErrors :: "string list"

definition createTransactionManager :: "document \<Rightarrow> nat \<Rightarrow> world" where
  "createTransactionManager doc seq =
     \<lparr> dom = doc, undoStack = [], redoStack = [], managerDisposed = False,
       transactionSeq = seq, changeEvents = [], applyErrors = [] \<rparr>"

definition normalizePropertyName :: "string \<Rightarrow> string" where
  "normalizePropertyName property =
     (let p = trim property in
      if p = [] then []
      else if startsWith p ''--'' then p
      else if CHR ''-'' \<in> set p then toLowerCase p
      else toLowerCase (concat (map (\<lambda>c. if isUpper c then [CHR ''-'', toLowerChar c] else [c]) p)))"

definition getInlineStyle :: "document \<Rightarrow> nodeRef \<Rightarrow> (string \<times> string) list option" where
  "getInlineStyle doc element =
     (case elementAt doc element of None \<Rightarrow> None | Some d \<Rightarrow> inlineStyle d)"

definition getPropertyValue :: "(string \<times> string) list \<Rightarrow> string \<Rightarrow> string" where
  "getPropertyValue style prop = (case map_of style prop of None \<Rightarrow> [] | Some v \<Rightarrow> v)"

definition setProperty :: "(string \<times> string) list \<Rightarrow> string \<Rightarrow> string \<Rightarrow> (string \<times> string) list" where
  "setProperty style prop v = AList.update prop v style"

definition removeProperty :: "(string \<times> string) list \<Rightarrow> string \<Rightarrow> (string \<times> string) list" where
  "removeProperty style prop = AList.delete prop style"

definition readStyleValue :: "(string \<times> string) list \<Rightarrow> string \<Rightarrow> string" where
  "readStyleValue style property =
     (let prop = normalizePropertyName property in
      if prop = [] then [] else trim (getPropertyValue style prop))"

definition writeStyleValue ::
  "(string \<times> string) list \<Rightarrow> string \<Rightarrow> string \<Rightarrow> (string \<times> string) list" where
  "writeStyleValue style property v0 =
     (let prop = normalizePropertyName property in
      if prop = [] then style
      else (let v = trim v0 in
            if v = [] then removeProperty style prop else setProperty style prop v))"

definition applyStylesSnapshot ::
  "document \<Rightarrow> nodeRef \<Rightarrow> (string \<times> string) list option \<Rightarrow> document" where
  "applyStylesSnapshot doc element stylesOption =
     (case stylesOption of
        None \<Rightarrow> doc
      | Some entries \<Rightarrow>
          (case getInlineStyle doc element of
             None \<Rightarrow> doc
           | Some style0 \<Rightarrow>
               updateElement element
                 (\<lambda>d. d\<lparr>inlineStyle :=
                          Some (foldl (\<lambda>style (property, v). writeStyleValue style property v)
                                  style0 entries)\<rparr>)
                 doc))"

definition toString36 :: "int \<Rightarrow> string" where
  "toString36 i =
     (if i < 0 then ''-'' @ toStringRadix 36 (nat (- i)) else toStringRadix 36 (nat i))"

text \<open>\<^verbatim>\<open>generateTransactionId\<close>: the id and the incremented counter.\<close>

definition generateTransactionId :: "int \<Rightarrow> nat \<Rightarrow> string \<times> nat" where
  "generateTransactionId ts seq =
     (let seq' = seq + 1
      in (''tx_'' @ toString36 ts @ ''_'' @ toString36 (int seq'), seq'))"

definition createStyleTransaction ::
  "string \<Rightarrow> elementLocator \<Rightarrow> string \<Rightarrow> string \<Rightarrow> string \<Rightarrow> int \<Rightarrow> transaction" where
  "createStyleTransaction ident loc property beforeValue afterValue ts =
     (let prop = normalizePropertyName property;
          beforeSnapshot = \<lparr> locator = loc, html = None, styles = Some [(prop, beforeValue)],
                             snapshotText = None \<rparr>;
          afterSnapshot = \<lparr> locator = loc, html = None, styles = Some [(prop, afterValue)],
                            snapshotText = None \<rparr>
      in \<lparr> txId = ident, txType = StyleTx, targetLocator = loc, before = beforeSnapshot,
           after = afterSnapshot, timestamp = ts, merged = False \<rparr>)"

definition styleKeys :: "transactionSnapshot \<Rightarrow> string list" where
  "styleKeys snapshot = (case styles snapshot of None \<Rightarrow> [] | Some st \<Rightarrow> map fst st)"

definition getSingleStyleProperty :: "transaction \<Rightarrow> string option" where
  "getSingleStyleProperty tx =
     (case remdups (styleKeys (before tx) @ styleKeys (after tx)) of
        [k] \<Rightarrow> Some k
      | _ \<Rightarrow> None)"

definition canMerge :: "transaction \<Rightarrow> transaction \<Rightarrow> int \<Rightarrow> bool" where
  "canMerge prev next window =
     (if txType prev \<noteq> StyleTx \<or> txType next \<noteq> StyleTx then False
      else if \<bar>timestamp next - timestamp prev\<bar> > window then False
      else if locatorKey (targetLocator prev) \<noteq> locatorKey (targetLocator next) then False
      else (let prevProp = getSingleStyleProperty prev;
                nextProp = getSingleStyleProperty next
            in if prevProp = None \<or> prevProp = Some [] \<or> nextProp = None \<or> nextProp = Some []
                  \<or> prevProp \<noteq> nextProp
               then False else True))"

text \<open>\<^verbatim>\<open>mergeInto\<close>: \<open>None\<close> when the source returns \<^verbatim>\<open>false\<close>, otherwise \<open>prev\<close> as
  rewritten in place.\<close>

definition mergeInto :: "transaction \<Rightarrow> transaction \<Rightarrow> transaction option" where
  "mergeInto prev next =
     (case getSingleStyleProperty prev of
        None \<Rightarrow> None
      | Some prop \<Rightarrow>
          if prop = [] then None
          else (case (case styles (after next) of None \<Rightarrow> None | Some st \<Rightarrow> map_of st prop) of
                  None \<Rightarrow> None
                | Some nextValue \<Rightarrow>
                    Some (prev\<lparr> after := (after prev)\<lparr> styles :=
                                   Some (AList.update prop nextValue
                                          (case styles (after prev) of None \<Rightarrow> [] | Some st \<Rightarrow> st)) \<rparr>,
                                timestamp := timestamp next,
                                merged := True \<rparr>)))"

definition applyTransaction :: "document \<Rightarrow> transaction \<Rightarrow> bool \<Rightarrow> bool \<times> document" where
  "applyTransaction doc tx isUndo =
     (if txType tx \<noteq> StyleTx then (True, doc)
      else (case locateElement doc (targetLocator tx) of
              None \<Rightarrow> (False, doc)
            | Some tgt \<Rightarrow>
                (let snapshot = (if isUndo then before tx else after tx)
                 in (True, applyStylesSnapshot doc tgt (styles snapshot)))))"

definition emit :: "transactionChangeAction \<Rightarrow> transaction option \<Rightarrow> world \<Rightarrow> world" where
  "emit act tx w =
     w\<lparr>changeEvents := changeEvents w @
          [\<lparr> action = act, eventTransaction = tx, undoCount = length (undoStack w),
             redoCount = length (redoStack w) \<rparr>]\<rparr>"

text \<open>
  \<open>arrayLength\<close> is the \<^verbatim>\<open>length\<close> of an array, a number; an array holds fewer than \<open>2\<^sup>3\<^sup>2\<close>
  elements. \<^verbatim>\<open>splice(0, deleteCount)\<close> removes elements from the front of an array of
  \<open>len\<close> elements: as many as \<^verbatim>\<open>deleteCount\<close> says once truncated to an integer (NaN
  counting as 0), but at least none and at most \<open>len\<close>.
\<close>

definition arrayLength :: "'a list \<Rightarrow> number" where
  "arrayLength xs = Finite (of_nat (length xs))"

fun spliceDeleteCount :: "number \<Rightarrow> nat \<Rightarrow> nat" where
  "spliceDeleteCount NaN len = 0"
| "spliceDeleteCount NegInfinity len = 0"
| "spliceDeleteCount PosInfinity len = len"
| "spliceDeleteCount (Finite x) len = min (nat \<lfloor>x\<rfloor>) len"

definition enforceMaxHistory :: "transactionManagerOptions \<Rightarrow> world \<Rightarrow> world" where
  "enforceMaxHistory options w =
     (if numberLess (maxHistory options) (arrayLength (undoStack w))
      then w\<lparr>undoStack :=
               drop (spliceDeleteCount
                       (numberMinus (arrayLength (undoStack w)) (maxHistory options))
                       (length (undoStack w)))
                 (undoStack w)\<rparr>
      else w)"

definition pushNew :: "transactionManagerOptions \<Rightarrow> transaction \<Rightarrow> world \<Rightarrow> world" where
  "pushNew options tx w =
     emit PushAction (Some tx) (enforceMaxHistory options (w\<lparr>undoStack := undoStack w @ [tx]\<rparr>))"

definition pushTransaction :: "transactionManagerOptions \<Rightarrow> transaction \<Rightarrow> bool \<Rightarrow> world \<Rightarrow> world" where
  "pushTransaction options tx allowMerge w0 =
     (let hadRedo = (redoStack w0 \<noteq> []);
          w = (if hadRedo then w0\<lparr>redoStack := []\<rparr> else w0)
      in if \<not> hadRedo \<and> allowMerge \<and> undoStack w \<noteq> [] then
           (let lastTx = last (undoStack w) in
            if canMerge lastTx tx (mergeWindowMs options) then
              (case mergeInto lastTx tx of
                 Some m \<Rightarrow> emit MergeAction (Some m) (w\<lparr>undoStack := butlast (undoStack w) @ [m]\<rparr>)
               | None \<Rightarrow> pushNew options tx w)
            else pushNew options tx w)
         else pushNew options tx w)"

definition recordStyle ::
  "transactionManagerOptions \<Rightarrow> elementLocator \<Rightarrow> string \<Rightarrow> string \<Rightarrow> string \<Rightarrow> bool option
     \<Rightarrow> int \<Rightarrow> int \<Rightarrow> world \<Rightarrow> transaction option \<times> world" where
  "recordStyle options loc property beforeValue afterValue mergeOption now1 now2 w =
     (if managerDisposed w then (None, w)
      else (let prop = normalizePropertyName property in
            if prop = [] then (None, w)
            else (let b = trim beforeValue; a = trim afterValue in
                  if b = a then (None, w)
                  else (let (ident, seq') = generateTransactionId now1 (transactionSeq w);
                            tx = createStyleTransaction ident loc prop b a now2
                        in (Some tx,
                            pushTransaction options tx (mergeOption \<noteq> Some False)
                              (w\<lparr>transactionSeq := seq'\<rparr>))))))"


text \<open>
  The closure of a \<^verbatim>\<open>StyleTransactionHandle\<close>: its id, property and locator, the
  element whose \<^verbatim>\<open>style\<close> object it holds, the value read at \<^verbatim>\<open>beginStyle\<close>, and the
  \<^verbatim>\<open>completed\<close> flag. The style object is read and written through the element's place
  in the current document.
\<close>

record styleTransactionHandle =
  handleId :: string
  handleProperty :: string
  handleLocator :: elementLocator
  handleTarget :: nodeRef
  beforeValue :: string
  completed :: bool

definition styleOf :: "document \<Rightarrow> nodeRef \<Rightarrow> (string \<times> string) list" where
  "styleOf doc element = (case getInlineStyle doc element of None \<Rightarrow> [] | Some st \<Rightarrow> st)"

definition writeElementStyle :: "nodeRef \<Rightarrow> string \<Rightarrow> string \<Rightarrow> document \<Rightarrow> document" where
  "writeElementStyle element prop v doc =
     updateElement element
       (\<lambda>d. d\<lparr>inlineStyle := Some (writeStyleValue (styleOf doc element) prop v)\<rparr>) doc"

definition beginStyle ::
  "bool \<Rightarrow> nodeRef \<Rightarrow> string \<Rightarrow> int \<Rightarrow> world \<Rightarrow> styleTransactionHandle option \<times> world" where
  "beginStyle hasCssEscape tgt property now1 w =
     (if managerDisposed w then (None, w)
      else (case getInlineStyle (dom w) tgt of
              None \<Rightarrow> (None, w)
            | Some style \<Rightarrow>
                (let prop = normalizePropertyName property in
                 if prop = [] then (None, w)
                 else (let loc = createElementLocator hasCssEscape (dom w) tgt;
                           b = readStyleValue style prop;
                           (ident, seq') = generateTransactionId now1 (transactionSeq w)
                       in (Some \<lparr> handleId = ident, handleProperty = prop, handleLocator = loc,
                                  handleTarget = tgt, beforeValue = b, completed = False \<rparr>,
                           w\<lparr>transactionSeq := seq'\<rparr>)))))"

definition handleSet :: "styleTransactionHandle \<Rightarrow> string \<Rightarrow> world \<Rightarrow> world" where
  "handleSet h v w =
     (if completed h \<or> managerDisposed w then w
      else w\<lparr>dom := writeElementStyle (handleTarget h) (handleProperty h) v (dom w)\<rparr>)"

definition handleCommit ::
  "transactionManagerOptions \<Rightarrow> styleTransactionHandle \<Rightarrow> bool option \<Rightarrow> int \<Rightarrow> world
     \<Rightarrow> transaction option \<times> styleTransactionHandle \<times> world" where
  "handleCommit options h mergeOption now1 w =
     (if completed h \<or> managerDisposed w then (None, h, w)
      else (let h' = h\<lparr>completed := True\<rparr>;
                afterValue = readStyleValue (styleOf (dom w) (handleTarget h)) (handleProperty h)
            in if afterValue = beforeValue h then (None, h', w)
               else (let tx = createStyleTransaction (handleId h) (handleLocator h)
                                (handleProperty h) (beforeValue h) afterValue now1
                     in (Some tx, h', pushTransaction options tx (mergeOption \<noteq> Some False) w))))"

definition handleRollback :: "styleTransactionHandle \<Rightarrow> world \<Rightarrow> styleTransactionHandle \<times> world" where
  "handleRollback h w =
     (if completed h \<or> managerDisposed w then (h, w)
      else (h\<lparr>completed := True\<rparr>,
            emit RollbackAction None
              (w\<lparr>dom := writeElementStyle (handleTarget h) (handleProperty h) (beforeValue h)
                          (dom w)\<rparr>)))"

definition applyStyle ::
  "bool \<Rightarrow> transactionManagerOptions \<Rightarrow> nodeRef \<Rightarrow> string \<Rightarrow> string \<Rightarrow> bool option \<Rightarrow> int \<Rightarrow> int
     \<Rightarrow> world \<Rightarrow> transaction option \<times> world" where
  "applyStyle hasCssEscape options tgt property v mergeOption now1 now2 w =
     (case beginStyle hasCssEscape tgt property now1 w of
        (None, w1) \<Rightarrow> (None, w1)
      | (Some h, w1) \<Rightarrow>
          (case handleCommit options h mergeOption now2 (handleSet h v w1) of
             (r, h', w2) \<Rightarrow> (r, w2)))"

definition undo :: "world \<Rightarrow> transaction option \<times> world" where
  "undo w =
     (if managerDisposed w then (None, w)
      else if undoStack w = [] then (None, w)
      else (let tx = last (undoStack w);
                w1 = w\<lparr>undoStack := butlast (undoStack w)\<rparr>;
                (success, doc') = applyTransaction (dom w1) tx True
            in if \<not> success then
                 (None, w1\<lparr>undoStack := undoStack w1 @ [tx],
                           applyErrors := applyErrors w1
                             @ [''Failed to locate element for undo: '' @ txId tx]\<rparr>)
               else (Some tx, emit UndoAction (Some tx)
                                (w1\<lparr>dom := doc', redoStack := redoStack w1 @ [tx]\<rparr>))))"

definition redo :: "transactionManagerOptions \<Rightarrow> world \<Rightarrow> transaction option \<times> world" where
  "redo options w =
     (if managerDisposed w then (None, w)
      else if redoStack w = [] then (None, w)
      else (let tx = last (redoStack w);
                w1 = w\<lparr>redoStack := butlast (redoStack w)\<rparr>;
                (success, doc') = applyTransaction (dom w1) tx False
            in if \<not> success then
                 (None, w1\<lparr>redoStack := redoStack w1 @ [tx],
                           applyErrors := applyErrors w1
                             @ [''Failed to locate element for redo: '' @ txId tx]\<rparr>)
               else (Some tx, emit RedoAction (Some tx)
                                (enforceMaxHistory options
                                   (w1\<lparr>dom := doc', undoStack := undoStack w1 @ [tx]\<rparr>)))))"

definition canUndo :: "world \<Rightarrow> bool" where
  "canUndo w = (length (undoStack w) > 0)"

definition canRedo :: "world \<Rightarrow> bool" where
  "canRedo w = (length (redoStack w) > 0)"

definition clear :: "world \<Rightarrow> world" where
  "clear w = emit ClearAction None (w\<lparr>undoStack := [], redoStack := []\<rparr>)"

definition dispose :: "world \<Rightarrow> world" where
  "dispose w = w\<lparr>undoStack := [], redoStack := [], managerDisposed := True\<rparr>"

text \<open>
  The states of a manager and its document: the state at creation, and every state
  reached from one by a call of the public interface with any arguments, by a call on a
  handle, or by a change of the document from outside.
\<close>

inductive reachable :: "transactionManagerOptions \<Rightarrow> world \<Rightarrow> bool" where
  created: "reachable options (createTransactionManager doc seq)"
| documentChanged: "reachable options w \<Longrightarrow> reachable options (w\<lparr>dom := doc\<rparr>)"
| recorded:
    "reachable options w
     \<Longrightarrow> reachable options (snd (recordStyle options loc property b a mergeOption now1 now2 w))"
| begun: "reachable options w \<Longrightarrow> reachable options (snd (beginStyle hasCssEscape tgt property now1 w))"
| handleWritten: "reachable options w \<Longrightarrow> reachable options (handleSet h v w)"
| committed:
    "reachable options w
     \<Longrightarrow> reachable options (snd (snd (handleCommit options h mergeOption now1 w)))"
| rolledBack: "reachable options w \<Longrightarrow> reachable options (snd (handleRollback h w))"
| applied:
    "reachable options w
     \<Longrightarrow> reachable options (snd (applyStyle hasCssEscape options tgt property v mergeOption now1 now2 w))"
| undone: "reachable options w \<Longrightarrow> reachable options (snd (undo w))"
| redone: "reachable options w \<Longrightarrow> reachable options (snd (redo options w))"
| cleared: "reachable options w \<Longrightarrow> reachable options (clear w)"
| disposed: "reachable options w \<Longrightarrow> reachable options (dispose w)"


text \<open>What every reachable state satisfies: the stacks hold style transactions only, the
  two stacks together hold at most \<open>maxHistory\<close> transactions when \<open>maxHistory\<close> is an
  integer, and a disposed manager has empty stacks.\<close>

definition historyInvariant :: "transactionManagerOptions \<Rightarrow> world \<Rightarrow> bool" where
  "historyInvariant options w =
     (list_all (\<lambda>tx. txType tx = StyleTx) (undoStack w @ redoStack w)
      \<and> (\<forall>n. maxHistory options = Finite (of_int n)
             \<longrightarrow> int (length (undoStack w) + length (redoStack w)) \<le> n)
      \<and> (if managerDisposed w then undoStack w = [] \<and> redoStack w = [] else True))"

subsection \<open>The history invariant\<close>

lemma maxHistory_cases:
  obtains (finite) c where "maxHistory options = Finite c" "1 \<le> c"
  | (infinite) "maxHistory options = PosInfinity"
  | (nan) "maxHistory options = NaN"
proof (cases "case maxHistoryOption options of Some n \<Rightarrow> n | None \<Rightarrow> DEFAULT_MAX_HISTORY")
  case (Finite y)
  then have "maxHistory options = Finite (max 1 y)" by (simp add: maxHistory_def)
  then show ?thesis by (rule finite) simp
next
  case PosInfinity
  then have "maxHistory options = PosInfinity" by (simp add: maxHistory_def)
  then show ?thesis by (rule infinite)
next
  case NegInfinity
  then have "maxHistory options = Finite 1" by (simp add: maxHistory_def)
  then show ?thesis by (rule finite) simp
next
  case NaN
  then have "maxHistory options = NaN" by (simp add: maxHistory_def)
  then show ?thesis by (rule nan)
qed

lemma maxHistory_pos: "maxHistory options = Finite (of_int n) \<Longrightarrow> 1 \<le> n"
  by (cases options rule: maxHistory_cases) simp_all

lemma emit_fields [simp]:
  "undoStack (emit a t w) = undoStack w" "redoStack (emit a t w) = redoStack w"
  "managerDisposed (emit a t w) = managerDisposed w" "dom (emit a t w) = dom w"
  "applyErrors (emit a t w) = applyErrors w" "transactionSeq (emit a t w) = transactionSeq w"
  by (simp_all add: emit_def)

lemma enforceMaxHistory_fields [simp]:
  "redoStack (enforceMaxHistory options w) = redoStack w"
  "managerDisposed (enforceMaxHistory options w) = managerDisposed w"
  "dom (enforceMaxHistory options w) = dom w"
  "applyErrors (enforceMaxHistory options w) = applyErrors w"
  "changeEvents (enforceMaxHistory options w) = changeEvents w"
  by (simp_all add: enforceMaxHistory_def)

lemma numberLess_arrayLength:
  "numberLess (Finite (of_int n)) (arrayLength xs) = (n < int (length xs))"
proof -
  have "(of_nat (length xs) :: rat) = of_int (int (length xs))" by simp
  then have "numberLess (Finite (of_int n)) (arrayLength xs)
               = ((of_int n :: rat) < of_int (int (length xs)))"
    by (simp only: arrayLength_def numberLess.simps)
  then show ?thesis by (simp only: of_int_less_iff)
qed

text \<open>What is left of the undo stack is one of its suffixes, and a non-empty one unless
  the stack was empty.\<close>

lemma enforceMaxHistory_drop:
  obtains k where "undoStack (enforceMaxHistory options w) = drop k (undoStack w)"
proof (cases "numberLess (maxHistory options) (arrayLength (undoStack w))")
  case True
  then have "undoStack (enforceMaxHistory options w)
               = drop (spliceDeleteCount
                         (numberMinus (arrayLength (undoStack w)) (maxHistory options))
                         (length (undoStack w))) (undoStack w)"
    by (simp add: enforceMaxHistory_def)
  then show ?thesis by (rule that)
next
  case False
  then have "undoStack (enforceMaxHistory options w) = drop 0 (undoStack w)"
    by (simp add: enforceMaxHistory_def)
  then show ?thesis by (rule that)
qed


text \<open>With an integer cap the difference of the length and the cap is computed exactly.\<close>

lemma enforceMaxHistory_undoStack:
  assumes "maxHistory options = Finite (of_int n)"
    and "int (length (undoStack w)) \<le> n + 2 ^ 53"
  shows "undoStack (enforceMaxHistory options w)
           = drop (nat (int (length (undoStack w)) - n)) (undoStack w)"
proof (cases "n < int (length (undoStack w))")
  case True
  define m where "m = int (length (undoStack w)) - n"
  have m: "0 \<le> m" "m \<le> 2 ^ 53" using True assms(2) by (simp_all add: m_def)
  have "(of_nat (length (undoStack w)) :: rat) - of_int n = of_int m" by (simp add: m_def)
  then have "numberMinus (arrayLength (undoStack w)) (maxHistory options) = Finite (of_int m)"
    using roundToDouble_of_int [OF m] by (simp add: numberMinus_def arrayLength_def assms(1))
  moreover have "numberLess (maxHistory options) (arrayLength (undoStack w))"
    using True by (simp only: assms(1) numberLess_arrayLength)
  ultimately have "undoStack (enforceMaxHistory options w)
               = drop (min (nat m) (length (undoStack w))) (undoStack w)"
    by (simp add: enforceMaxHistory_def)
  also have "\<dots> = drop (nat m) (undoStack w)" by (simp add: min_def)
  finally show ?thesis by (simp only: m_def)
next
  case False
  then have "\<not> numberLess (maxHistory options) (arrayLength (undoStack w))"
    by (simp add: assms(1) numberLess_arrayLength)
  with False show ?thesis by (simp add: enforceMaxHistory_def)
qed

lemma enforceMaxHistory_id:
  assumes "maxHistory options = Finite (of_int n)" and "int (length (undoStack w)) \<le> n"
  shows "enforceMaxHistory options w = w"
proof -
  have "\<not> numberLess (maxHistory options) (arrayLength (undoStack w))"
    using assms(2) by (simp add: assms(1) numberLess_arrayLength)
  then show ?thesis by (simp add: enforceMaxHistory_def)
qed

lemma pushNew_fields [simp]:
  "redoStack (pushNew options tx w) = redoStack w"
  "managerDisposed (pushNew options tx w) = managerDisposed w"
  "dom (pushNew options tx w) = dom w"
  "applyErrors (pushNew options tx w) = applyErrors w"
  by (simp_all add: pushNew_def)

lemma pushNew_undoStack:
  assumes "maxHistory options = Finite (of_int n)"
    and "int (length (undoStack w)) + 1 \<le> n + 2 ^ 53"
  shows "undoStack (pushNew options tx w)
           = drop (nat (int (length (undoStack w)) + 1 - n)) (undoStack w @ [tx])"
  using enforceMaxHistory_undoStack [OF assms(1), of "w\<lparr>undoStack := undoStack w @ [tx]\<rparr>"] assms(2)
  by (simp add: pushNew_def add.commute)

lemma pushNew_drop:
  obtains k where "undoStack (pushNew options tx w) = drop k (undoStack w @ [tx])"
  using enforceMaxHistory_drop [of options "w\<lparr>undoStack := undoStack w @ [tx]\<rparr>"]
  by (auto simp: pushNew_def)


text \<open>Within an integer cap, a push appends the transaction and evicts the oldest entry of
  a full stack.\<close>

lemma pushNew_within_cap:
  assumes "maxHistory options = Finite (of_int n)" and "int (length (undoStack w)) \<le> n"
  shows "undoStack (pushNew options tx w)
           = (if int (length (undoStack w)) < n then undoStack w @ [tx]
              else tl (undoStack w) @ [tx])"
proof -
  have n: "1 \<le> n" using assms(1) by (rule maxHistory_pos)
  have u: "undoStack (pushNew options tx w)
           = drop (nat (int (length (undoStack w)) + 1 - n)) (undoStack w @ [tx])"
    using assms by (intro pushNew_undoStack) simp_all
  show ?thesis
  proof (cases "int (length (undoStack w)) < n")
    case True
    with u show ?thesis by simp
  next
    case False
    with assms(2) have l: "int (length (undoStack w)) = n" by simp
    with n have "undoStack w \<noteq> []" by auto
    then have "drop (Suc 0) (undoStack w @ [tx]) = tl (undoStack w) @ [tx]"
      by (cases "undoStack w") simp_all
    with u l show ?thesis by simp
  qed
qed


lemma mergeInto_txType: "mergeInto prev nxt = Some m \<Longrightarrow> txType m = txType prev"
  by (auto simp: mergeInto_def split: option.splits if_splits)

text \<open>The three outcomes of \<open>pushTransaction\<close>.\<close>

lemma pushTransaction_cases:
  obtains (merged) m where "redoStack w = []" "allowMerge" "undoStack w \<noteq> []"
      "canMerge (last (undoStack w)) tx (mergeWindowMs options)"
      "mergeInto (last (undoStack w)) tx = Some m"
      "pushTransaction options tx allowMerge w
         = emit MergeAction (Some m) (w\<lparr>undoStack := butlast (undoStack w) @ [m]\<rparr>)"
  | (pushed) "redoStack w = []"
      "\<not> (allowMerge \<and> undoStack w \<noteq> [] \<and> canMerge (last (undoStack w)) tx (mergeWindowMs options)
          \<and> mergeInto (last (undoStack w)) tx \<noteq> None)"
      "pushTransaction options tx allowMerge w = pushNew options tx w"
  | (cleared) "redoStack w \<noteq> []"
      "pushTransaction options tx allowMerge w = pushNew options tx (w\<lparr>redoStack := []\<rparr>)"
proof (cases "redoStack w = []")
  case False
  then have "pushTransaction options tx allowMerge w = pushNew options tx (w\<lparr>redoStack := []\<rparr>)"
    by (simp add: pushTransaction_def Let_def)
  with False show ?thesis by (rule cleared)
next
  case True
  show ?thesis
  proof (cases "allowMerge \<and> undoStack w \<noteq> [] \<and> canMerge (last (undoStack w)) tx (mergeWindowMs options)
          \<and> mergeInto (last (undoStack w)) tx \<noteq> None")
    case doMerge: True
    then obtain m where m: "mergeInto (last (undoStack w)) tx = Some m" by auto
    with doMerge True have "pushTransaction options tx allowMerge w
         = emit MergeAction (Some m) (w\<lparr>undoStack := butlast (undoStack w) @ [m]\<rparr>)"
      by (simp add: pushTransaction_def Let_def)
    with True doMerge m show ?thesis by (intro merged) simp_all
  next
    case False
    with True have "pushTransaction options tx allowMerge w = pushNew options tx w"
      by (auto simp: pushTransaction_def Let_def split: option.splits)
    with True False show ?thesis by (rule pushed)
  qed
qed

lemma pushTransaction_fields [simp]:
  "managerDisposed (pushTransaction options tx allowMerge w) = managerDisposed w"
  "dom (pushTransaction options tx allowMerge w) = dom w"
  "applyErrors (pushTransaction options tx allowMerge w) = applyErrors w"
  by (cases rule: pushTransaction_cases [of w allowMerge tx options]; simp)+

lemma pushNew_invariant:
  assumes "historyInvariant options w" "redoStack w = []" "txType tx = StyleTx"
    "\<not> managerDisposed w"
  shows "historyInvariant options (pushNew options tx w)"
proof -
  obtain k where k: "undoStack (pushNew options tx w) = drop k (undoStack w @ [tx])"
    by (rule pushNew_drop)
  have a: "list_all (\<lambda>tx. txType tx = StyleTx) (undoStack (pushNew options tx w))"
    using assms(1,3) unfolding k by (auto simp: historyInvariant_def list_all_iff dest: in_set_dropD)
  have b: "int (length (undoStack (pushNew options tx w))) \<le> n"
    if c: "maxHistory options = Finite (of_int n)" for n
  proof -
    have "int (length (undoStack w)) \<le> n"
      using assms(1) c by (simp add: historyInvariant_def)
    then show ?thesis using maxHistory_pos [OF c]
      by (simp add: pushNew_within_cap [OF c])
  qed
  from a b assms show ?thesis by (simp add: historyInvariant_def)
qed

lemma pushTransaction_invariant:
  assumes "historyInvariant options w" "\<not> managerDisposed w" "txType tx = StyleTx"
  shows "historyInvariant options (pushTransaction options tx allowMerge w)"
proof (cases rule: pushTransaction_cases [of w allowMerge tx options])
  case (merged m)
  from merged(3) have us: "undoStack w = butlast (undoStack w) @ [last (undoStack w)]" by simp
  have "txType (last (undoStack w)) = StyleTx"
    using assms(1) merged(3) by (simp add: historyInvariant_def list_all_iff)
  then have "txType m = StyleTx" using mergeInto_txType [OF merged(5)] by simp
  moreover have "list_all (\<lambda>tx. txType tx = StyleTx) (butlast (undoStack w))"
    using assms(1) by (auto simp: historyInvariant_def list_all_iff dest: in_set_butlastD)
  moreover have "length (butlast (undoStack w)) + 1 = length (undoStack w)"
    using merged(3) by (cases "undoStack w") simp_all
  ultimately show ?thesis
    using assms(1,2) merged(1,3,6) by (simp add: historyInvariant_def)
next
  case pushed
  with assms show ?thesis by (simp add: pushNew_invariant)
next
  case cleared
  have "historyInvariant options (w\<lparr>redoStack := []\<rparr>)"
    using assms(1) by (auto simp: historyInvariant_def)
  then have "historyInvariant options (pushNew options tx (w\<lparr>redoStack := []\<rparr>))"
    using assms(2,3) by (intro pushNew_invariant) simp_all
  with cleared show ?thesis by simp
qed

lemma createStyleTransaction_txType [simp]:
  "txType (createStyleTransaction ident loc property b a ts) = StyleTx"
  by (simp add: createStyleTransaction_def Let_def)

lemma historyInvariant_cong:
  "undoStack w' = undoStack w \<Longrightarrow> redoStack w' = redoStack w
   \<Longrightarrow> managerDisposed w' = managerDisposed w
   \<Longrightarrow> historyInvariant options w' = historyInvariant options w"
  by (simp add: historyInvariant_def)

lemma recordStyle_invariant:
  assumes "historyInvariant options w"
  shows "historyInvariant options (snd (recordStyle options loc property b a mergeOption now1 now2 w))"
proof -
  have "\<And>s. historyInvariant options (w\<lparr>transactionSeq := s\<rparr>)"
    using assms by (simp add: historyInvariant_def)
  then show ?thesis
    using assms
    by (auto simp: recordStyle_def Let_def case_prod_unfold intro!: pushTransaction_invariant)
qed

lemma beginStyle_invariant:
  assumes "historyInvariant options w"
  shows "historyInvariant options (snd (beginStyle hasCssEscape tgt property now1 w))"
  using assms
  by (auto simp: beginStyle_def Let_def case_prod_unfold historyInvariant_def split: option.splits)

lemma handleSet_invariant:
  assumes "historyInvariant options w"
  shows "historyInvariant options (handleSet h v w)"
  using assms by (auto simp: handleSet_def historyInvariant_def)

lemma handleCommit_invariant:
  assumes "historyInvariant options w"
  shows "historyInvariant options (snd (snd (handleCommit options h mergeOption now1 w)))"
  using assms
  by (auto simp: handleCommit_def Let_def intro!: pushTransaction_invariant)

lemma handleRollback_invariant:
  assumes "historyInvariant options w"
  shows "historyInvariant options (snd (handleRollback h w))"
  using assms by (auto simp: handleRollback_def historyInvariant_def)

lemma applyStyle_invariant:
  assumes "historyInvariant options w"
  shows "historyInvariant options (snd (applyStyle hasCssEscape options tgt property v mergeOption now1 now2 w))"
proof (cases "fst (beginStyle hasCssEscape tgt property now1 w)")
  case None
  then show ?thesis
    using beginStyle_invariant [OF assms, of hasCssEscape tgt property now1]
    by (simp add: applyStyle_def case_prod_unfold)
next
  case (Some h)
  let ?w1 = "snd (beginStyle hasCssEscape tgt property now1 w)"
  have "historyInvariant options (handleSet h v ?w1)"
    using beginStyle_invariant [OF assms] by (rule handleSet_invariant)
  then have "historyInvariant options (snd (snd (handleCommit options h mergeOption now2 (handleSet h v ?w1))))"
    by (rule handleCommit_invariant)
  with Some show ?thesis
    by (simp add: applyStyle_def case_prod_unfold)
qed

lemma undo_invariant:
  assumes "historyInvariant options w"
  shows "historyInvariant options (snd (undo w))"
proof (cases "managerDisposed w \<or> undoStack w = []")
  case True
  with assms show ?thesis by (auto simp: undo_def)
next
  case False
  then have us: "butlast (undoStack w) @ [last (undoStack w)] = undoStack w" by simp
  have l: "int (length (undoStack w) - Suc 0) + 1 = int (length (undoStack w))"
    using False by (cases "undoStack w") auto
  have a: "list_all (\<lambda>tx. txType tx = StyleTx) (butlast (undoStack w))"
    "txType (last (undoStack w)) = StyleTx"
    using assms False by (auto simp: historyInvariant_def list_all_iff dest: in_set_butlastD)
  show ?thesis
    using assms False a l us
    by (auto simp: undo_def Let_def case_prod_unfold historyInvariant_def)
qed

lemma redo_invariant:
  assumes "historyInvariant options w"
  shows "historyInvariant options (snd (redo options w))"
proof (cases "managerDisposed w \<or> redoStack w = []")
  case True
  with assms show ?thesis by (auto simp: redo_def)
next
  case False
  define tx where "tx = last (redoStack w)"
  define v where "v = w\<lparr>redoStack := butlast (redoStack w),
                          dom := snd (applyTransaction (dom w) tx False),
                          undoStack := undoStack w @ [tx]\<rparr>"
  have us: "butlast (redoStack w) @ [tx] = redoStack w" using False by (simp add: tx_def)
  have l: "int (length (butlast (redoStack w))) + 1 = int (length (redoStack w))"
    using False by (cases "redoStack w") auto
  have a: "list_all (\<lambda>tx. txType tx = StyleTx) (butlast (redoStack w))"
    "txType tx = StyleTx"
    using assms False by (auto simp: tx_def historyInvariant_def list_all_iff dest: in_set_butlastD)
  show ?thesis
  proof (cases "fst (applyTransaction (dom w) tx False)")
    case failed: False
    then have "snd (redo options w)
                 = w\<lparr>redoStack := redoStack w,
                      applyErrors := applyErrors w
                        @ [''Failed to locate element for redo: '' @ txId tx]\<rparr>"
      using False us by (simp add: redo_def Let_def case_prod_unfold tx_def)
    with assms show ?thesis by (simp add: historyInvariant_def)
  next
    case True
    then have r: "snd (redo options w) = emit RedoAction (Some tx) (enforceMaxHistory options v)"
      using False by (simp add: redo_def Let_def case_prod_unfold tx_def v_def)
    obtain k where k: "undoStack (enforceMaxHistory options v) = drop k (undoStack w @ [tx])"
      using enforceMaxHistory_drop [of options v] by (auto simp: v_def)
    have s: "list_all (\<lambda>tx. txType tx = StyleTx) (undoStack (enforceMaxHistory options v))"
      using assms a(2) unfolding k
      by (auto simp: historyInvariant_def list_all_iff dest: in_set_dropD)
    have b: "int (length (undoStack (enforceMaxHistory options v))
                   + length (butlast (redoStack w))) \<le> n"
      if c: "maxHistory options = Finite (of_int n)" for n
    proof -
      have t: "int (length (undoStack w) + length (redoStack w)) \<le> n"
        using assms c by (simp add: historyInvariant_def)
      then have "int (length (undoStack v)) \<le> n" using l by (simp add: v_def)
      then have "enforceMaxHistory options v = v" by (rule enforceMaxHistory_id [OF c])
      then show ?thesis using t l by (simp add: v_def)
    qed
    from s b a(1) False show ?thesis by (simp add: r historyInvariant_def v_def)
  qed
qed

lemma reachable_invariant: "reachable options w \<Longrightarrow> historyInvariant options w"
proof (induction rule: reachable.induct)
  case (created options doc seq)
  then show ?case
    using maxHistory_pos [of options]
    by (auto simp: historyInvariant_def createTransactionManager_def)
next
  case (documentChanged options w doc)
  then show ?case by (simp add: historyInvariant_def)
next
  case (recorded options w loc property b a mergeOption now1 now2)
  then show ?case by (simp add: recordStyle_invariant)
next
  case (begun options w tgt property now1)
  then show ?case by (simp add: beginStyle_invariant)
next
  case (handleWritten options w h v)
  then show ?case by (simp add: handleSet_invariant)
next
  case (committed options w h mergeOption now1)
  then show ?case by (simp add: handleCommit_invariant)
next
  case (rolledBack options w h)
  then show ?case by (simp add: handleRollback_invariant)
next
  case (applied options w tgt property v mergeOption now1 now2)
  then show ?case by (simp add: applyStyle_invariant)
next
  case (undone options w)
  then show ?case by (simp add: undo_invariant)
next
  case (redone options w)
  then show ?case by (simp add: redo_invariant)
next
  case (cleared options w)
  then show ?case
    using maxHistory_pos [of options] by (auto simp: historyInvariant_def clear_def)
next
  case (disposed options w)
  then show ?case
    using maxHistory_pos [of options] by (auto simp: historyInvariant_def dispose_def)
qed


subsection \<open>Recorded edits\<close>

lemma getSingleStyleProperty_created:
  "getSingleStyleProperty (createStyleTransaction ident loc property b a ts)
     = Some (normalizePropertyName property)"
  by (simp add: getSingleStyleProperty_def createStyleTransaction_def styleKeys_def Let_def)

lemma createStyleTransaction_fields [simp]:
  "timestamp (createStyleTransaction ident loc property b a ts) = ts"
  "targetLocator (createStyleTransaction ident loc property b a ts) = loc"
  "styles (after (createStyleTransaction ident loc property b a ts))
     = Some [(normalizePropertyName property, a)]"
  "styles (before (createStyleTransaction ident loc property b a ts))
     = Some [(normalizePropertyName property, b)]"
  "merged (createStyleTransaction ident loc property b a ts) = False"
  by (simp_all add: createStyleTransaction_def Let_def)

text \<open>
  A manager with the default options (at most 100 entries, merge window 800 ms) on the
  example page: \<open>firstEditWorld\<close> after one recorded edit of the button's colour at time
  1000, \<open>missingEditWorld\<close> after one recorded edit with a locator that matches nothing,
  \<open>undoneWorld\<close> after the first edit was undone; \<open>emptiedDoc\<close> is the page with the body
  emptied.
\<close>

definition exampleOptions :: transactionManagerOptions where
  "exampleOptions = \<lparr> maxHistoryOption = None, mergeWindowMsOption = None \<rparr>"

definition okLocator :: elementLocator where
  "okLocator = \<lparr> selectors = [''#ok''], fingerprint = ''button|id=ok'', path = [0, 1, 2],
                  frameChain = None, shadowHostChain = None \<rparr>"

definition missingLocator :: elementLocator where
  "missingLocator = \<lparr> selectors = [''#missing''], fingerprint = ''div|id=missing'', path = [],
                       frameChain = None, shadowHostChain = None \<rparr>"

definition startWorld :: world where
  "startWorld = createTransactionManager pageDoc 0"

definition firstTx :: transaction where
  "firstTx = createStyleTransaction ''tx_rs_1'' okLocator ''color'' ''red'' ''blue'' 1000"

definition firstEditWorld :: world where
  "firstEditWorld =
     snd (recordStyle exampleOptions okLocator ''color'' ''red'' ''blue'' None 1000 1000 startWorld)"

definition emptiedDoc :: document where
  "emptiedDoc = [elem ''HTML'' [] [] [elem ''HEAD'' [] [] [], elem ''BODY'' [] [] []]]"

definition missingEditWorld :: world where
  "missingEditWorld =
     snd (recordStyle exampleOptions missingLocator ''color'' ''red'' ''blue'' None 1000 1000
            startWorld)"

definition undoneWorld :: world where
  "undoneWorld = snd (undo firstEditWorld)"

lemma example_strings:
  "normalizePropertyName ''color'' = ''color''" "normalizePropertyName ''width'' = ''width''"
  "trim ''red'' = ''red''" "trim ''blue'' = ''blue''" "trim ''green'' = ''green''"
  "trim '' red '' = ''red''" "trim ''1px'' = ''1px''" "trim ''2px'' = ''2px''"
  "generateTransactionId 1000 0 = (''tx_rs_1'', 1)"
  "generateTransactionId 1200 1 = (''tx_xc_2'', 2)"
  "generateTransactionId 1200 (Suc 0) = (''tx_xc_2'', 2)"
  by code_simp+

lemma exampleOptions_values:
  "maxHistory exampleOptions = Finite 100" "mergeWindowMs exampleOptions = 800"
  by (simp_all add: maxHistory_def mergeWindowMs_def exampleOptions_def
      DEFAULT_MAX_HISTORY_def DEFAULT_MERGE_WINDOW_MS_def)




lemma firstTx_facts:
  "txType firstTx = StyleTx" "getSingleStyleProperty firstTx = Some ''color''"
  "timestamp firstTx = 1000" "targetLocator firstTx = okLocator"
  "styles (before firstTx) = Some [(''color'', ''red'')]"
  "styles (after firstTx) = Some [(''color'', ''blue'')]"
  by (simp_all add: firstTx_def getSingleStyleProperty_created example_strings)

lemma example_located:
  "locateElement pageDoc okLocator = Some okButton"
  "locateElement pageDoc missingLocator = None"
  "locateElement emptiedDoc okLocator = None"
  by code_simp+

lemma undoneWorld_facts:
  "fst (undo firstEditWorld) = Some firstTx"
  "undoStack undoneWorld = []" "redoStack undoneWorld = [firstTx]"
  "fst (redo exampleOptions undoneWorld) = Some firstTx"
  by code_simp+


lemma missingEditWorld_eq:
  "missingEditWorld =
     \<lparr> dom = pageDoc,
       undoStack = [createStyleTransaction ''tx_rs_1'' missingLocator ''color'' ''red'' ''blue'' 1000],
       redoStack = [], managerDisposed = False, transactionSeq = 1,
       changeEvents = [\<lparr> action = PushAction,
                         eventTransaction = Some (createStyleTransaction ''tx_rs_1'' missingLocator
                                                    ''color'' ''red'' ''blue'' 1000),
                         undoCount = 1, redoCount = 0 \<rparr>],
       applyErrors = [] \<rparr>"
  by (simp add: missingEditWorld_def startWorld_def recordStyle_def createTransactionManager_def
      example_strings pushTransaction_def pushNew_def enforceMaxHistory_def arrayLength_def emit_def
      exampleOptions_values Let_def)

lemma example_reachable:
  "reachable exampleOptions startWorld"
  "reachable exampleOptions missingEditWorld"
  "reachable exampleOptions undoneWorld"
  "reachable exampleOptions (undoneWorld\<lparr>dom := emptiedDoc\<rparr>)"
  unfolding missingEditWorld_def undoneWorld_def startWorld_def firstEditWorld_def
  by (intro reachable.documentChanged reachable.undone reachable.recorded reachable.created)+

subsection \<open>Merging of consecutive edits\<close>



subsection \<open>Undo and redo\<close>

text \<open>
  Claim C2. In every reachable state, when the locator of the transaction on top of the
  undo stack (of the redo stack) does not resolve in the live document, \<^verbatim>\<open>undo()\<close>
  (\<^verbatim>\<open>redo()\<close>) returns \<^verbatim>\<open>null\<close> and changes nothing but the errors reported: both stacks and
  the document are as before the call, and \<^verbatim>\<open>onApplyError\<close> has received one error naming
  the transaction.
\<close>

theorem undo_redo_atomic_on_resolution_failure:
  assumes "reachable options w"
  shows "(undoStack w = us @ [tx] \<and> locateElement (dom w) (targetLocator tx) = None \<longrightarrow>
            undo w = (None, w\<lparr>applyErrors := applyErrors w
                                 @ [''Failed to locate element for undo: '' @ txId tx]\<rparr>))
       \<and> (redoStack w = rs @ [tx] \<and> locateElement (dom w) (targetLocator tx) = None \<longrightarrow>
            redo options w = (None, w\<lparr>applyErrors := applyErrors w
                                 @ [''Failed to locate element for redo: '' @ txId tx]\<rparr>))"
proof -
  have inv: "historyInvariant options w" using assms by (rule reachable_invariant)
  have a: "undoStack w = us @ [tx] \<and> locateElement (dom w) (targetLocator tx) = None \<longrightarrow>
            undo w = (None, w\<lparr>applyErrors := applyErrors w
                                 @ [''Failed to locate element for undo: '' @ txId tx]\<rparr>)"
  proof
    assume h: "undoStack w = us @ [tx] \<and> locateElement (dom w) (targetLocator tx) = None"
    then have s: "txType tx = StyleTx" and d: "\<not> managerDisposed w"
      using inv by (auto simp: historyInvariant_def split: if_splits)
    have "applyTransaction (dom w) tx True = (False, dom w)"
      using h s by (simp add: applyTransaction_def)
    then show "undo w = (None, w\<lparr>applyErrors := applyErrors w
                                 @ [''Failed to locate element for undo: '' @ txId tx]\<rparr>)"
      using h d by (simp add: undo_def Let_def)
  qed
  have b: "redoStack w = rs @ [tx] \<and> locateElement (dom w) (targetLocator tx) = None \<longrightarrow>
            redo options w = (None, w\<lparr>applyErrors := applyErrors w
                                 @ [''Failed to locate element for redo: '' @ txId tx]\<rparr>)"
  proof
    assume h: "redoStack w = rs @ [tx] \<and> locateElement (dom w) (targetLocator tx) = None"
    then have s: "txType tx = StyleTx" and d: "\<not> managerDisposed w"
      using inv by (auto simp: historyInvariant_def split: if_splits)
    have "applyTransaction (dom w) tx False = (False, dom w)"
      using h s by (simp add: applyTransaction_def)
    then show "redo options w = (None, w\<lparr>applyErrors := applyErrors w
                                 @ [''Failed to locate element for redo: '' @ txId tx]\<rparr>)"
      using h d by (simp add: redo_def Let_def)
  qed
  from a b show ?thesis by blast
qed

theorem undo_redo_atomic_on_resolution_failure_witness:
  "reachable exampleOptions missingEditWorld
   \<and> undoStack missingEditWorld
       = [createStyleTransaction ''tx_rs_1'' missingLocator ''color'' ''red'' ''blue'' 1000]
   \<and> locateElement (dom missingEditWorld) missingLocator = None
   \<and> undo missingEditWorld
       = (None, missingEditWorld\<lparr>applyErrors :=
                   [''Failed to locate element for undo: tx_rs_1'']\<rparr>)
   \<and> reachable exampleOptions (undoneWorld\<lparr>dom := emptiedDoc\<rparr>)
   \<and> redoStack (undoneWorld\<lparr>dom := emptiedDoc\<rparr>) = [firstTx]
   \<and> locateElement emptiedDoc okLocator = None
   \<and> redo exampleOptions (undoneWorld\<lparr>dom := emptiedDoc\<rparr>)
       = (None, undoneWorld\<lparr>dom := emptiedDoc,
                   applyErrors := applyErrors undoneWorld
                     @ [''Failed to locate element for redo: tx_rs_1'']\<rparr>)"
proof -
  let ?tx = "createStyleTransaction ''tx_rs_1'' missingLocator ''color'' ''red'' ''blue'' 1000"
  have i: "txId ?tx = ''tx_rs_1''" "txId firstTx = ''tx_rs_1''"
    by (simp_all add: createStyleTransaction_def firstTx_def Let_def)
  have u: "undoStack missingEditWorld = [] @ [?tx]" "dom missingEditWorld = pageDoc"
    "applyErrors missingEditWorld = []"
    by (simp_all add: missingEditWorld_eq)
  have r: "redoStack (undoneWorld\<lparr>dom := emptiedDoc\<rparr>) = [] @ [firstTx]"
    by (simp add: undoneWorld_facts)
  from undo_redo_atomic_on_resolution_failure
         [OF example_reachable(2), where us = "[]" and tx = ?tx]
       undo_redo_atomic_on_resolution_failure
         [OF example_reachable(4), where rs = "[]" and tx = firstTx]
       u r i example_reachable example_located
  show ?thesis by (simp add: firstTx_facts)
qed














subsection \<open>Edits that change nothing\<close>

text \<open>
  Claim C4. \<^verbatim>\<open>recordStyle\<close> with a before-value and an after-value that are equal after
  trimming returns \<^verbatim>\<open>null\<close> and leaves the manager as it was; \<^verbatim>\<open>commit()\<close> on a handle whose
  property reads, trimmed, the value it read at \<^verbatim>\<open>beginStyle\<close> returns \<^verbatim>\<open>null\<close> and leaves
  the stacks, the document and the reported events as they were.
\<close>

theorem no_op_edit_not_recorded:
  "(trim b = trim a \<longrightarrow>
      recordStyle options loc property b a mergeOption now1 now2 w = (None, w))
   \<and> (readStyleValue (styleOf (dom w) (handleTarget h)) (handleProperty h) = beforeValue h \<longrightarrow>
        fst (handleCommit options h mergeOption now1 w) = None
        \<and> snd (snd (handleCommit options h mergeOption now1 w)) = w)"
  by (simp add: recordStyle_def handleCommit_def Let_def)

theorem no_op_edit_not_recorded_witness:
  "trim '' red '' = trim ''red''
   \<and> recordStyle exampleOptions okLocator ''color'' '' red '' ''red'' None 1000 1000 startWorld
       = (None, startWorld)
   \<and> trim (''red'' @ [CHR 0xA0]) = trim ''red''
   \<and> recordStyle exampleOptions okLocator ''color'' (''red'' @ [CHR 0xA0]) ''red'' None
         1000 1000 startWorld
       = (None, startWorld)
   \<and> (case beginStyle True okButton ''color'' 1000 startWorld of
         (Some h, w) \<Rightarrow> fst (handleCommit exampleOptions h None 1001 w) = None
                        \<and> snd (snd (handleCommit exampleOptions h None 1001 w)) = w
       | (None, w) \<Rightarrow> False)"
proof -
  have t: "trim '' red '' = trim ''red''" by (simp add: example_strings)
  have t': "trim (''red'' @ [CHR 0xA0]) = trim ''red''" by code_simp
  have s: "getInlineStyle pageDoc okButton = Some []" by code_simp
  let ?h = "\<lparr> handleId = ''tx_rs_1'', handleProperty = ''color'',
              handleLocator = createElementLocator True pageDoc okButton, handleTarget = okButton,
              beforeValue = [], completed = False \<rparr>"
  let ?w = "startWorld\<lparr>transactionSeq := 1\<rparr>"
  have b: "beginStyle True okButton ''color'' 1000 startWorld = (Some ?h, ?w)"
    by (simp add: beginStyle_def startWorld_def createTransactionManager_def s example_strings
        readStyleValue_def getPropertyValue_def trim_def Let_def)
  have r: "readStyleValue (styleOf (dom ?w) (handleTarget ?h)) (handleProperty ?h) = beforeValue ?h"
    by (simp add: startWorld_def createTransactionManager_def styleOf_def s readStyleValue_def
        getPropertyValue_def example_strings trim_def Let_def)
  from no_op_edit_not_recorded
      [where b = "'' red ''" and a = "''red''" and options = exampleOptions and loc = okLocator
         and property = "''color''" and mergeOption = None and ?now1.0 = 1000 and ?now2.0 = 1000
         and w = startWorld]
    no_op_edit_not_recorded
      [where b = "''red'' @ [CHR 0xA0]" and a = "''red''" and options = exampleOptions
         and loc = okLocator and property = "''color''" and mergeOption = None
         and ?now1.0 = 1000 and ?now2.0 = 1000 and w = startWorld]
    no_op_edit_not_recorded
      [where options = exampleOptions and mergeOption = None and ?now1.0 = 1001
         and w = ?w and h = ?h] t t' r b
  show ?thesis by simp
qed

end
